(* ===== verification/Prelude.thy ===== *)
theory Prelude
  imports Main "HOL-Library.Word" "HOL-Library.Product_Lexorder"
begin

unbundle bit_operations_syntax

text \<open>
  Shared vocabulary of the development.

  \<^item> \<open>fault\<close>, \<open>res\<close>: a C or C++ statement either completes with a value or
    stops the process (a failed \<open>assert\<close>, \<open>LOG_FATAL\<close>, \<open>abort\<close>, \<open>exit\<close>) or
    touches a freed object; the latter are values of the left summand, as are a lock
    taken twice or released by nobody, a list entry linked twice, and, for the loops
    that need it, the end of the fuel.
  \<^item> \<open>rbind\<close>, \<open>check\<close>, \<open>runs\<close>: sequencing, assertions and \<open>for\<close> loops
    over such statements.
  \<^item> \<open>preserves\<close>, \<open>safe_keeps\<close>: the two contracts the component proofs use, with
    one rule per way of composing statements in the collections \<open>pres\<close> and \<open>safe\<close>.
  \<^item> \<open>set_insert\<close>, \<open>set_erase\<close>, \<open>set_lower\<close>: \<open>std::set\<close> as a strictly
    increasing list, behind the locale \<open>ordered_set\<close>.
  \<^item> \<open>reach\<close>, \<open>inductive_invariant\<close>: reachable states and invariants,
    proved once and interpreted by the state machines of the components.
\<close>

section \<open>Results and faults\<close>

datatype fault =
    Assertion_failed
  | Not_in_loop_thread
  | Log_fatal
  | Process_exit
  | Use_after_free
  | Bad_function_call
  | Bad_alloc
  | Null_dereference
  | Self_deadlock
  | Lock_not_held
  | List_corrupted
  | Out_of_fuel

type_synonym 'a res = "fault + 'a"

definition rbind :: "'a res \<Rightarrow> ('a \<Rightarrow> 'b res) \<Rightarrow> 'b res" where
  "rbind m f = (case m of Inl e \<Rightarrow> Inl e | Inr x \<Rightarrow> f x)"

definition check :: "bool \<Rightarrow> fault \<Rightarrow> 'a res \<Rightarrow> 'a res" where
  "check b e m = (if b then m else Inl e)"

fun runs :: "('a \<Rightarrow> 's \<Rightarrow> 's res) \<Rightarrow> 'a list \<Rightarrow> 's \<Rightarrow> 's res" where
  "runs f [] s = Inr s"
| "runs f (x # xs) s = rbind (f x s) (runs f xs)"

definition preserves :: "('s \<Rightarrow> bool) \<Rightarrow> ('s \<Rightarrow> 's res) \<Rightarrow> bool" where
  "preserves I f \<longleftrightarrow> (\<forall>s s'. I s \<longrightarrow> f s = Inr s' \<longrightarrow> I s')"

definition safe_keeps :: "fault set \<Rightarrow> ('s \<Rightarrow> bool) \<Rightarrow> ('s \<Rightarrow> bool) \<Rightarrow> ('s \<Rightarrow> 's res) \<Rightarrow> bool" where
  "safe_keeps E P Q f \<longleftrightarrow>
     (\<forall>s. P s \<longrightarrow> (case f s of Inl e \<Rightarrow> e \<in> E | Inr s' \<Rightarrow> Q s'))"

named_theorems pres \<open>rules that a composed statement preserves an invariant\<close>
named_theorems safe \<open>rules that a composed statement is free of faults and keeps an invariant\<close>

lemma rbind_simps [simp]:
  "rbind (Inl e) f = Inl e"
  "rbind (Inr x) f = f x"
  by (simp_all add: rbind_def)

lemma rbind_Inr_iff [simp]: "rbind m f = Inr y \<longleftrightarrow> (\<exists>x. m = Inr x \<and> f x = Inr y)"
  by (cases m) auto

lemma rbind_assoc: "rbind (rbind m f) g = rbind m (\<lambda>x. rbind (f x) g)"
  by (cases m) auto

lemma check_simps [simp]:
  "check True e m = m"
  "check False e m = Inl e"
  by (simp_all add: check_def)

lemma check_Inr_iff [simp]: "check b e m = Inr y \<longleftrightarrow> b \<and> m = Inr y"
  by (simp add: check_def)

lemma Inr_eq_iffs [simp]:
  "Inr y = rbind m f \<longleftrightarrow> (\<exists>x. m = Inr x \<and> f x = Inr y)"
  "Inr y = check b e k \<longleftrightarrow> b \<and> k = Inr y"
  using rbind_Inr_iff [of m f y] check_Inr_iff [of b e k y] by metis+

lemma runs_append: "runs f (xs @ ys) s = rbind (runs f xs s) (runs f ys)"
  by (induction xs arbitrary: s) (auto simp: rbind_def split: sum.split)

lemma runs_single: "runs f [x] s = f x s"
  by (cases "f x s") simp_all

lemma preservesI: "(\<And>s s'. I s \<Longrightarrow> f s = Inr s' \<Longrightarrow> I s') \<Longrightarrow> preserves I f"
  unfolding preserves_def by iprover

lemma preservesD: "preserves I f \<Longrightarrow> I s \<Longrightarrow> f s = Inr s' \<Longrightarrow> I s'"
  unfolding preserves_def by iprover

lemma preserves_skip [pres]: "preserves I Inr"
  by (simp add: preserves_def)

lemma preserves_rbind [pres]:
  "preserves I f \<Longrightarrow> preserves I g \<Longrightarrow> preserves I (\<lambda>s. rbind (f s) g)"
  by (rule preservesI) (auto dest: preservesD)

lemma preserves_check [pres]: "preserves I f \<Longrightarrow> preserves I (\<lambda>s. check (b s) e (f s))"
  by (rule preservesI) (auto dest: preservesD)

lemma preserves_if [pres]:
  "preserves I f \<Longrightarrow> preserves I g \<Longrightarrow> preserves I (\<lambda>s. if b s then f s else g s)"
  by (rule preservesI) (auto dest: preservesD split: if_splits)

lemma preserves_runs [pres]:
  assumes "\<And>x. x \<in> set xs \<Longrightarrow> preserves I (f x)"
  shows "preserves I (runs f xs)"
  using assms
proof (induction xs)
  case Nil
  then show ?case by (simp add: preserves_def)
next
  case (Cons x xs)
  then have "preserves I (f x)" and "preserves I (runs f xs)" by simp_all
  then have "preserves I (\<lambda>s. rbind (f x s) (runs f xs))" by (rule preserves_rbind)
  then show ?case by simp
qed

lemma safe_keepsI:
  assumes "\<And>s e. P s \<Longrightarrow> f s = Inl e \<Longrightarrow> e \<in> E"
    and "\<And>s s'. P s \<Longrightarrow> f s = Inr s' \<Longrightarrow> Q s'"
  shows "safe_keeps E P Q f"
  using assms by (auto simp: safe_keeps_def split: sum.split)

lemma safe_keepsD:
  "safe_keeps E P Q f \<Longrightarrow> P s \<Longrightarrow> f s = Inr s' \<Longrightarrow> Q s'"
  "safe_keeps E P Q f \<Longrightarrow> P s \<Longrightarrow> f s = Inl e \<Longrightarrow> e \<in> E"
  unfolding safe_keeps_def by (metis sum.simps(6), metis sum.simps(5))

lemma safe_rbind [safe]:
  assumes "safe_keeps E P Q f" and "safe_keeps E Q R g"
  shows "safe_keeps E P R (\<lambda>s. rbind (f s) g)"
  unfolding safe_keeps_def
proof (intro allI impI)
  fix s assume s: "P s"
  show "case rbind (f s) g of Inl e \<Rightarrow> e \<in> E | Inr s' \<Rightarrow> R s'"
  proof (cases "f s")
    case (Inl e)
    then show ?thesis using safe_keepsD(2) [OF assms(1) s Inl] by simp
  next
    case (Inr t)
    then show ?thesis
      using assms(2) safe_keepsD(1) [OF assms(1) s Inr] by (simp add: safe_keeps_def)
  qed
qed

lemma safe_runs [safe]:
  assumes "\<And>x. x \<in> set xs \<Longrightarrow> safe_keeps E P P (f x)"
  shows "safe_keeps E P P (runs f xs)"
  using assms
proof (induction xs)
  case Nil
  then show ?case by (simp add: safe_keeps_def)
next
  case (Cons x xs)
  then have "safe_keeps E P P (f x)" and "safe_keeps E P P (runs f xs)" by simp_all
  then have "safe_keeps E P P (\<lambda>s. rbind (f x s) (runs f xs))" by (rule safe_rbind)
  then show ?case by simp
qed

section \<open>Bytes, errors, event bits\<close>

type_synonym byte = "8 word"
type_synonym addr = "64 word"
type_synonym timestamp = int

text \<open>The error numbers the sources test by name; every other value is \<open>EOTHER\<close>.\<close>

datatype errno =
    EAGAIN | ECONNABORTED | EINTR | EPROTO | EPERM | EMFILE
  | EBADF | EFAULT | EINVAL | ENFILE | ENOBUFS | ENOMEM | ENOTSOCK | EOPNOTSUPP
  | EPIPE | ECONNRESET | EEXIST | ENOENT | ELOOP | ENOSPC | EOTHER nat

text \<open>On Linux \<open>EWOULDBLOCK\<close> is the same number as \<open>EAGAIN\<close>.\<close>

abbreviation EWOULDBLOCK :: errno where
  "EWOULDBLOCK \<equiv> EAGAIN"

text \<open>The bits of \<open>poll.h\<close>.\<close>

definition POLLIN :: "32 word" where "POLLIN = 0x001"
definition POLLPRI :: "32 word" where "POLLPRI = 0x002"
definition POLLOUT :: "32 word" where "POLLOUT = 0x004"
definition POLLERR :: "32 word" where "POLLERR = 0x008"
definition POLLHUP :: "32 word" where "POLLHUP = 0x010"
definition POLLNVAL :: "32 word" where "POLLNVAL = 0x020"
definition POLLRDHUP :: "32 word" where "POLLRDHUP = 0x2000"

lemmas poll_bits =
  POLLIN_def POLLPRI_def POLLOUT_def POLLERR_def POLLHUP_def POLLNVAL_def POLLRDHUP_def

lemma word_and_or_distrib_zero:
  fixes x y z :: "'a::len word"
  shows "(x OR y) AND z = 0 \<longleftrightarrow> x AND z = 0 \<and> y AND z = 0"
proof -
  have "(x OR y) AND z = (x AND z) OR (y AND z)"
    by (rule bit_word_eqI) (auto simp: bit_simps)
  then show ?thesis by (simp add: or_eq_0_iff)
qed

section \<open>std::set as a strictly increasing list\<close>

fun set_insert :: "'a::linorder \<Rightarrow> 'a list \<Rightarrow> 'a list \<times> bool" where
  "set_insert x [] = ([x], True)"
| "set_insert x (y # ys) =
     (if x < y then (x # y # ys, True)
      else if x = y then (y # ys, False)
      else (let (zs, b) = set_insert x ys in (y # zs, b)))"

fun set_erase :: "'a::linorder \<Rightarrow> 'a list \<Rightarrow> 'a list \<times> nat" where
  "set_erase x [] = ([], 0)"
| "set_erase x (y # ys) =
     (if x = y then (ys, 1) else (let (zs, n) = set_erase x ys in (y # zs, n)))"

text \<open>\<open>set_lower x xs\<close> splits the set at the iterator \<open>lower_bound(x)\<close>.\<close>

definition set_lower :: "'a::linorder \<Rightarrow> 'a list \<Rightarrow> 'a list \<times> 'a list" where
  "set_lower x xs = (takeWhile (\<lambda>y. y < x) xs, dropWhile (\<lambda>y. y < x) xs)"

definition set_ok :: "'a::linorder list \<Rightarrow> bool" where
  "set_ok xs \<longleftrightarrow> sorted_wrt (<) xs"


lemma set_okD: "set_ok xs \<Longrightarrow> sorted xs" "set_ok xs \<Longrightarrow> distinct xs"
  by (auto simp: set_ok_def strict_sorted_iff)

lemma set_ok_simps [simp]:
  "set_ok []"
  "set_ok (x # xs) \<longleftrightarrow> (\<forall>y\<in>set xs. x < y) \<and> set_ok xs"
  by (auto simp: set_ok_def)

lemma set_insert_elems [simp]: "set (fst (set_insert x xs)) = insert x (set xs)"
  by (induction xs) (auto simp: case_prod_beta)

lemma set_insert_ok: "set_ok xs \<Longrightarrow> set_ok (fst (set_insert x xs))"
proof (induction xs)
  case Nil
  then show ?case by simp
next
  case (Cons y ys)
  show ?case
  proof (cases "y < x")
    case True
    moreover have "set_ok (fst (set_insert x ys))" using Cons by simp
    moreover have "set (fst (set_insert x ys)) = insert x (set ys)" by simp
    ultimately show ?thesis using Cons.prems by (auto simp: case_prod_beta)
  next
    case False
    then have "x < y \<or> x = y" by auto
    moreover have "x < z" if "x < y" "z \<in> set ys" for z
      using Cons.prems that by (auto intro: less_trans [of x y z])
    ultimately show ?thesis using Cons.prems by auto
  qed
qed

lemma set_insert_new: "set_ok xs \<Longrightarrow> snd (set_insert x xs) \<longleftrightarrow> x \<notin> set xs"
  by (induction xs) (auto simp: case_prod_beta)

lemma set_insert_length:
  "set_ok xs \<Longrightarrow> x \<notin> set xs \<Longrightarrow> length (fst (set_insert x xs)) = Suc (length xs)"
  by (induction xs) (auto simp: case_prod_beta)

lemma set_erase_elems: "set_ok xs \<Longrightarrow> set (fst (set_erase x xs)) = set xs - {x}"
  by (induction xs) (auto simp: case_prod_beta)

lemma set_erase_subset: "set (fst (set_erase x xs)) \<subseteq> set xs"
  by (induction xs) (auto simp: case_prod_beta)

lemma set_erase_ok: "set_ok xs \<Longrightarrow> set_ok (fst (set_erase x xs))"
proof (induction xs)
  case Nil
  then show ?case by simp
next
  case (Cons y ys)
  then show ?case using set_erase_subset [of x ys] by (auto simp: case_prod_beta)
qed

lemma set_erase_count: "set_ok xs \<Longrightarrow> snd (set_erase x xs) = (if x \<in> set xs then 1 else 0)"
  by (induction xs) (auto simp: case_prod_beta)

lemma set_erase_insert:
  "x \<notin> set xs \<Longrightarrow> fst (set_erase x (fst (set_insert x xs))) = xs"
  by (induction x xs rule: set_insert.induct) (auto simp: case_prod_beta Let_def)

lemma set_lower_append: "fst (set_lower x xs) @ snd (set_lower x xs) = xs"
  by (simp add: set_lower_def)

lemma set_lower_fst: "set_ok xs \<Longrightarrow> set (fst (set_lower x xs)) = {y \<in> set xs. y < x}"
proof (induction xs)
  case Nil
  then show ?case by (simp add: set_lower_def)
next
  case (Cons y ys)
  show ?case
  proof (cases "y < x")
    case True
    then show ?thesis using Cons by (auto simp: set_lower_def)
  next
    case False
    then have "\<not> z < x" if "z \<in> set ys" for z
      using Cons.prems that by (auto dest: less_trans [of y z x])
    then show ?thesis using False by (auto simp: set_lower_def)
  qed
qed

lemma set_lower_snd: "set_ok xs \<Longrightarrow> set (snd (set_lower x xs)) = {y \<in> set xs. x \<le> y}"
proof (induction xs)
  case Nil
  then show ?case by (simp add: set_lower_def)
next
  case (Cons y ys)
  show ?case
  proof (cases "y < x")
    case True
    then show ?thesis using Cons by (auto simp: set_lower_def)
  next
    case False
    then have "x \<le> z" if "z \<in> set ys" for z
      using Cons.prems that by (auto intro: order.trans [of x y z])
    then show ?thesis using False by (auto simp: set_lower_def)
  qed
qed

lemma set_ok_append:
  "set_ok (xs @ ys) \<longleftrightarrow> set_ok xs \<and> set_ok ys \<and> (\<forall>x\<in>set xs. \<forall>y\<in>set ys. x < y)"
  by (auto simp: set_ok_def sorted_wrt_append)

lemma set_lower_ok:
  assumes "set_ok xs"
  shows "set_ok (fst (set_lower x xs))" "set_ok (snd (set_lower x xs))"
proof -
  have "set_ok (fst (set_lower x xs) @ snd (set_lower x xs))"
    using assms by (simp only: set_lower_append)
  then show "set_ok (fst (set_lower x xs))" "set_ok (snd (set_lower x xs))"
    unfolding set_ok_append by simp_all
qed

text \<open>
  What the users of \<open>std::set\<close> rely on: insertion and erasure by value with the flag
  and the count they return, and that the size is the number of elements.
\<close>

locale ordered_set =
  fixes ins :: "'a \<Rightarrow> 's \<Rightarrow> 's \<times> bool"
    and era :: "'a \<Rightarrow> 's \<Rightarrow> 's \<times> nat"
    and len :: "'s \<Rightarrow> nat"
    and elems :: "'s \<Rightarrow> 'a set"
    and ok :: "'s \<Rightarrow> bool"
  assumes ins_elems: "ok s \<Longrightarrow> elems (fst (ins x s)) = insert x (elems s)"
    and ins_new: "ok s \<Longrightarrow> snd (ins x s) \<longleftrightarrow> x \<notin> elems s"
    and ins_ok: "ok s \<Longrightarrow> ok (fst (ins x s))"
    and era_elems: "ok s \<Longrightarrow> elems (fst (era x s)) = elems s - {x}"
    and era_count: "ok s \<Longrightarrow> snd (era x s) = (if x \<in> elems s then 1 else 0)"
    and era_ok: "ok s \<Longrightarrow> ok (fst (era x s))"
    and len_elems: "ok s \<Longrightarrow> len s = card (elems s)"
    and elems_finite: "ok s \<Longrightarrow> finite (elems s)"
begin

lemma len_ins: "ok s \<Longrightarrow> x \<notin> elems s \<Longrightarrow> len (fst (ins x s)) = Suc (len s)"
  by (simp add: len_elems ins_ok ins_elems elems_finite)

lemma len_era: "ok s \<Longrightarrow> x \<in> elems s \<Longrightarrow> Suc (len (fst (era x s))) = len s"
  using card_Suc_Diff1 [of "elems s" x] by (simp add: len_elems era_ok era_elems elems_finite)

lemma ins_era: "ok s \<Longrightarrow> x \<notin> elems s \<Longrightarrow> elems (fst (era x (fst (ins x s)))) = elems s"
  by (simp add: era_elems ins_ok ins_elems)

end

text \<open>Two indexes of the same objects: they stay of equal size as long as one is the image
  of the other under an injective projection.\<close>

locale two_indexes =
  A: ordered_set insA eraA lenA elemsA okA + B: ordered_set insB eraB lenB elemsB okB
  for insA :: "'a \<Rightarrow> 's \<Rightarrow> 's \<times> bool" and eraA and lenA and elemsA and okA
    and insB :: "'b \<Rightarrow> 't \<Rightarrow> 't \<times> bool" and eraB and lenB and elemsB and okB
begin

lemma same_len:
  assumes "okA s" and "okB t" and "elemsB t = f ` elemsA s" and "inj_on f (elemsA s)"
  shows "lenA s = lenB t"
  using assms by (simp add: A.len_elems B.len_elems card_image)

lemma indexed_ins:
  assumes "okA s" and "okB t" and "elemsB t = f ` elemsA s"
  shows "elemsB (fst (insB (f x) t)) = f ` elemsA (fst (insA x s))"
  using assms by (simp add: A.ins_elems B.ins_elems)

lemma indexed_era:
  assumes "okA s" and "okB t" and "elemsB t = f ` elemsA s" and "inj_on f (elemsA s)"
    and "x \<in> elemsA s"
  shows "elemsB (fst (eraB (f x) t)) = f ` elemsA (fst (eraA x s))"
proof -
  have "f ` (elemsA s - {x}) = f ` elemsA s - f ` {x}"
    using assms(4,5) by (auto simp: inj_on_def)
  then show ?thesis using assms(1-3) by (simp add: A.era_elems B.era_elems)
qed

end

interpretation std_set: ordered_set set_insert set_erase length set set_ok
  by unfold_locales
    (simp_all add: set_insert_ok set_insert_new set_erase_elems set_erase_ok set_erase_count
      distinct_card set_okD)

interpretation std_sets: two_indexes
  set_insert set_erase length set set_ok set_insert set_erase length set set_ok
  by unfold_locales

section \<open>Decimal printing\<close>

text \<open>\<open>%d\<close> of \<open>printf\<close> and \<open>operator<<\<close> on an \<open>int\<close>.\<close>

definition digit :: "nat \<Rightarrow> char" where
  "digit d = char_of (48 + d)"

fun show_nat :: "nat \<Rightarrow> string" where
  "show_nat n = (if n < 10 then [digit n] else show_nat (n div 10) @ [digit (n mod 10)])"

declare show_nat.simps [simp del]

definition show_int :: "int \<Rightarrow> string" where
  "show_int i = (if i < 0 then CHR ''-'' # show_nat (nat (- i)) else show_nat (nat i))"

lemma digit_chars [simp]:
  "digit 0 = CHR ''0''" "digit (Suc 0) = CHR ''1''" "digit 1 = CHR ''1''" "digit 2 = CHR ''2''"
  "digit 3 = CHR ''3''" "digit 4 = CHR ''4''" "digit 5 = CHR ''5''" "digit 6 = CHR ''6''"
  "digit 7 = CHR ''7''" "digit 8 = CHR ''8''" "digit 9 = CHR ''9''"
  by (simp_all add: digit_def char_of_def bit_0)

lemma of_char_digit: "d < 10 \<Longrightarrow> of_char (digit d) = 48 + d"
  by (simp add: digit_def of_char_of)

lemma digit_inj: "a < 10 \<Longrightarrow> b < 10 \<Longrightarrow> digit a = digit b \<longleftrightarrow> a = b"
  by (metis of_char_digit add_left_cancel)

lemma show_nat_not_Nil [simp]: "show_nat n \<noteq> []" "[] \<noteq> show_nat n"
  by (simp_all add: show_nat.simps [of n])

lemma show_nat_inj: "show_nat m = show_nat n \<Longrightarrow> m = n"
proof (induction m arbitrary: n rule: show_nat.induct)
  case (1 m)
  show ?case
  proof (cases "m < 10 \<or> n < 10")
    case True
    then show ?thesis
      using "1.prems" digit_inj [of m n]
      by (auto simp: show_nat.simps [of m] show_nat.simps [of n] split: if_splits)
  next
    case False
    then have "show_nat (m div 10) = show_nat (n div 10)"
      and "digit (m mod 10) = digit (n mod 10)"
      using "1.prems" by (simp_all add: show_nat.simps [of m] show_nat.simps [of n])
    then have "m div 10 = n div 10" and "m mod 10 = n mod 10"
      using "1.IH" False digit_inj by simp_all
    then show ?thesis by (metis div_mult_mod_eq)
  qed
qed

lemma show_nat_length: "0 < k \<Longrightarrow> n < 10 ^ k \<Longrightarrow> length (show_nat n) \<le> k"
proof (induction k arbitrary: n)
  case 0
  then show ?case by simp
next
  case (Suc k)
  show ?case
  proof (cases "n < 10")
    case True
    then show ?thesis by (simp add: show_nat.simps)
  next
    case False
    with Suc.prems have "0 < k" by (cases k) auto
    moreover have "n div 10 < 10 ^ k" using Suc.prems by (simp add: less_mult_imp_div_less mult.commute)
    ultimately have "length (show_nat (n div 10)) \<le> k" by (rule Suc.IH)
    with False show ?thesis by (simp add: show_nat.simps [of n])
  qed
qed

section \<open>Transition systems\<close>

inductive reach :: "('s \<Rightarrow> bool) \<Rightarrow> ('s \<Rightarrow> 's \<Rightarrow> bool) \<Rightarrow> 's \<Rightarrow> bool"
  for init step where
  reach_init: "init s \<Longrightarrow> reach init step s"
| reach_step: "reach init step s \<Longrightarrow> step s t \<Longrightarrow> reach init step t"

locale inductive_invariant =
  fixes init :: "'s \<Rightarrow> bool" and step :: "'s \<Rightarrow> 's \<Rightarrow> bool" and inv :: "'s \<Rightarrow> bool"
  assumes init_inv: "init s \<Longrightarrow> inv s"
    and step_inv: "inv s \<Longrightarrow> step s t \<Longrightarrow> inv t"
begin

lemma reach_inv: "reach init step s \<Longrightarrow> inv s"
  by (induction rule: reach.induct) (auto intro: init_inv step_inv)

lemma steps_inv: "step\<^sup>*\<^sup>* s t \<Longrightarrow> inv s \<Longrightarrow> inv t"
  by (induction rule: rtranclp_induct) (auto intro: step_inv)

end

end
