(* ===== verification/Epoll_Core.thy ===== *)
theory Epoll_Core
  imports Prelude
begin

text \<open>
  The Linux event poll, \<open>eventpoll.c\<close>: its structures, the wake-up callback, the scan of the
  ready list and the transfer of the events to user space.

  \<^item> The heap of the kernel is the record \<open>kernel\<close>: the items, poll entries and eventpolls by
    address, the wait queues of the files, the locks that are held and a log of the calls that
    only have effects outside. A list entry carries the flag that it is linked, as an
    initialised \<open>list_head\<close> shows; linking it twice and unlinking it when it is not linked are
    faults. The chain \<open>ovflist\<close> is kept as the pointers of the source.
  \<^item> The functions and macros of the kernel that the file calls and does not contain are
    fields of the argument \<open>L\<close>. What files and user memory answer while a list is scanned, and
    the wake-ups that arrive meanwhile on other processors, is the argument \<open>Q\<close>.
  \<^item> The scan runs with \<open>mtx\<close> held and without \<open>lock\<close>: the wake-ups of \<open>Q\<close> arrive before an item is
    unlinked, and between its unlinking and the look at the user's buffer.
\<close>

section \<open>Structures\<close>

datatype eptr = EP_UNACTIVE_PTR | NULL | Epi nat

record epoll_event =
  ev_events :: "32 word"
  ev_data :: "64 word"

record epitem =
  rdllink :: bool
  epi_next :: eptr
  ffd_file :: nat
  ffd_fd :: int
  nwait :: int
  pwqlist :: "nat list"
  epi_ep :: nat
  epi_ws :: "nat option"
  event :: epoll_event

record eventpoll =
  ep_wq :: "nat list"
  ep_poll_wait :: "nat list"
  rdllist :: "nat list"
  rbr :: "nat list"
  ovflist :: eptr
  ep_user :: nat
  ep_file :: "nat option"

record eppoll_entry =
  pwq_base :: nat
  pwq_whead :: "nat option"

datatype lock = Epmutex | Mtx nat | Spin nat | F_lock nat

datatype kev =
    K_stay_awake_ep nat | K_stay_awake nat | K_relax nat | K_relax_ep nat | K_ws_unregister "nat option"
  | K_safewake nat | K_get_user nat | K_free_uid nat | K_get_fd int | K_put_fd int | K_ep_free nat
  | K_fd_install int nat | K_free_epi nat | K_list_add_tfile nat | K_clear_tfile_list

record kernel =
  epis :: "nat \<Rightarrow> epitem"
  pwqs :: "nat \<Rightarrow> eppoll_entry"
  eps :: "nat \<Rightarrow> eventpoll"
  waitq :: "nat \<Rightarrow> (nat \<times> bool) list"
  f_ep_links :: "nat \<Rightarrow> nat list"
  watches :: "nat \<Rightarrow> int"
  task_running :: "nat \<Rightarrow> bool"
  file_refs :: "nat \<Rightarrow> nat"
  held :: "lock list"
  klog :: "kev list"

definition upd_epi :: "nat \<Rightarrow> (epitem \<Rightarrow> epitem) \<Rightarrow> kernel \<Rightarrow> kernel" where
  "upd_epi e f k = k\<lparr>epis := (epis k)(e := f (epis k e))\<rparr>"

definition upd_ep :: "nat \<Rightarrow> (eventpoll \<Rightarrow> eventpoll) \<Rightarrow> kernel \<Rightarrow> kernel" where
  "upd_ep ep f k = k\<lparr>eps := (eps k)(ep := f (eps k ep))\<rparr>"

definition klogs :: "kev \<Rightarrow> kernel \<Rightarrow> kernel" where
  "klogs ev k = k\<lparr>klog := klog k @ [ev]\<rparr>"

definition klog_if :: "bool \<Rightarrow> kev \<Rightarrow> kernel \<Rightarrow> kernel" where
  "klog_if b ev k = (if b then klogs ev k else k)"

text \<open>The bits of \<open>eventpoll.h\<close> and \<open>poll.h\<close>, and the error numbers.\<close>

definition EPOLLET :: "32 word" where "EPOLLET = 0x80000000"
definition EPOLLONESHOT :: "32 word" where "EPOLLONESHOT = 0x40000000"
definition EPOLLWAKEUP :: "32 word" where "EPOLLWAKEUP = 0x20000000"
definition EPOLLEXCLUSIVE :: "32 word" where "EPOLLEXCLUSIVE = 0x10000000"
definition POLLFREE :: "64 word" where "POLLFREE = 0x4000"

definition ENOENT_code :: int where "ENOENT_code = 2"
definition EINTR_code :: int where "EINTR_code = 4"
definition EBADF_code :: int where "EBADF_code = 9"
definition ENOMEM_code :: int where "ENOMEM_code = 12"
definition EFAULT_code :: int where "EFAULT_code = 14"
definition EPERM_code :: int where "EPERM_code = 1"
definition EEXIST_code :: int where "EEXIST_code = 17"
definition EINVAL_code :: int where "EINVAL_code = 22"
definition ENOSPC_code :: int where "ENOSPC_code = 28"
definition ELOOP_code :: int where "ELOOP_code = 40"

section \<open>The kernel around the file\<close>

record klib =
  lb_private_bits :: "32 word"
  lb_inout_bits :: "32 word"
  lb_exclusive_ok_bits :: "32 word"
  lb_max_events :: int
  lb_is_linked :: "bool \<Rightarrow> bool"
  lb_events_available :: "eventpoll \<Rightarrow> bool"
  lb_op_has_event :: "int \<Rightarrow> bool"
  lb_is_file_epoll :: "nat \<Rightarrow> bool"
  lb_private_data :: "nat \<Rightarrow> nat"
  lb_can_poll :: "nat \<Rightarrow> bool"
  lb_find :: "kernel \<Rightarrow> nat \<Rightarrow> nat \<Rightarrow> int \<Rightarrow> nat option"
  lb_rbtree_insert :: "nat \<Rightarrow> nat list \<Rightarrow> nat list"
  lb_remove :: "nat \<Rightarrow> nat \<Rightarrow> kernel \<Rightarrow> int \<times> kernel"
  lb_modify :: "nat \<Rightarrow> nat \<Rightarrow> epoll_event \<Rightarrow> kernel \<Rightarrow> int \<times> kernel"
  lb_unregister_pollwait :: "nat \<Rightarrow> nat \<Rightarrow> kernel \<Rightarrow> kernel"
  lb_loop_check :: "kernel \<Rightarrow> nat \<Rightarrow> nat \<Rightarrow> int"
  lb_reverse_path_check :: "kernel \<Rightarrow> int"
  lb_epollwakeup :: "epoll_event \<Rightarrow> epoll_event"
  lb_create_wakeup_source :: "kernel \<Rightarrow> nat \<Rightarrow> int \<times> nat option"
  lb_max_user_watches :: int

section \<open>Locks, lists and wait queues\<close>

definition acquire :: "lock \<Rightarrow> kernel \<Rightarrow> kernel res" where
  "acquire l k = check (l \<notin> set (held k)) Self_deadlock (Inr (k\<lparr>held := l # held k\<rparr>))"

definition release :: "lock \<Rightarrow> kernel \<Rightarrow> kernel res" where
  "release l k = check (l \<in> set (held k)) Lock_not_held (Inr (k\<lparr>held := remove1 l (held k)\<rparr>))"

definition list_add_tail_rdl :: "nat \<Rightarrow> nat \<Rightarrow> kernel \<Rightarrow> kernel res" where
  "list_add_tail_rdl ep e k =
     check (\<not> rdllink (epis k e)) List_corrupted
       (Inr (upd_epi e (\<lambda>epi. epi\<lparr>rdllink := True\<rparr>)
         (upd_ep ep (\<lambda>p. p\<lparr>rdllist := rdllist p @ [e]\<rparr>) k)))"

definition unlink_rdl :: "nat \<Rightarrow> kernel \<Rightarrow> kernel res" where
  "unlink_rdl e k =
     check (rdllink (epis k e)) List_corrupted (Inr (upd_epi e (\<lambda>epi. epi\<lparr>rdllink := False\<rparr>) k))"

definition relink_rdl :: "nat \<Rightarrow> kernel \<Rightarrow> kernel res" where
  "relink_rdl e k =
     check (\<not> rdllink (epis k e)) List_corrupted (Inr (upd_epi e (\<lambda>epi. epi\<lparr>rdllink := True\<rparr>) k))"

text \<open>The waiters on \<open>wq\<close> are exclusive: \<open>wake_up_locked\<close> wakes the first one that sleeps.\<close>

definition wake_up_locked :: "nat \<Rightarrow> kernel \<Rightarrow> kernel" where
  "wake_up_locked ep k =
     (case filter (\<lambda>t. \<not> task_running k t) (ep_wq (eps k ep)) of
        [] \<Rightarrow> k
      | t # _ \<Rightarrow> k\<lparr>task_running := (task_running k)(t := True)\<rparr>)"

definition waitqueue_active :: "nat list \<Rightarrow> bool" where
  "waitqueue_active q \<longleftrightarrow> q \<noteq> []"

section \<open>The wake-up callback\<close>

text \<open>\<open>list_del_init(&wait->task_list)\<close>: the entry leaves the queue it hangs on.\<close>

definition pollfree :: "nat \<Rightarrow> kernel \<Rightarrow> kernel" where
  "pollfree wait k =
     (let k' = k\<lparr>pwqs := (pwqs k)(wait := (pwqs k wait)\<lparr>pwq_whead := None\<rparr>)\<rparr>
      in case pwq_whead (pwqs k wait) of
           None \<Rightarrow> k'
         | Some h \<Rightarrow> k'\<lparr>waitq := (waitq k')(h := filter (\<lambda>(p, x). p \<noteq> wait) (waitq k' h))\<rparr>)"

definition ewake_of :: "klib \<Rightarrow> 32 word \<Rightarrow> 64 word \<Rightarrow> int" where
  "ewake_of L evs key =
     (if evs AND EPOLLEXCLUSIVE \<noteq> 0 \<and> key AND POLLFREE = 0
      then (if key AND ucast (lb_inout_bits L) = ucast POLLIN
            then (if evs AND POLLIN \<noteq> 0 then 1 else 0)
            else if key AND ucast (lb_inout_bits L) = ucast POLLOUT
            then (if evs AND POLLOUT \<noteq> 0 then 1 else 0)
            else if key AND ucast (lb_inout_bits L) = 0 then 1 else 0)
      else 0)"

text \<open>The conditions under which the callback leaves the item alone.\<close>

definition cb_ignores :: "klib \<Rightarrow> 32 word \<Rightarrow> 64 word \<Rightarrow> bool" where
  "cb_ignores L evs key \<longleftrightarrow>
     evs AND NOT (lb_private_bits L) = 0 \<or> (key \<noteq> 0 \<and> key AND ucast evs = 0)"

definition cb_overflow :: "nat \<Rightarrow> nat \<Rightarrow> kernel \<Rightarrow> kernel" where
  "cb_overflow ep e k =
     (if epi_next (epis k e) = EP_UNACTIVE_PTR
      then klog_if (epi_ws (epis k e) \<noteq> None) (K_stay_awake_ep ep)
        (upd_ep ep (\<lambda>p. p\<lparr>ovflist := Epi e\<rparr>)
        (upd_epi e (\<lambda>epi. epi\<lparr>epi_next := ovflist (eps k ep)\<rparr>) k))
      else k)"

text \<open>The part under \<open>lock\<close>: the wake-up for the exclusive waiters, whether \<open>poll_wait\<close> is to be
  woken, and the state.\<close>

definition cb_locked :: "klib \<Rightarrow> nat \<Rightarrow> nat \<Rightarrow> 64 word \<Rightarrow> kernel \<Rightarrow> (int \<times> bool \<times> kernel) res" where
  "cb_locked L ep e key k =
     (let evs = ev_events (event (epis k e)) in
      if cb_ignores L evs key then Inr (0, False, k)
      else if ovflist (eps k ep) \<noteq> EP_UNACTIVE_PTR then Inr (0, False, cb_overflow ep e k)
      else rbind (if \<not> lb_is_linked L (rdllink (epis k e))
                  then rbind (list_add_tail_rdl ep e k) (\<lambda>k. Inr (klogs (K_stay_awake e) k))
                  else Inr k)
        (\<lambda>k. let (ewake, k) = (if waitqueue_active (ep_wq (eps k ep))
                               then (ewake_of L evs key, wake_up_locked ep k) else (0, k))
             in Inr (ewake, waitqueue_active (ep_poll_wait (eps k ep)), k)))"

definition ep_poll_callback :: "klib \<Rightarrow> nat \<Rightarrow> 64 word \<Rightarrow> kernel \<Rightarrow> (int \<times> kernel) res" where
  "ep_poll_callback L wait key k =
     (let e = pwq_base (pwqs k wait); ep = epi_ep (epis k e);
          k = (if key AND POLLFREE \<noteq> 0 then pollfree wait k else k)
      in rbind (acquire (Spin ep) k) (\<lambda>k.
         rbind (cb_locked L ep e key k) (\<lambda>(ewake, pwake, k).
         rbind (release (Spin ep) k) (\<lambda>k.
           let k = klog_if pwake (K_safewake ep) k
           in Inr (if ev_events (event (epis k e)) AND EPOLLEXCLUSIVE \<noteq> 0 then ewake else 1, k)))))"

definition hit :: "klib \<Rightarrow> nat \<times> 64 word \<Rightarrow> kernel \<Rightarrow> kernel res" where
  "hit L h k = rbind (ep_poll_callback L (fst h) (snd h) k) (\<lambda>(r, k). Inr k)"

text \<open>The callback that a file's \<open>poll\<close> runs on each of its wait queues when an item is added;
  \<open>pwq\<close> is what the allocator returns.\<close>

definition ep_ptable_queue_proc :: "nat \<Rightarrow> nat \<times> nat option \<Rightarrow> kernel \<Rightarrow> kernel" where
  "ep_ptable_queue_proc e = (\<lambda>(whead, alloc) k.
     case (if 0 \<le> nwait (epis k e) then alloc else None) of
       Some pwq \<Rightarrow>
         let excl = (ev_events (event (epis k e)) AND EPOLLEXCLUSIVE \<noteq> 0);
             k = k\<lparr>pwqs := (pwqs k)(pwq := \<lparr>pwq_base = e, pwq_whead = Some whead\<rparr>)\<rparr>;
             k = k\<lparr>waitq := (waitq k)(whead :=
                   (if excl then waitq k whead @ [(pwq, True)] else (pwq, False) # waitq k whead))\<rparr>
         in upd_epi e (\<lambda>epi. epi\<lparr>pwqlist := pwqlist epi @ [pwq], nwait := nwait epi + 1\<rparr>) k
     | None \<Rightarrow> upd_epi e (\<lambda>epi. epi\<lparr>nwait := -1\<rparr>) k)"

section \<open>The transfer to user space\<close>

text \<open>\<open>sq_hits Q i\<close> are the wake-ups at the \<open>i\<close>-th point, \<open>sq_revents Q i\<close> the answer of
  \<open>ep_item_poll\<close> in the \<open>i\<close>-th round, \<open>sq_put_user Q i\<close> whether both copies of that round succeed.\<close>

record scan_env =
  sq_hits :: "nat \<Rightarrow> (nat \<times> 64 word) list"
  sq_revents :: "nat \<Rightarrow> nat \<Rightarrow> 32 word"
  sq_put_user :: "nat \<Rightarrow> bool"
  sq_ws_active :: "nat \<Rightarrow> bool"

definition shift_wakeup_source :: "scan_env \<Rightarrow> nat \<Rightarrow> nat \<Rightarrow> nat \<Rightarrow> kernel \<Rightarrow> kernel" where
  "shift_wakeup_source Q i ep e k =
     (case epi_ws (epis k e) of
        None \<Rightarrow> k
      | Some ws \<Rightarrow> klogs (K_relax ws) (klog_if (sq_ws_active Q i) (K_stay_awake_ep ep) k))"

text \<open>After a delivery: a one-shot item is disabled, a level-triggered one goes back to the
  ready list.\<close>

definition rearm :: "klib \<Rightarrow> nat \<Rightarrow> nat \<Rightarrow> kernel \<Rightarrow> kernel res" where
  "rearm L ep e k =
     (if ev_events (event (epis k e)) AND EPOLLONESHOT \<noteq> 0
      then Inr (upd_epi e (\<lambda>epi. epi\<lparr>event := (event epi)
             \<lparr>ev_events := ev_events (event epi) AND lb_private_bits L\<rparr>\<rparr>) k)
      else if ev_events (event (epis k e)) AND EPOLLET = 0
      then rbind (list_add_tail_rdl ep e k) (\<lambda>k. Inr (klogs (K_stay_awake e) k))
      else Inr k)"

type_synonym uevents = "(32 word \<times> 64 word) list"

fun send_loop :: "klib \<Rightarrow> scan_env \<Rightarrow> nat \<Rightarrow> int \<Rightarrow> nat \<Rightarrow> uevents \<Rightarrow> nat list \<Rightarrow> kernel
    \<Rightarrow> (int \<times> uevents \<times> nat list \<times> kernel) res" where
  "send_loop L Q ep maxevents i us [] k = Inr (int (length us), us, [], k)"
| "send_loop L Q ep maxevents i us (e # tx) k =
     (if maxevents \<le> int (length us) then Inr (int (length us), us, e # tx, k)
      else
        rbind (runs (hit L) (sq_hits Q (2 * i)) k) (\<lambda>k.
        rbind (unlink_rdl e (shift_wakeup_source Q i ep e k)) (\<lambda>k.
        rbind (runs (hit L) (sq_hits Q (2 * i + 1)) k) (\<lambda>k.
          let revents = sq_revents Q i e in
          if revents = 0 then send_loop L Q ep maxevents (i + 1) us tx k
          else if \<not> sq_put_user Q i
          then rbind (relink_rdl e k) (\<lambda>k.
            Inr (if us \<noteq> [] then int (length us) else - EFAULT_code, us, e # tx, klogs (K_stay_awake e) k))
          else rbind (rearm L ep e k)
            (send_loop L Q ep maxevents (i + 1) (us @ [(revents, ev_data (event (epis k e)))]) tx)))))"

definition ep_send_events_proc :: "klib \<Rightarrow> scan_env \<Rightarrow> int \<Rightarrow> nat \<Rightarrow> nat list \<Rightarrow> kernel
    \<Rightarrow> (int \<times> uevents \<times> nat list \<times> kernel) res" where
  "ep_send_events_proc L Q maxevents ep txlist k = send_loop L Q ep maxevents 0 [] txlist k"

section \<open>The scan of the ready list\<close>

text \<open>The loop over \<open>ovflist\<close>, which follows the pointers.\<close>

fun reinject :: "nat \<Rightarrow> klib \<Rightarrow> nat \<Rightarrow> eptr \<Rightarrow> kernel \<Rightarrow> kernel res" where
  "reinject 0 L ep p k = Inl Out_of_fuel"
| "reinject (Suc n) L ep p k =
     (case p of
        NULL \<Rightarrow> Inr k
      | EP_UNACTIVE_PTR \<Rightarrow> Inl Use_after_free
      | Epi e \<Rightarrow>
          rbind (if \<not> lb_is_linked L (rdllink (epis k e))
                 then rbind (list_add_tail_rdl ep e k) (\<lambda>k. Inr (klogs (K_stay_awake e) k))
                 else Inr k)
            (\<lambda>k. reinject n L ep (epi_next (epis k e))
                   (upd_epi e (\<lambda>epi. epi\<lparr>epi_next := EP_UNACTIVE_PTR\<rparr>) k)))"

definition scan_finish :: "nat \<Rightarrow> nat list \<Rightarrow> kernel \<Rightarrow> bool \<times> kernel" where
  "scan_finish ep txlist k =
     (let k = upd_ep ep (\<lambda>p. p\<lparr>ovflist := EP_UNACTIVE_PTR, rdllist := txlist @ rdllist p\<rparr>) k;
          k = klogs (K_relax_ep ep) k
      in if rdllist (eps k ep) \<noteq> []
         then let k = (if waitqueue_active (ep_wq (eps k ep)) then wake_up_locked ep k else k)
              in (waitqueue_active (ep_poll_wait (eps k ep)), k)
         else (False, k))"

definition ep_scan_ready_list :: "nat \<Rightarrow> klib \<Rightarrow> nat \<Rightarrow> (nat \<Rightarrow> nat list \<Rightarrow> kernel
      \<Rightarrow> (int \<times> 'u \<times> nat list \<times> kernel) res) \<Rightarrow> bool \<Rightarrow> kernel \<Rightarrow> (int \<times> 'u \<times> kernel) res" where
  "ep_scan_ready_list n L ep sproc ep_locked k =
     rbind (if \<not> ep_locked then acquire (Mtx ep) k else Inr k) (\<lambda>k.
     rbind (acquire (Spin ep) k) (\<lambda>k.
     let txlist = rdllist (eps k ep);
         k = upd_ep ep (\<lambda>p. p\<lparr>rdllist := [], ovflist := NULL\<rparr>) k in
     rbind (release (Spin ep) k) (\<lambda>k.
     rbind (sproc ep txlist k) (\<lambda>(error, u, txlist, k).
     rbind (acquire (Spin ep) k) (\<lambda>k.
     rbind (reinject n L ep (ovflist (eps k ep)) k) (\<lambda>k.
     let (pwake, k) = scan_finish ep txlist k in
     rbind (release (Spin ep) k) (\<lambda>k.
     rbind (if \<not> ep_locked then release (Mtx ep) k else Inr k) (\<lambda>k.
     Inr (error, u, klog_if pwake (K_safewake ep) k)))))))))"

definition ep_send_events :: "nat \<Rightarrow> klib \<Rightarrow> scan_env \<Rightarrow> nat \<Rightarrow> int \<Rightarrow> kernel \<Rightarrow> (int \<times> uevents \<times> kernel) res" where
  "ep_send_events n L Q ep maxevents k =
     ep_scan_ready_list n L ep (ep_send_events_proc L Q maxevents) False k"

end
