(* ===== verification/Epoll_Calls.thy ===== *)
theory Epoll_Calls
  imports Epoll_Core
begin

text \<open>
  The system calls of \<open>eventpoll.c\<close>: \<open>epoll_create\<close>, \<open>epoll_create1\<close>, \<open>epoll_ctl\<close> with
  \<open>ep_insert\<close>, and \<open>epoll_wait\<close> with \<open>ep_poll\<close>.

  What the allocators, the descriptor table, the monitored file and the other processors
  answer during a call is an argument (\<open>create_env\<close>, \<open>insert_env\<close>, \<open>wait_env\<close>). The two loops of
  \<open>ep_poll\<close> may run for ever and take fuel. A reference to a \<open>struct file\<close> is counted; giving
  one back that was not taken is a fault.
\<close>

section \<open>Creation\<close>

definition EPOLL_CLOEXEC :: "32 word" where "EPOLL_CLOEXEC = 0x80000"

record create_env =
  ce_user :: nat
  ce_kzalloc :: "nat option"
  ce_unused_fd :: int
  ce_getfile :: "int + nat"

definition ep_alloc :: "create_env \<Rightarrow> kernel \<Rightarrow> (int \<times> nat option) \<times> kernel" where
  "ep_alloc C k =
     (let k = klogs (K_get_user (ce_user C)) k in
      case ce_kzalloc C of
        None \<Rightarrow> ((- ENOMEM_code, None), klogs (K_free_uid (ce_user C)) k)
      | Some ep \<Rightarrow>
          ((0, Some ep), upd_ep ep (\<lambda>_. \<lparr>ep_wq = [], ep_poll_wait = [], rdllist = [], rbr = [],
             ovflist = EP_UNACTIVE_PTR, ep_user = ce_user C, ep_file = None\<rparr>) k))"

definition epoll_create1 :: "create_env \<Rightarrow> 32 word \<Rightarrow> kernel \<Rightarrow> int \<times> kernel" where
  "epoll_create1 C flags k =
     (if flags AND NOT EPOLL_CLOEXEC \<noteq> 0 then (- EINVAL_code, k)
      else case ep_alloc C k of
        ((error, None), k) \<Rightarrow> (error, k)
      | ((error, Some ep), k) \<Rightarrow>
          if error < 0 then (error, k)
          else if ce_unused_fd C < 0 then (ce_unused_fd C, klogs (K_ep_free ep) k)
          else let fd = ce_unused_fd C; k = klogs (K_get_fd fd) k in
            (case ce_getfile C of
               Inl error \<Rightarrow> (error, klogs (K_ep_free ep) (klogs (K_put_fd fd) k))
             | Inr file \<Rightarrow> (fd, klogs (K_fd_install fd file) (upd_ep ep (\<lambda>p. p\<lparr>ep_file := Some file\<rparr>) k))))"

definition epoll_create :: "create_env \<Rightarrow> int \<Rightarrow> kernel \<Rightarrow> int \<times> kernel" where
  "epoll_create C sz k = (if sz \<le> 0 then (- EINVAL_code, k) else epoll_create1 C 0 k)"

section \<open>Insertion\<close>

record insert_env =
  ie_alloc :: "nat option"
  ie_wheads :: "(nat \<times> nat option) list"
  ie_hits :: "(nat \<times> 64 word) list"
  ie_revents :: "32 word"

definition new_epitem :: "nat \<Rightarrow> epoll_event \<Rightarrow> nat \<Rightarrow> int \<Rightarrow> epitem" where
  "new_epitem ep ev tfile fd =
     \<lparr>rdllink = False, epi_next = EP_UNACTIVE_PTR, ffd_file = tfile, ffd_fd = fd, nwait = 0, pwqlist = [],
      epi_ep = ep, epi_ws = None, event = ev\<rparr>"

text \<open>The part from \<open>error_unregister\<close> on.\<close>

definition insert_undo :: "klib \<Rightarrow> nat \<Rightarrow> nat \<Rightarrow> kernel \<Rightarrow> kernel res" where
  "insert_undo L ep e k =
     rbind (acquire (Spin ep) (lb_unregister_pollwait L ep e k)) (\<lambda>k.
     rbind (if lb_is_linked L (rdllink (epis k e))
            then rbind (unlink_rdl e k) (\<lambda>k. Inr (upd_ep ep (\<lambda>p. p\<lparr>rdllist := remove1 e (rdllist p)\<rparr>) k))
            else Inr k) (\<lambda>k.
     rbind (release (Spin ep) k) (\<lambda>k.
     Inr (klogs (K_free_epi e) (klogs (K_ws_unregister (epi_ws (epis k e))) k)))))"

text \<open>The part under \<open>lock\<close> that makes a file that is already ready known.\<close>

definition insert_ready :: "klib \<Rightarrow> nat \<Rightarrow> nat \<Rightarrow> 32 word \<Rightarrow> 32 word \<Rightarrow> kernel \<Rightarrow> (bool \<times> kernel) res" where
  "insert_ready L ep e revents evs k =
     (if revents AND evs \<noteq> 0 \<and> \<not> lb_is_linked L (rdllink (epis k e))
      then rbind (list_add_tail_rdl ep e k) (\<lambda>k.
        let k = klogs (K_stay_awake e) k;
            k = (if waitqueue_active (ep_wq (eps k ep)) then wake_up_locked ep k else k)
        in Inr (waitqueue_active (ep_poll_wait (eps k ep)), k))
      else Inr (False, k))"

definition link_file :: "nat \<Rightarrow> nat \<Rightarrow> kernel \<Rightarrow> kernel res" where
  "link_file tfile e k =
     rbind (acquire (F_lock tfile) k) (\<lambda>k.
       release (F_lock tfile) (k\<lparr>f_ep_links := (f_ep_links k)(tfile := f_ep_links k tfile @ [e])\<rparr>))"

definition unlink_file :: "nat \<Rightarrow> nat \<Rightarrow> kernel \<Rightarrow> kernel res" where
  "unlink_file tfile e k =
     rbind (acquire (F_lock tfile) k) (\<lambda>k.
       release (F_lock tfile) (k\<lparr>f_ep_links := (f_ep_links k)(tfile := remove1 e (f_ep_links k tfile))\<rparr>))"

text \<open>The part from the poll hooks on, with the item initialised.\<close>

definition insert_attached :: "klib \<Rightarrow> insert_env \<Rightarrow> nat \<Rightarrow> epoll_event \<Rightarrow> nat \<Rightarrow> bool \<Rightarrow> nat \<Rightarrow> kernel
    \<Rightarrow> (int \<times> kernel) res" where
  "insert_attached L I ep ev tfile full_check e k =
     rbind (runs (hit L) (ie_hits I) (fold (ep_ptable_queue_proc e) (ie_wheads I) k)) (\<lambda>k.
     if nwait (epis k e) < 0 then rbind (insert_undo L ep e k) (\<lambda>k. Inr (- ENOMEM_code, k))
     else
       rbind (link_file tfile e k) (\<lambda>k.
       let k = upd_ep ep (\<lambda>p. p\<lparr>rbr := lb_rbtree_insert L e (rbr p)\<rparr>) k in
       if full_check \<and> lb_reverse_path_check L k \<noteq> 0
       then rbind (unlink_file tfile e k) (\<lambda>k.
            rbind (insert_undo L ep e (upd_ep ep (\<lambda>p. p\<lparr>rbr := remove1 e (rbr p)\<rparr>) k)) (\<lambda>k.
            Inr (- EINVAL_code, k)))
       else
         rbind (acquire (Spin ep) k) (\<lambda>k.
         rbind (insert_ready L ep e (ie_revents I) (ev_events ev) k) (\<lambda>(pwake, k).
         rbind (release (Spin ep) k) (\<lambda>k.
         let u = ep_user (eps k ep); k = k\<lparr>watches := (watches k)(u := watches k u + 1)\<rparr>
         in Inr (0, klog_if pwake (K_safewake ep) k))))))"

definition ep_insert :: "klib \<Rightarrow> insert_env \<Rightarrow> nat \<Rightarrow> epoll_event \<Rightarrow> nat \<Rightarrow> int \<Rightarrow> bool \<Rightarrow> kernel
    \<Rightarrow> (int \<times> kernel) res" where
  "ep_insert L I ep ev tfile fd full_check k =
     (if lb_max_user_watches L \<le> watches k (ep_user (eps k ep)) then Inr (- ENOSPC_code, k)
      else case ie_alloc I of
        None \<Rightarrow> Inr (- ENOMEM_code, k)
      | Some e \<Rightarrow>
          let k = upd_epi e (\<lambda>_. new_epitem ep ev tfile fd) k in
          if ev_events ev AND EPOLLWAKEUP \<noteq> 0
          then (let (error, ws) = lb_create_wakeup_source L k e in
                if error \<noteq> 0 then Inr (error, klogs (K_free_epi e) k)
                else insert_attached L I ep ev tfile full_check e
                       (upd_epi e (\<lambda>epi. epi\<lparr>epi_ws := ws\<rparr>) k))
          else insert_attached L I ep ev tfile full_check e k)"

section \<open>Control\<close>

definition EPOLL_CTL_ADD :: int where "EPOLL_CTL_ADD = 1"
definition EPOLL_CTL_DEL :: int where "EPOLL_CTL_DEL = 2"
definition EPOLL_CTL_MOD :: int where "EPOLL_CTL_MOD = 3"

definition get_file :: "nat \<Rightarrow> kernel \<Rightarrow> kernel" where
  "get_file f k = k\<lparr>file_refs := (file_refs k)(f := file_refs k f + 1)\<rparr>"

definition fdput :: "nat \<Rightarrow> kernel \<Rightarrow> kernel res" where
  "fdput f k =
     check (0 < file_refs k f) Use_after_free (Inr (k\<lparr>file_refs := (file_refs k)(f := file_refs k f - 1)\<rparr>))"

text \<open>The checks before the first lock: the error, if one fails.\<close>

definition ctl_refuses :: "klib \<Rightarrow> int \<Rightarrow> epoll_event \<Rightarrow> nat \<Rightarrow> nat \<Rightarrow> int option" where
  "ctl_refuses L op epds f tf =
     (if \<not> lb_can_poll L tf then Some (- EPERM_code)
      else let epds = (if lb_op_has_event L op then lb_epollwakeup L epds else epds) in
        if f = tf \<or> \<not> lb_is_file_epoll L f then Some (- EINVAL_code)
        else if lb_op_has_event L op \<and> ev_events epds AND EPOLLEXCLUSIVE \<noteq> 0 \<and>
          (op = EPOLL_CTL_MOD \<or> op = EPOLL_CTL_ADD \<and>
             (lb_is_file_epoll L tf \<or> ev_events epds AND NOT (lb_exclusive_ok_bits L) \<noteq> 0))
        then Some (- EINVAL_code) else None)"

text \<open>The locks: \<open>full_check\<close>, the nested eventpoll that is locked too, and the error if the check
  for loops fails.\<close>

definition ctl_lock :: "klib \<Rightarrow> int \<Rightarrow> nat \<Rightarrow> nat \<Rightarrow> nat \<Rightarrow> kernel
    \<Rightarrow> (bool \<times> nat option \<times> int option \<times> kernel) res" where
  "ctl_lock L op f tf ep k =
     rbind (acquire (Mtx ep) k) (\<lambda>k.
     if op = EPOLL_CTL_ADD \<and> (f_ep_links k f \<noteq> [] \<or> lb_is_file_epoll L tf)
     then rbind (release (Mtx ep) k) (\<lambda>k.
          rbind (acquire Epmutex k) (\<lambda>k.
          if lb_is_file_epoll L tf \<and> lb_loop_check L k ep tf \<noteq> 0
          then Inr (True, None, Some (- ELOOP_code), klogs K_clear_tfile_list k)
          else
            rbind (acquire (Mtx ep) (klog_if (\<not> lb_is_file_epoll L tf) (K_list_add_tfile tf) k)) (\<lambda>k.
            if lb_is_file_epoll L tf
            then rbind (acquire (Mtx (lb_private_data L tf)) k) (\<lambda>k.
              Inr (True, Some (lb_private_data L tf), None, k))
            else Inr (True, None, None, k))))
     else Inr (False, None, None, k))"

definition interest :: "epoll_event \<Rightarrow> epoll_event" where
  "interest epds = epds\<lparr>ev_events := ev_events epds OR POLLERR OR POLLHUP\<rparr>"

definition ctl_switch :: "klib \<Rightarrow> insert_env \<Rightarrow> int \<Rightarrow> nat \<Rightarrow> nat \<Rightarrow> int \<Rightarrow> epoll_event \<Rightarrow> bool \<Rightarrow> kernel
    \<Rightarrow> (int \<times> kernel) res" where
  "ctl_switch L I op ep tf fd epds full_check k =
     (let epi = lb_find L k ep tf fd in
      if op = EPOLL_CTL_ADD
      then rbind (case epi of
                    None \<Rightarrow> ep_insert L I ep (interest epds) tf fd full_check k
                  | Some _ \<Rightarrow> Inr (- EEXIST_code, k))
             (\<lambda>(error, k). Inr (error, klog_if full_check K_clear_tfile_list k))
      else if op = EPOLL_CTL_DEL
      then Inr (case epi of Some e \<Rightarrow> lb_remove L ep e k | None \<Rightarrow> (- ENOENT_code, k))
      else if op = EPOLL_CTL_MOD
      then Inr (case epi of
                  Some e \<Rightarrow> if ev_events (event (epis k e)) AND EPOLLEXCLUSIVE = 0
                    then lb_modify L ep e (interest epds) k else (- EINVAL_code, k)
                | None \<Rightarrow> (- ENOENT_code, k))
      else Inr (- EINVAL_code, k))"

definition ctl_locked :: "klib \<Rightarrow> insert_env \<Rightarrow> int \<Rightarrow> nat \<Rightarrow> nat \<Rightarrow> int \<Rightarrow> epoll_event \<Rightarrow> kernel
    \<Rightarrow> (int \<times> kernel) res" where
  "ctl_locked L I op f tf fd epds k =
     (let ep = lb_private_data L f in
      rbind (ctl_lock L op f tf ep k) (\<lambda>(full_check, tep, early, k).
      rbind (case early of
               Some error \<Rightarrow> Inr (error, k)
             | None \<Rightarrow>
                 rbind (ctl_switch L I op ep tf fd epds full_check k) (\<lambda>(error, k).
                 rbind (case tep of None \<Rightarrow> Inr k | Some t \<Rightarrow> release (Mtx t) k) (\<lambda>k.
                 rbind (release (Mtx ep) k) (\<lambda>k. Inr (error, k))))) (\<lambda>(error, k).
      rbind (if full_check then release Epmutex k else Inr k) (\<lambda>k. Inr (error, k)))))"

text \<open>\<open>fds\<close> is the descriptor table, \<open>uevent\<close> what can be copied from the user (\<open>None\<close> when the copy
  fails), \<open>stack\<close> the contents of \<open>epds\<close> before.\<close>

definition epoll_ctl :: "klib \<Rightarrow> insert_env \<Rightarrow> (int \<Rightarrow> nat option) \<Rightarrow> epoll_event \<Rightarrow> int \<Rightarrow> int \<Rightarrow> int
    \<Rightarrow> epoll_event option \<Rightarrow> kernel \<Rightarrow> (int \<times> kernel) res" where
  "epoll_ctl L I fds stack epfd op fd uevent k =
     (if lb_op_has_event L op \<and> uevent = None then Inr (- EFAULT_code, k)
      else let epds = (if lb_op_has_event L op then the uevent else stack) in
      case fds epfd of
        None \<Rightarrow> Inr (- EBADF_code, k)
      | Some f \<Rightarrow>
          let k = get_file f k in
          rbind (case fds fd of
                   None \<Rightarrow> Inr (- EBADF_code, k)
                 | Some tf \<Rightarrow>
                     let k = get_file tf k in
                     rbind (case ctl_refuses L op epds f tf of
                              Some error \<Rightarrow> Inr (error, k)
                            | None \<Rightarrow> ctl_locked L I op f tf fd
                                (if lb_op_has_event L op then lb_epollwakeup L epds else epds) k)
                       (\<lambda>(error, k). rbind (fdput tf k) (\<lambda>k. Inr (error, k))))
            (\<lambda>(error, k). rbind (fdput f k) (\<lambda>k. Inr (error, k))))"

section \<open>Waiting\<close>

text \<open>What other tasks and processors do while a task sleeps or polls busily: a wake-up, or a whole
  scan.\<close>

datatype kact = A_hit nat "64 word" | A_scan nat scan_env int

fun run_act :: "nat \<Rightarrow> klib \<Rightarrow> kact \<Rightarrow> kernel \<Rightarrow> kernel res" where
  "run_act n L (A_hit p key) k = hit L (p, key) k"
| "run_act n L (A_scan ep Q m) k = rbind (ep_send_events n L Q ep m k) (\<lambda>(r, us, k). Inr k)"

record wait_env =
  we_acts :: "nat \<Rightarrow> kact list"
  we_timed_out :: "nat \<Rightarrow> bool"
  we_signal :: "nat \<Rightarrow> bool"
  we_scan :: "nat \<Rightarrow> scan_env"

primrec ep_sleep :: "nat \<Rightarrow> nat \<Rightarrow> klib \<Rightarrow> wait_env \<Rightarrow> nat \<Rightarrow> nat \<Rightarrow> nat \<Rightarrow> bool \<Rightarrow> kernel
    \<Rightarrow> (int \<times> bool \<times> nat \<times> kernel) res" where
  "ep_sleep 0 n L W i ep task timed_out k = Inl Out_of_fuel"
| "ep_sleep (Suc fuel) n L W i ep task timed_out k =
     (let k = k\<lparr>task_running := (task_running k)(task := False)\<rparr> in
      if lb_events_available L (eps k ep) \<or> timed_out then Inr (0, timed_out, i, k)
      else if we_signal W i then Inr (- EINTR_code, timed_out, i, k)
      else
        rbind (release (Spin ep) k) (\<lambda>k.
        rbind (runs (run_act n L) (we_acts W i) k) (\<lambda>k.
        rbind (acquire (Spin ep) k) (\<lambda>k.
        ep_sleep fuel n L W (i + 1) ep task (timed_out \<or> we_timed_out W i) k))))"

definition ep_check_events :: "nat \<Rightarrow> klib \<Rightarrow> wait_env \<Rightarrow> nat \<Rightarrow> int \<Rightarrow> (nat \<Rightarrow> kernel \<Rightarrow> (int \<times> uevents \<times> kernel) res)
    \<Rightarrow> int \<Rightarrow> bool \<Rightarrow> nat \<Rightarrow> kernel \<Rightarrow> (int \<times> uevents \<times> kernel) res" where
  "ep_check_events n L W ep maxevents again res timed_out i k =
     (let eavail = lb_events_available L (eps k ep) in
      rbind (release (Spin ep) k) (\<lambda>k.
      if res = 0 \<and> eavail
      then rbind (ep_send_events n L (we_scan W i) ep maxevents k) (\<lambda>(res, us, k).
        if res = 0 \<and> \<not> timed_out then again (i + 1) k else Inr (res, us, k))
      else Inr (res, [], k)))"

definition ep_wait_events :: "nat \<Rightarrow> nat \<Rightarrow> klib \<Rightarrow> wait_env \<Rightarrow> nat \<Rightarrow> nat \<Rightarrow> nat \<Rightarrow> kernel
    \<Rightarrow> (int \<times> bool \<times> nat \<times> kernel) res" where
  "ep_wait_events fuel n L W ep task i k =
     (if \<not> lb_events_available L (eps k ep)
      then rbind (ep_sleep fuel n L W i ep task False (upd_ep ep (\<lambda>p. p\<lparr>ep_wq := ep_wq p @ [task]\<rparr>) k))
        (\<lambda>(res, timed_out, i, k).
          let k = upd_ep ep (\<lambda>p. p\<lparr>ep_wq := remove1 task (ep_wq p)\<rparr>) k
          in Inr (res, timed_out, i, k\<lparr>task_running := (task_running k)(task := True)\<rparr>))
      else Inr (0, False, i, k))"

primrec ep_fetch_events :: "nat \<Rightarrow> nat \<Rightarrow> klib \<Rightarrow> wait_env \<Rightarrow> nat \<Rightarrow> nat \<Rightarrow> int \<Rightarrow> nat \<Rightarrow> kernel
    \<Rightarrow> (int \<times> uevents \<times> kernel) res" where
  "ep_fetch_events 0 n L W ep task maxevents i k = Inl Out_of_fuel"
| "ep_fetch_events (Suc fuel) n L W ep task maxevents i k =
     rbind (if \<not> lb_events_available L (eps k ep) then runs (run_act n L) (we_acts W i) k else Inr k) (\<lambda>k.
     rbind (acquire (Spin ep) k) (\<lambda>k.
     rbind (ep_wait_events fuel n L W ep task (i + 1) k) (\<lambda>(res, timed_out, i, k).
       ep_check_events n L W ep maxevents (\<lambda>i k. ep_fetch_events fuel n L W ep task maxevents i k)
         res timed_out i k)))"

definition ep_poll :: "nat \<Rightarrow> nat \<Rightarrow> klib \<Rightarrow> wait_env \<Rightarrow> nat \<Rightarrow> nat \<Rightarrow> int \<Rightarrow> int \<Rightarrow> kernel
    \<Rightarrow> (int \<times> uevents \<times> kernel) res" where
  "ep_poll fuel n L W ep task maxevents timeout k =
     (if timeout = 0
      then rbind (acquire (Spin ep) k) (\<lambda>k.
        ep_check_events n L W ep maxevents (\<lambda>i k. ep_fetch_events fuel n L W ep task maxevents i k)
          0 True 0 k)
      else ep_fetch_events fuel n L W ep task maxevents 0 k)"

definition epoll_wait :: "nat \<Rightarrow> nat \<Rightarrow> klib \<Rightarrow> wait_env \<Rightarrow> (int \<Rightarrow> nat option) \<Rightarrow> bool \<Rightarrow> nat \<Rightarrow> int \<Rightarrow> int \<Rightarrow> int
    \<Rightarrow> kernel \<Rightarrow> (int \<times> uevents \<times> kernel) res" where
  "epoll_wait fuel n L W fds access_ok task epfd maxevents timeout k =
     (if maxevents \<le> 0 \<or> lb_max_events L < maxevents then Inr (- EINVAL_code, [], k)
      else if \<not> access_ok then Inr (- EFAULT_code, [], k)
      else case fds epfd of
        None \<Rightarrow> Inr (- EBADF_code, [], k)
      | Some f \<Rightarrow>
          let k = get_file f k in
          rbind (if \<not> lb_is_file_epoll L f then Inr (- EINVAL_code, [], k)
                 else ep_poll fuel n L W (lb_private_data L f) task maxevents timeout k)
            (\<lambda>(error, us, k). rbind (fdput f k) (\<lambda>k. Inr (error, us, k))))"

end
