(* ===== verification/Epoll_Scan.thy ===== *)
theory Epoll_Scan
  imports Epoll_Calls
begin

text \<open>
  The ready list of \<open>eventpoll.c\<close> under concurrent wake-ups.

  \<open>scanning ep tx xs k\<close> is the state of the lists while a scan of \<open>ep\<close> runs: the items still to
  be looked at, the items put back, and the items that were woken meanwhile, as the chain of
  pointers from \<open>ovflist\<close>. The lemmas show what a wake-up, a round of the transfer and the end
  of the scan do to it; \<open>send_spec\<close> is the transfer without interference, which the scan refines.
\<close>

section \<open>What the file relies on\<close>

definition lib_ok :: "klib \<Rightarrow> bool" where
  "lib_ok L \<longleftrightarrow>
     (\<forall>b. lb_is_linked L b = b) \<and>
     (\<forall>p. lb_events_available L p \<longleftrightarrow> rdllist p \<noteq> [] \<or> ovflist p \<noteq> EP_UNACTIVE_PTR)"

lemma lib_okD:
  assumes "lib_ok L"
  shows "lb_is_linked L b = b" "lb_events_available L p \<longleftrightarrow> rdllist p \<noteq> [] \<or> ovflist p \<noteq> EP_UNACTIVE_PTR"
  using assms by (simp_all add: lib_ok_def)

definition no_spin :: "kernel \<Rightarrow> bool" where
  "no_spin k \<longleftrightarrow> (\<forall>ep. Spin ep \<notin> set (held k))"

section \<open>Access lemmas\<close>

lemma kernel_ops [simp]:
  "epis (upd_epi e f k) = (epis k)(e := f (epis k e))" "eps (upd_epi e f k) = eps k"
  "epis (upd_ep ep g k) = epis k" "eps (upd_ep ep g k) = (eps k)(ep := g (eps k ep))"
  "pwqs (upd_epi e f k) = pwqs k" "pwqs (upd_ep ep g k) = pwqs k"
  "held (upd_epi e f k) = held k" "held (upd_ep ep g k) = held k"
  "task_running (upd_epi e f k) = task_running k" "task_running (upd_ep ep g k) = task_running k"
  "watches (upd_epi e f k) = watches k" "watches (upd_ep ep g k) = watches k"
  "f_ep_links (upd_epi e f k) = f_ep_links k" "f_ep_links (upd_ep ep g k) = f_ep_links k"
  "file_refs (upd_epi e f k) = file_refs k" "file_refs (upd_ep ep g k) = file_refs k"
  "waitq (upd_epi e f k) = waitq k" "waitq (upd_ep ep g k) = waitq k"
  by (simp_all add: upd_epi_def upd_ep_def)

lemma klogs_ops [simp]:
  "epis (klogs ev k) = epis k" "eps (klogs ev k) = eps k" "pwqs (klogs ev k) = pwqs k"
  "held (klogs ev k) = held k" "task_running (klogs ev k) = task_running k" "watches (klogs ev k) = watches k"
  "f_ep_links (klogs ev k) = f_ep_links k" "file_refs (klogs ev k) = file_refs k" "waitq (klogs ev k) = waitq k"
  by (simp_all add: klogs_def)

lemma klog_if_ops [simp]:
  "epis (klog_if b ev k) = epis k" "eps (klog_if b ev k) = eps k" "pwqs (klog_if b ev k) = pwqs k"
  "held (klog_if b ev k) = held k" "task_running (klog_if b ev k) = task_running k"
  "watches (klog_if b ev k) = watches k" "f_ep_links (klog_if b ev k) = f_ep_links k"
  "file_refs (klog_if b ev k) = file_refs k" "waitq (klog_if b ev k) = waitq k"
  by (simp_all add: klog_if_def)

lemma wake_up_ops [simp]:
  "epis (wake_up_locked ep k) = epis k" "eps (wake_up_locked ep k) = eps k" "pwqs (wake_up_locked ep k) = pwqs k"
  "held (wake_up_locked ep k) = held k" "watches (wake_up_locked ep k) = watches k"
  "f_ep_links (wake_up_locked ep k) = f_ep_links k" "file_refs (wake_up_locked ep k) = file_refs k"
  "waitq (wake_up_locked ep k) = waitq k"
  by (simp_all add: wake_up_locked_def split: list.split)

lemma pollfree_ops [simp]:
  "epis (pollfree p k) = epis k" "eps (pollfree p k) = eps k" "pwq_base (pwqs (pollfree p k) q) = pwq_base (pwqs k q)"
  "held (pollfree p k) = held k" "task_running (pollfree p k) = task_running k" "watches (pollfree p k) = watches k"
  "f_ep_links (pollfree p k) = f_ep_links k" "file_refs (pollfree p k) = file_refs k"
  by (simp_all add: pollfree_def Let_def split: option.split)

lemma held_commute [simp]:
  "upd_epi e f (k\<lparr>held := h\<rparr>) = (upd_epi e f k)\<lparr>held := h\<rparr>"
  "upd_ep ep g (k\<lparr>held := h\<rparr>) = (upd_ep ep g k)\<lparr>held := h\<rparr>"
  "klogs ev (k\<lparr>held := h\<rparr>) = (klogs ev k)\<lparr>held := h\<rparr>"
  "klog_if b ev (k\<lparr>held := h\<rparr>) = (klog_if b ev k)\<lparr>held := h\<rparr>"
  "wake_up_locked ep (k\<lparr>held := h\<rparr>) = (wake_up_locked ep k)\<lparr>held := h\<rparr>"
  by (simp_all add: upd_epi_def upd_ep_def klogs_def klog_if_def wake_up_locked_def split: list.split)

lemma acquire_eq: "l \<notin> set (held k) \<Longrightarrow> acquire l k = Inr (k\<lparr>held := l # held k\<rparr>)"
  by (simp add: acquire_def)

lemma release_eq: "release l (k\<lparr>held := l # h\<rparr>) = Inr (k\<lparr>held := h\<rparr>)"
  by (simp add: release_def)

section \<open>The callback without its lock\<close>

definition add_ready :: "nat \<Rightarrow> nat \<Rightarrow> kernel \<Rightarrow> kernel" where
  "add_ready ep e k =
     (if rdllink (epis k e) then k
      else klogs (K_stay_awake e) (upd_epi e (\<lambda>epi. epi\<lparr>rdllink := True\<rparr>)
         (upd_ep ep (\<lambda>p. p\<lparr>rdllist := rdllist p @ [e]\<rparr>) k)))"

definition wake_ready :: "nat \<Rightarrow> kernel \<Rightarrow> kernel" where
  "wake_ready ep k = (if ep_wq (eps k ep) \<noteq> [] then wake_up_locked ep k else k)"

lemma add_ready_eq:
  "(if \<not> rdllink (epis k e) then rbind (list_add_tail_rdl ep e k) (\<lambda>k. Inr (klogs (K_stay_awake e) k)) else Inr k)
   = Inr (add_ready ep e k)"
  by (simp add: add_ready_def list_add_tail_rdl_def)

definition cb_effect :: "klib \<Rightarrow> nat \<Rightarrow> nat \<Rightarrow> 64 word \<Rightarrow> kernel \<Rightarrow> kernel" where
  "cb_effect L ep e key k =
     (if cb_ignores L (ev_events (event (epis k e))) key then k
      else if ovflist (eps k ep) \<noteq> EP_UNACTIVE_PTR then cb_overflow ep e k
      else wake_ready ep (add_ready ep e k))"

definition hit_effect :: "klib \<Rightarrow> nat \<times> 64 word \<Rightarrow> kernel \<Rightarrow> kernel" where
  "hit_effect L h k =
     (let e = pwq_base (pwqs k (fst h)); ep = epi_ep (epis k e);
          k = (if snd h AND POLLFREE \<noteq> 0 then pollfree (fst h) k else k)
      in klog_if (\<not> cb_ignores L (ev_events (event (epis k e))) (snd h) \<and>
                  ovflist (eps k ep) = EP_UNACTIVE_PTR \<and> ep_poll_wait (eps k ep) \<noteq> [])
           (K_safewake ep) (cb_effect L ep e (snd h) k))"

lemma cb_locked_eq:
  assumes "lib_ok L"
  shows "\<exists>ewake. cb_locked L ep e key (k\<lparr>held := h\<rparr>) =
    Inr (ewake, \<not> cb_ignores L (ev_events (event (epis k e))) key \<and>
      ovflist (eps k ep) = EP_UNACTIVE_PTR \<and> ep_poll_wait (eps k ep) \<noteq> [], (cb_effect L ep e key k)\<lparr>held := h\<rparr>)"
  using lib_okD(1) [OF assms]
  by (auto simp: cb_locked_def cb_effect_def Let_def cb_overflow_def wake_ready_def add_ready_def
      list_add_tail_rdl_def waitqueue_active_def)

lemma hit_eq:
  assumes "lib_ok L" and "no_spin k"
  shows "hit L h k = Inr (hit_effect L h k)"
proof -
  let ?e = "pwq_base (pwqs k (fst h))"
  let ?ep = "epi_ep (epis k ?e)"
  let ?k = "if snd h AND POLLFREE \<noteq> 0 then pollfree (fst h) k else k"
  let ?wake = "\<not> cb_ignores L (ev_events (event (epis ?k ?e))) (snd h) \<and>
      ovflist (eps ?k ?ep) = EP_UNACTIVE_PTR \<and> ep_poll_wait (eps ?k ?ep) \<noteq> []"
  have a: "acquire (Spin ?ep) ?k = Inr (?k\<lparr>held := Spin ?ep # held ?k\<rparr>)"
    using assms(2) by (intro acquire_eq) (simp add: no_spin_def)
  obtain ew where "cb_locked L ?ep ?e (snd h) (?k\<lparr>held := Spin ?ep # held ?k\<rparr>) =
      Inr (ew, ?wake, (cb_effect L ?ep ?e (snd h) ?k)\<lparr>held := Spin ?ep # held ?k\<rparr>)"
    using cb_locked_eq [OF assms(1)] by blast
  moreover have "held (cb_effect L ?ep ?e (snd h) ?k) = held ?k"
    by (simp add: cb_effect_def cb_overflow_def wake_ready_def add_ready_def)
  ultimately show ?thesis
    using a by (simp add: hit_def ep_poll_callback_def hit_effect_def Let_def release_eq)
qed

section \<open>The lists during a scan\<close>

fun chain :: "(nat \<Rightarrow> epitem) \<Rightarrow> eptr \<Rightarrow> nat list \<Rightarrow> bool" where
  "chain h p [] \<longleftrightarrow> p = NULL"
| "chain h p (x # xs) \<longleftrightarrow> p = Epi x \<and> chain h (epi_next (h x)) xs"

lemma chain_cong: "(\<And>x. x \<in> set xs \<Longrightarrow> epi_next (h' x) = epi_next (h x)) \<Longrightarrow> chain h' p xs = chain h p xs"
  by (induction xs arbitrary: p) auto

lemma chain_active: "chain h p xs \<Longrightarrow> p \<noteq> EP_UNACTIVE_PTR"
  by (cases xs) auto

text \<open>\<open>linked_ok ep tx k\<close>: the link flag of the items of \<open>ep\<close> says whether they are on \<open>tx\<close> or the
  ready list, and they are there once.\<close>

definition linked_ok :: "nat \<Rightarrow> nat list \<Rightarrow> kernel \<Rightarrow> bool" where
  "linked_ok ep tx k \<longleftrightarrow>
     distinct (tx @ rdllist (eps k ep)) \<and>
     (\<forall>e\<in>set tx \<union> set (rdllist (eps k ep)). epi_ep (epis k e) = ep) \<and>
     (\<forall>e. epi_ep (epis k e) = ep \<longrightarrow> rdllink (epis k e) = (e \<in> set tx \<union> set (rdllist (eps k ep))))"

definition chained_ok :: "nat \<Rightarrow> nat list \<Rightarrow> kernel \<Rightarrow> bool" where
  "chained_ok ep xs k \<longleftrightarrow>
     chain (epis k) (ovflist (eps k ep)) xs \<and> distinct xs \<and> (\<forall>e\<in>set xs. epi_ep (epis k e) = ep) \<and>
     (\<forall>e. epi_ep (epis k e) = ep \<longrightarrow> (epi_next (epis k e) \<noteq> EP_UNACTIVE_PTR) = (e \<in> set xs))"

definition scanning :: "nat \<Rightarrow> nat list \<Rightarrow> nat list \<Rightarrow> kernel \<Rightarrow> bool" where
  "scanning ep tx xs k \<longleftrightarrow> linked_ok ep tx k \<and> chained_ok ep xs k \<and> no_spin k"

text \<open>Outside a scan.\<close>

definition idle :: "nat \<Rightarrow> kernel \<Rightarrow> bool" where
  "idle ep k \<longleftrightarrow> linked_ok ep [] k \<and> ovflist (eps k ep) = EP_UNACTIVE_PTR \<and>
     (\<forall>e. epi_ep (epis k e) = ep \<longrightarrow> epi_next (epis k e) = EP_UNACTIVE_PTR)"

text \<open>What a wake-up leaves as it is.\<close>

definition same_view :: "nat \<Rightarrow> kernel \<Rightarrow> kernel \<Rightarrow> bool" where
  "same_view ep k k' \<longleftrightarrow>
     rdllist (eps k' ep) = rdllist (eps k ep) \<and> ep_wq (eps k' ep) = ep_wq (eps k ep) \<and>
     held k' = held k \<and> file_refs k' = file_refs k \<and>
     (\<forall>e. event (epis k' e) = event (epis k e) \<and> epi_ep (epis k' e) = epi_ep (epis k e)) \<and>
     (\<forall>p. pwq_base (pwqs k' p) = pwq_base (pwqs k p))"

lemma same_view_refl: "same_view ep k k" by (simp add: same_view_def)

lemma same_view_trans: "same_view ep k k' \<Longrightarrow> same_view ep k' k'' \<Longrightarrow> same_view ep k k''"
  by (simp add: same_view_def)

text \<open>A wake-up is of interest when the callback does not ignore it.\<close>

definition of_interest :: "klib \<Rightarrow> nat \<Rightarrow> kernel \<Rightarrow> nat \<times> 64 word \<Rightarrow> bool" where
  "of_interest L ep k h \<longleftrightarrow>
     epi_ep (epis k (pwq_base (pwqs k (fst h)))) = ep \<and>
     \<not> cb_ignores L (ev_events (event (epis k (pwq_base (pwqs k (fst h)))))) (snd h)"

lemma cb_overflow_scanning:
  assumes sc: "scanning ep tx xs k" and ep: "epi_ep (epis k e) = ep"
  shows "scanning ep tx (if e \<in> set xs then xs else e # xs) (cb_overflow ep e k)"
proof (cases "e \<in> set xs")
  case True
  then have "epi_next (epis k e) \<noteq> EP_UNACTIVE_PTR"
    using sc ep by (auto simp: scanning_def chained_ok_def)
  then show ?thesis using sc True by (simp add: cb_overflow_def)
next
  case False
  then have n: "epi_next (epis k e) = EP_UNACTIVE_PTR"
    using sc ep by (auto simp: scanning_def chained_ok_def)
  let ?h = "(epis k)(e := (epis k e)\<lparr>epi_next := ovflist (eps k ep)\<rparr>)"
  have "chain ?h (ovflist (eps k ep)) xs = chain (epis k) (ovflist (eps k ep)) xs"
    by (rule chain_cong) (use False in auto)
  then have "chain ?h (Epi e) (e # xs)" using sc by (simp add: scanning_def chained_ok_def)
  moreover have "ovflist (eps k ep) \<noteq> EP_UNACTIVE_PTR"
    using sc chain_active by (auto simp: scanning_def chained_ok_def)
  ultimately show ?thesis
    using sc ep False n
    by (auto simp: scanning_def chained_ok_def linked_ok_def cb_overflow_def no_spin_def)
qed

lemma pollfree_scanning [simp]: "scanning ep tx xs (pollfree p k) = scanning ep tx xs k"
  by (simp add: scanning_def chained_ok_def linked_ok_def no_spin_def)

lemma klog_if_scanning [simp]: "scanning ep tx xs (klog_if b ev k) = scanning ep tx xs k"
  by (simp add: scanning_def chained_ok_def linked_ok_def no_spin_def)

lemma cb_effect_other:
  assumes sc: "scanning ep tx xs k" and ep: "epi_ep (epis k e) \<noteq> ep"
  shows "scanning ep tx xs (cb_effect L (epi_ep (epis k e)) e key k)"
proof -
  let ?k = "cb_effect L (epi_ep (epis k e)) e key k"
  have k: "eps ?k ep = eps k ep" "held ?k = held k" "\<And>d. epi_ep (epis ?k d) = epi_ep (epis k d)"
    "\<And>d. d \<noteq> e \<Longrightarrow> epis ?k d = epis k d"
    using ep by (auto simp: cb_effect_def cb_overflow_def wake_ready_def add_ready_def)
  have "e \<notin> set xs" using sc ep by (auto simp: scanning_def chained_ok_def)
  then have "chain (epis ?k) (ovflist (eps k ep)) xs = chain (epis k) (ovflist (eps k ep)) xs"
    using k(4) by (intro chain_cong) metis
  moreover have "epis ?k d = epis k d" if "epi_ep (epis k d) = ep" for d using k(4) ep that by metis
  ultimately show ?thesis
    using sc k(1-3) by (auto simp: scanning_def chained_ok_def linked_ok_def no_spin_def)
qed

text \<open>A wake-up during a scan only extends the chain, by its item if that is not yet on it.\<close>

lemma hit_scanning:
  fixes h :: "nat \<times> 64 word"
  assumes L: "lib_ok L" and sc: "scanning ep tx xs k"
  defines "e \<equiv> pwq_base (pwqs k (fst h))"
  shows "hit L h k = Inr (hit_effect L h k)"
    "scanning ep tx (if of_interest L ep k h \<and> e \<notin> set xs then e # xs else xs) (hit_effect L h k)"
    "same_view ep k (hit_effect L h k)"
proof -
  show "hit L h k = Inr (hit_effect L h k)"
    using hit_eq [OF L] sc by (simp add: scanning_def)
  have act: "ovflist (eps k ep) \<noteq> EP_UNACTIVE_PTR"
    using sc chain_active by (auto simp: scanning_def chained_ok_def)
  show "same_view ep k (hit_effect L h k)"
    using act
    by (auto simp: hit_effect_def Let_def cb_effect_def cb_overflow_def wake_ready_def add_ready_def same_view_def)
  let ?k = "if snd h AND POLLFREE \<noteq> 0 then pollfree (fst h) k else k"
  have sk: "scanning ep tx xs ?k" using sc by simp
  have ek: "epis ?k = epis k" "eps ?k = eps k" by simp_all
  have "scanning ep tx (if of_interest L ep k h \<and> e \<notin> set xs then e # xs else xs)
      (cb_effect L (epi_ep (epis k e)) e (snd h) ?k)"
  proof (cases "epi_ep (epis k e) = ep")
    case True
    have "scanning ep tx (if e \<in> set xs then xs else e # xs) (cb_overflow ep e ?k)"
      by (rule cb_overflow_scanning [OF sk]) (use True ek in simp)
    then show ?thesis
      using True act sk ek by (auto simp: cb_effect_def of_interest_def e_def)
  next
    case False
    have "scanning ep tx xs (cb_effect L (epi_ep (epis ?k e)) e (snd h) ?k)"
      by (rule cb_effect_other [OF sk]) (use False ek in simp)
    then show ?thesis using False ek by (simp add: of_interest_def e_def)
  qed
  then show "scanning ep tx (if of_interest L ep k h \<and> e \<notin> set xs then e # xs else xs) (hit_effect L h k)"
    by (simp add: hit_effect_def Let_def e_def)
qed

lemma of_interest_view: "same_view ep k k' \<Longrightarrow> of_interest L ep k' h = of_interest L ep k h"
  by (simp add: same_view_def of_interest_def)

lemma hits_scanning:
  assumes L: "lib_ok L" and sc: "scanning ep tx xs k"
  shows "\<exists>k' xs'. runs (hit L) hs k = Inr k' \<and> scanning ep tx xs' k' \<and> same_view ep k k'
    \<and> set xs' = set xs \<union> {pwq_base (pwqs k (fst h)) |h. h \<in> set hs \<and> of_interest L ep k h}"
  using sc
proof (induction hs arbitrary: k xs)
  case Nil
  then show ?case using same_view_refl by auto
next
  case (Cons h hs)
  note h = hit_scanning [OF L Cons.prems, of h]
  obtain k' xs' where k': "runs (hit L) hs (hit_effect L h k) = Inr k'" "scanning ep tx xs' k'"
    "same_view ep (hit_effect L h k) k'"
    "set xs' = set (if of_interest L ep k h \<and> pwq_base (pwqs k (fst h)) \<notin> set xs
        then pwq_base (pwqs k (fst h)) # xs else xs) \<union>
      {pwq_base (pwqs (hit_effect L h k) (fst g)) |g. g \<in> set hs \<and> of_interest L ep (hit_effect L h k) g}"
    using Cons.IH [OF h(2)] by blast
  have "of_interest L ep (hit_effect L h k) g = of_interest L ep k g" for g by (rule of_interest_view [OF h(3)])
  moreover have "pwq_base (pwqs (hit_effect L h k) p) = pwq_base (pwqs k p)" for p
    using h(3) by (simp add: same_view_def)
  ultimately have "set xs' = set xs \<union> {pwq_base (pwqs k (fst g)) |g. g \<in> set (h # hs) \<and> of_interest L ep k g}"
    using k'(4) by (cases h) auto
  then show ?case
    using k'(1-3) h(1) same_view_trans [OF h(3)] by (intro exI [of _ k'] exI [of _ xs']) simp
qed

section \<open>The transfer\<close>

text \<open>The transfer as it would be without interference: the result, the events delivered, the ready
  list it builds, the items it has not looked at and the number of rounds.\<close>

fun send_spec :: "(nat \<Rightarrow> epoll_event) \<Rightarrow> scan_env \<Rightarrow> int \<Rightarrow> nat \<Rightarrow> uevents \<Rightarrow> nat list \<Rightarrow> nat list
    \<Rightarrow> int \<times> uevents \<times> nat list \<times> nat list \<times> nat" where
  "send_spec ev Q m i us back [] = (int (length us), us, back, [], i)"
| "send_spec ev Q m i us back (e # tx) =
     (if m \<le> int (length us) then (int (length us), us, back, e # tx, i)
      else if sq_revents Q i e = 0 then send_spec ev Q m (i + 1) us back tx
      else if \<not> sq_put_user Q i
      then (if us \<noteq> [] then int (length us) else - EFAULT_code, us, back, e # tx, i + 1)
      else send_spec ev Q m (i + 1) (us @ [(sq_revents Q i e, ev_data (ev e))])
        (back @ (if ev_events (ev e) AND EPOLLONESHOT = 0 \<and> ev_events (ev e) AND EPOLLET = 0 then [e] else [])) tx)"

text \<open>What a round leaves as it is: only a one-shot mask may change.\<close>

definition mask_view :: "nat \<Rightarrow> kernel \<Rightarrow> kernel \<Rightarrow> bool" where
  "mask_view ep k k' \<longleftrightarrow>
     ep_wq (eps k' ep) = ep_wq (eps k ep) \<and> held k' = held k \<and> file_refs k' = file_refs k \<and>
     (\<forall>e. epi_ep (epis k' e) = epi_ep (epis k e) \<and> ev_data (event (epis k' e)) = ev_data (event (epis k e)) \<and>
        (ev_events (event (epis k' e)) = ev_events (event (epis k e)) \<or>
         ev_events (event (epis k e)) AND EPOLLONESHOT \<noteq> 0)) \<and>
     (\<forall>p. pwq_base (pwqs k' p) = pwq_base (pwqs k p))"

lemma mask_view_refl: "mask_view ep k k" by (simp add: mask_view_def)

lemma mask_view_trans: "mask_view ep k k' \<Longrightarrow> mask_view ep k' k'' \<Longrightarrow> mask_view ep k k''"
  unfolding mask_view_def by metis

lemma same_mask_view: "same_view ep k k' \<Longrightarrow> mask_view ep k k'"
  by (simp add: same_view_def mask_view_def)

definition wanted :: "klib \<Rightarrow> nat \<Rightarrow> kernel \<Rightarrow> nat \<times> 64 word \<Rightarrow> bool" where
  "wanted L ep k h \<longleftrightarrow> of_interest L ep k h \<and>
     ev_events (event (epis k (pwq_base (pwqs k (fst h))))) AND EPOLLONESHOT = 0"

lemma wanted_view: "mask_view ep k k' \<Longrightarrow> wanted L ep k h \<Longrightarrow> wanted L ep k' h"
  unfolding wanted_def of_interest_def mask_view_def by metis

lemma shift_ws_ops [simp]:
  "epis (shift_wakeup_source Q i ep e k) = epis k" "eps (shift_wakeup_source Q i ep e k) = eps k"
  "pwqs (shift_wakeup_source Q i ep e k) = pwqs k" "held (shift_wakeup_source Q i ep e k) = held k"
  "file_refs (shift_wakeup_source Q i ep e k) = file_refs k"
  by (simp_all add: shift_wakeup_source_def split: option.split)

lemma next_scanning:
  assumes "\<And>d. epi_next (h' d) = epi_next (epis k d)" "\<And>d. epi_ep (h' d) = epi_ep (epis k d)"
    and "chained_ok ep xs k" and "epis k' = h'" and "ovflist (eps k' ep) = ovflist (eps k ep)"
  shows "chained_ok ep xs k'"
proof -
  have "chain h' (ovflist (eps k ep)) xs = chain (epis k) (ovflist (eps k ep)) xs"
    by (rule chain_cong) (use assms(1) in auto)
  then show ?thesis using assms by (auto simp: chained_ok_def)
qed

lemma unlink_scanning:
  assumes "scanning ep (e # tx) xs k"
  shows "\<exists>k'. unlink_rdl e (shift_wakeup_source Q i ep e k) = Inr k' \<and> scanning ep tx xs k' \<and> same_view ep k k'
    \<and> e \<notin> set tx \<union> set (rdllist (eps k' ep)) \<and> epi_ep (epis k' e) = ep"
proof -
  let ?k' = "upd_epi e (\<lambda>epi. epi\<lparr>rdllink := False\<rparr>) (shift_wakeup_source Q i ep e k)"
  have l: "linked_ok ep (e # tx) k" and ns: "no_spin k" and c: "chained_ok ep xs k"
    using assms by (simp_all add: scanning_def)
  have "chained_ok ep xs ?k'"
    by (rule next_scanning [OF _ _ c, of "epis ?k'"]) auto
  moreover have "linked_ok ep tx ?k'" using l by (auto simp: linked_ok_def)
  ultimately have "scanning ep tx xs ?k'" using ns by (simp add: scanning_def no_spin_def)
  moreover have "same_view ep k ?k'" by (simp add: same_view_def)
  moreover have "unlink_rdl e (shift_wakeup_source Q i ep e k) = Inr ?k'"
    using l by (simp add: unlink_rdl_def linked_ok_def)
  ultimately show ?thesis using l by (intro exI [of _ ?k']) (auto simp: linked_ok_def)
qed

lemma relink_scanning:
  assumes "scanning ep tx xs k" and "e \<notin> set tx \<union> set (rdllist (eps k ep))" and "epi_ep (epis k e) = ep"
  shows "\<exists>k'. relink_rdl e k = Inr k' \<and> scanning ep (e # tx) xs (klogs ev k') \<and> same_view ep k (klogs ev k')"
proof -
  let ?k' = "upd_epi e (\<lambda>epi. epi\<lparr>rdllink := True\<rparr>) k"
  have l: "linked_ok ep tx k" and ns: "no_spin k" and c: "chained_ok ep xs k"
    using assms(1) by (simp_all add: scanning_def)
  have "chained_ok ep xs (klogs ev ?k')"
    by (rule next_scanning [OF _ _ c, of "epis ?k'"]) auto
  moreover have "linked_ok ep (e # tx) (klogs ev ?k')" using l assms(2,3) by (auto simp: linked_ok_def)
  ultimately have "scanning ep (e # tx) xs (klogs ev ?k')" using ns by (simp add: scanning_def no_spin_def)
  moreover have "same_view ep k (klogs ev ?k')" by (simp add: same_view_def)
  moreover have "relink_rdl e k = Inr ?k'" using l assms(2,3) by (simp add: relink_rdl_def linked_ok_def)
  ultimately show ?thesis by blast
qed

lemma rearm_scanning:
  assumes "scanning ep tx xs k" and "e \<notin> set tx \<union> set (rdllist (eps k ep))" and "epi_ep (epis k e) = ep"
  defines "ev \<equiv> ev_events (event (epis k e))"
  shows "\<exists>k'. rearm L ep e k = Inr k' \<and> scanning ep tx xs k' \<and> mask_view ep k k'
    \<and> (\<forall>d. d \<noteq> e \<longrightarrow> event (epis k' d) = event (epis k d))
    \<and> rdllist (eps k' ep) = rdllist (eps k ep) @ (if ev AND EPOLLONESHOT = 0 \<and> ev AND EPOLLET = 0 then [e] else [])"
proof -
  have l: "linked_ok ep tx k" and ns: "no_spin k" and c: "chained_ok ep xs k"
    using assms(1) by (simp_all add: scanning_def)
  consider "ev AND EPOLLONESHOT \<noteq> 0" | "ev AND EPOLLONESHOT = 0" "ev AND EPOLLET = 0"
    | "ev AND EPOLLONESHOT = 0" "ev AND EPOLLET \<noteq> 0" by blast
  then show ?thesis
  proof cases
    case 1
    let ?k' = "upd_epi e (\<lambda>epi. epi\<lparr>event := (event epi)\<lparr>ev_events := ev_events (event epi) AND lb_private_bits L\<rparr>\<rparr>) k"
    have "chained_ok ep xs ?k'" by (rule next_scanning [OF _ _ c, of "epis ?k'"]) auto
    moreover have "linked_ok ep tx ?k'" using l by (auto simp: linked_ok_def)
    ultimately show ?thesis
      using 1 ns by (intro exI [of _ ?k']) (auto simp: rearm_def ev_def scanning_def no_spin_def mask_view_def)
  next
    case 2
    let ?k' = "klogs (K_stay_awake e) (upd_epi e (\<lambda>epi. epi\<lparr>rdllink := True\<rparr>)
        (upd_ep ep (\<lambda>p. p\<lparr>rdllist := rdllist p @ [e]\<rparr>) k))"
    have "chained_ok ep xs ?k'" by (rule next_scanning [OF _ _ c, of "epis ?k'"]) auto
    moreover have "linked_ok ep tx ?k'" using l assms(2,3) by (auto simp: linked_ok_def)
    ultimately show ?thesis
      using 2 ns l assms(2,3)
      by (intro exI [of _ ?k'])
        (auto simp: rearm_def list_add_tail_rdl_def ev_def scanning_def no_spin_def mask_view_def linked_ok_def)
  next
    case 3
    then show ?thesis using assms(1) by (intro exI [of _ k]) (simp add: rearm_def ev_def mask_view_refl)
  qed
qed

text \<open>The items of the wake-ups that are wanted at the points from \<open>a\<close> up to \<open>b\<close>.\<close>

definition woken :: "klib \<Rightarrow> nat \<Rightarrow> kernel \<Rightarrow> scan_env \<Rightarrow> nat \<Rightarrow> nat \<Rightarrow> nat set" where
  "woken L ep k Q a b =
     {pwq_base (pwqs k (fst h)) |h. wanted L ep k h \<and> (\<exists>j\<in>{a..<b}. h \<in> set (sq_hits Q j))}"

lemma woken_view: "mask_view ep k k' \<Longrightarrow> woken L ep k Q a b \<subseteq> woken L ep k' Q a b"
  using wanted_view [of ep k k' L] by (force simp: woken_def mask_view_def)

lemma woken_split: "a \<le> b \<Longrightarrow> b \<le> c \<Longrightarrow> woken L ep k Q a c = woken L ep k Q a b \<union> woken L ep k Q b c"
proof -
  assume "a \<le> b" and "b \<le> c"
  then have "{a..<c} = {a..<b} \<union> {b..<c}" by (simp add: ivl_disj_un_two(3))
  then show ?thesis unfolding woken_def by blast
qed

text \<open>The items of all wake-ups.\<close>

definition all_hit :: "kernel \<Rightarrow> scan_env \<Rightarrow> nat set" where
  "all_hit k Q = {pwq_base (pwqs k (fst h)) |h. \<exists>j. h \<in> set (sq_hits Q j)}"

lemma all_hit_view: "mask_view ep k k' \<Longrightarrow> all_hit k' Q = all_hit k Q"
  by (simp add: all_hit_def mask_view_def)

lemma hits_wanted:
  assumes L: "lib_ok L" and sc: "scanning ep tx xs k"
  shows "\<exists>k' xs'. runs (hit L) (sq_hits Q j) k = Inr k' \<and> scanning ep tx xs' k' \<and> same_view ep k k'
    \<and> set xs \<union> woken L ep k Q j (Suc j) \<subseteq> set xs' \<and> set xs' \<subseteq> set xs \<union> all_hit k Q"
proof -
  obtain k' xs' where k': "runs (hit L) (sq_hits Q j) k = Inr k'" "scanning ep tx xs' k'" "same_view ep k k'"
      "set xs' = set xs \<union> {pwq_base (pwqs k (fst h)) |h. h \<in> set (sq_hits Q j) \<and> of_interest L ep k h}"
    using hits_scanning [OF assms] by blast
  have "woken L ep k Q j (Suc j) \<subseteq> {pwq_base (pwqs k (fst h)) |h. h \<in> set (sq_hits Q j) \<and> of_interest L ep k h}"
    by (auto simp: woken_def wanted_def)
  moreover have "set xs' \<subseteq> set xs \<union> all_hit k Q" using k'(4) by (auto simp: all_hit_def)
  ultimately show ?thesis using k' by blast
qed

lemma round_start:
  assumes L: "lib_ok L" and sc: "scanning ep (e # tx) xs k"
  shows "\<exists>k1 k2 k3 xs'. runs (hit L) (sq_hits Q (2 * i)) k = Inr k1
    \<and> unlink_rdl e (shift_wakeup_source Q i ep e k1) = Inr k2
    \<and> runs (hit L) (sq_hits Q (2 * i + 1)) k2 = Inr k3
    \<and> scanning ep tx xs' k3 \<and> same_view ep k k3 \<and> e \<notin> set tx \<union> set (rdllist (eps k3 ep)) \<and> epi_ep (epis k3 e) = ep
    \<and> set xs \<union> woken L ep k Q (2 * i) (2 * (i + 1)) \<subseteq> set xs' \<and> set xs' \<subseteq> set xs \<union> all_hit k Q"
proof -
  obtain k1 xs1 where 1: "runs (hit L) (sq_hits Q (2 * i)) k = Inr k1" "scanning ep (e # tx) xs1 k1"
      "same_view ep k k1" "set xs \<union> woken L ep k Q (2 * i) (Suc (2 * i)) \<subseteq> set xs1"
      "set xs1 \<subseteq> set xs \<union> all_hit k Q"
    using hits_wanted [OF L sc] by blast
  obtain k2 where 2: "unlink_rdl e (shift_wakeup_source Q i ep e k1) = Inr k2" "scanning ep tx xs1 k2"
      "same_view ep k1 k2" "e \<notin> set tx \<union> set (rdllist (eps k2 ep))" "epi_ep (epis k2 e) = ep"
    using unlink_scanning [OF 1(2)] by blast
  obtain k3 xs3 where 3: "runs (hit L) (sq_hits Q (2 * i + 1)) k2 = Inr k3" "scanning ep tx xs3 k3"
      "same_view ep k2 k3" "set xs1 \<union> woken L ep k2 Q (2 * i + 1) (Suc (2 * i + 1)) \<subseteq> set xs3"
      "set xs3 \<subseteq> set xs1 \<union> all_hit k2 Q"
    using hits_wanted [OF L 2(2)] by blast
  have v: "same_view ep k k2" using same_view_trans [OF 1(3) 2(3)] .
  have "woken L ep k Q (2 * i) (2 * (i + 1)) = woken L ep k Q (2 * i) (Suc (2 * i)) \<union>
      woken L ep k Q (Suc (2 * i)) (2 * (i + 1))" by (rule woken_split) simp_all
  then have "set xs \<union> woken L ep k Q (2 * i) (2 * (i + 1)) \<subseteq> set xs3"
    using 1(4) 3(4) woken_view [OF same_mask_view [OF v], of L Q "2 * i + 1" "Suc (2 * i + 1)"] by auto
  moreover have "set xs3 \<subseteq> set xs \<union> all_hit k Q"
    using 1(5) 3(5) all_hit_view [OF same_mask_view [OF v]] by blast
  ultimately show ?thesis
    using 1(1) 2(1,4,5) 3(1,2,3) same_view_trans [OF v 3(3)]
    by (intro exI [of _ k1] exI [of _ k2] exI [of _ k3] exI [of _ xs3]) (simp add: same_view_def)
qed

text \<open>The transfer under any interference delivers what \<open>send_spec\<close> says, and no wanted wake-up is
  lost from the chain.\<close>

definition send_ok :: "klib \<Rightarrow> scan_env \<Rightarrow> nat \<Rightarrow> nat list \<Rightarrow> kernel \<Rightarrow> nat \<Rightarrow> int \<times> uevents \<times> nat list \<times> nat list \<times> nat
    \<Rightarrow> (int \<times> uevents \<times> nat list \<times> kernel) res \<Rightarrow> bool" where
  "send_ok L Q ep xs k i = (\<lambda>(r, us, back, rest, j) result.
     \<exists>k' xs'. result = Inr (r, us, rest, k') \<and> scanning ep rest xs' k' \<and> rdllist (eps k' ep) = back
       \<and> mask_view ep k k' \<and> i \<le> j \<and> set xs \<union> woken L ep k Q (2 * i) (2 * j) \<subseteq> set xs'
       \<and> set xs' \<subseteq> set xs \<union> all_hit k Q)"

lemma send_ok_later:
  assumes "set xs \<union> woken L ep k Q (2 * i) (2 * (i + 1)) \<subseteq> set xs3 \<and> set xs3 \<subseteq> set xs \<union> all_hit k Q" and v: "mask_view ep k k4"
    and "send_ok L Q ep xs3 k4 (i + 1) out result"
  shows "send_ok L Q ep xs k i out result"
proof -
  obtain r us bk rest j where out: "out = (r, us, bk, rest, j)" by (cases out)
  then obtain k' xs' where k': "result = Inr (r, us, rest, k')" "scanning ep rest xs' k'" "rdllist (eps k' ep) = bk"
      "mask_view ep k4 k'" "i + 1 \<le> j" "set xs3 \<union> woken L ep k4 Q (2 * (i + 1)) (2 * j) \<subseteq> set xs'"
      "set xs' \<subseteq> set xs3 \<union> all_hit k4 Q"
    using assms(3) unfolding send_ok_def by blast
  have "woken L ep k Q (2 * i) (2 * j) = woken L ep k Q (2 * i) (2 * (i + 1)) \<union> woken L ep k Q (2 * (i + 1)) (2 * j)"
    by (rule woken_split) (use k'(5) in simp_all)
  then have "set xs \<union> woken L ep k Q (2 * i) (2 * j) \<subseteq> set xs'"
    using assms(1) k'(6) woken_view [OF v, of L Q "2 * (i + 1)" "2 * j"] by blast
  moreover have "set xs' \<subseteq> set xs \<union> all_hit k Q" using assms(1) k'(7) all_hit_view [OF v] by blast
  ultimately show ?thesis using k' mask_view_trans [OF v k'(4)] by (auto simp: send_ok_def out)
qed

lemma send_loop_refines:
  assumes L: "lib_ok L"
  shows "scanning ep tx xs k \<Longrightarrow> \<forall>e\<in>set tx. ev e = event (epis k e) \<Longrightarrow>
    send_ok L Q ep xs k i (send_spec ev Q m i us (rdllist (eps k ep)) tx) (send_loop L Q ep m i us tx k)"
proof (induction tx arbitrary: i us k xs)
  case Nil
  then show ?case using mask_view_refl by (auto simp: woken_def send_ok_def)
next
  case (Cons e tx)
  show ?case
  proof (cases "m \<le> int (length us)")
    case True
    then show ?thesis using Cons.prems mask_view_refl by (auto simp: woken_def send_ok_def)
  next
    case False
    obtain k1 k2 k3 xs3 where s: "runs (hit L) (sq_hits Q (2 * i)) k = Inr k1"
        "unlink_rdl e (shift_wakeup_source Q i ep e k1) = Inr k2" "runs (hit L) (sq_hits Q (2 * i + 1)) k2 = Inr k3"
        "scanning ep tx xs3 k3" "same_view ep k k3" "e \<notin> set tx \<union> set (rdllist (eps k3 ep))"
        "epi_ep (epis k3 e) = ep" "set xs \<union> woken L ep k Q (2 * i) (2 * (i + 1)) \<subseteq> set xs3 \<and> set xs3 \<subseteq> set xs \<union> all_hit k Q"
      using round_start [OF L Cons.prems(1)] by blast
    have ev3: "event (epis k3 d) = event (epis k d)" and rd3: "rdllist (eps k3 ep) = rdllist (eps k ep)" for d
      using s(5) by (simp_all add: same_view_def)
    note mv = same_mask_view [OF s(5)]
    consider "sq_revents Q i e = 0" | "sq_revents Q i e \<noteq> 0" "\<not> sq_put_user Q i"
      | "sq_revents Q i e \<noteq> 0" "sq_put_user Q i" by blast
    then show ?thesis
    proof cases
      case 1
      have "\<forall>d\<in>set tx. ev d = event (epis k3 d)" using Cons.prems(2) ev3 by simp
      from send_ok_later [OF s(8) mv Cons.IH [OF s(4) this]] show ?thesis
        using s(1-3) False 1 rd3 by simp
    next
      case 2
      obtain k4 where k4: "relink_rdl e k3 = Inr k4" "scanning ep (e # tx) xs3 (klogs (K_stay_awake e) k4)"
          "same_view ep k3 (klogs (K_stay_awake e) k4)"
        using relink_scanning [OF s(4,6,7)] by blast
      then show ?thesis
        using s(1-3,8) False 2 rd3 mask_view_trans [OF mv same_mask_view [OF k4(3)]]
        by (auto simp: send_ok_def same_view_def)
    next
      case 3
      obtain k4 where k4: "rearm L ep e k3 = Inr k4" "scanning ep tx xs3 k4" "mask_view ep k3 k4"
          "\<forall>d. d \<noteq> e \<longrightarrow> event (epis k4 d) = event (epis k3 d)"
          "rdllist (eps k4 ep) = rdllist (eps k3 ep) @ (if ev_events (event (epis k3 e)) AND EPOLLONESHOT = 0 \<and>
             ev_events (event (epis k3 e)) AND EPOLLET = 0 then [e] else [])"
        using rearm_scanning [OF s(4,6,7)] by blast
      have "\<forall>d\<in>set tx. ev d = event (epis k4 d)" using Cons.prems(2) ev3 k4(4) s(6) by (metis UnI1 list.set_intros(2))
      from send_ok_later [OF s(8) mask_view_trans [OF mv k4(3)] Cons.IH [OF k4(2) this]]
      show ?thesis using s(1-3) False 3 rd3 k4(1,5) Cons.prems(2) ev3 by simp
    qed
  qed
qed

section \<open>The end of a scan\<close>

text \<open>The loop over \<open>ovflist\<close> ends and puts every item of the chain on the ready list.\<close>

definition reinjected :: "nat \<Rightarrow> nat list \<Rightarrow> nat list \<Rightarrow> kernel \<Rightarrow> kernel \<Rightarrow> bool" where
  "reinjected ep tx xs k k' \<longleftrightarrow> linked_ok ep tx k' \<and>
     rdllist (eps k' ep) = rdllist (eps k ep) @ filter (\<lambda>e. e \<notin> set tx \<union> set (rdllist (eps k ep))) xs \<and>
     (\<forall>e. epi_ep (epis k' e) = epi_ep (epis k e) \<and> event (epis k' e) = event (epis k e)) \<and>
     (\<forall>e. epi_next (epis k' e) = (if e \<in> set xs then EP_UNACTIVE_PTR else epi_next (epis k e))) \<and>
     held k' = held k \<and> ep_wq (eps k' ep) = ep_wq (eps k ep) \<and> pwqs k' = pwqs k \<and>
     file_refs k' = file_refs k"

lemma reinject_ok:
  assumes L: "lib_ok L"
  shows "linked_ok ep tx k \<Longrightarrow> chain (epis k) p xs \<Longrightarrow> distinct xs \<Longrightarrow> \<forall>e\<in>set xs. epi_ep (epis k e) = ep \<Longrightarrow>
    length xs < n \<Longrightarrow>
    \<exists>k'. reinject n L ep p k = Inr k' \<and> reinjected ep tx xs k k'"
proof (induction xs arbitrary: n p k)
  case Nil
  then obtain m where "n = Suc m" using gr0_implies_Suc by auto
  then show ?case using Nil by (auto simp: reinjected_def)
next
  case (Cons x xs)
  then obtain m where n: "n = Suc m" by (cases n) auto
  let ?k1 = "add_ready ep x k"
  let ?k2 = "upd_epi x (\<lambda>epi. epi\<lparr>epi_next := EP_UNACTIVE_PTR\<rparr>) ?k1"
  have k1: "epi_next (epis ?k1 d) = epi_next (epis k d)" "epi_ep (epis ?k1 d) = epi_ep (epis k d)"
    "event (epis ?k1 d) = event (epis k d)" for d by (simp_all add: add_ready_def)
  have xl: "rdllink (epis k x) = (x \<in> set tx \<union> set (rdllist (eps k ep)))"
    using Cons.prems(1,4) by (simp add: linked_ok_def)
  have rd: "rdllist (eps ?k2 ep) = rdllist (eps k ep) @ (if x \<in> set tx \<union> set (rdllist (eps k ep)) then [] else [x])"
    using xl by (simp add: add_ready_def)
  have l2: "linked_ok ep tx ?k2"
    using Cons.prems(1,4) xl by (auto simp: linked_ok_def add_ready_def)
  have "chain (epis ?k2) (epi_next (epis k x)) xs = chain (epis k) (epi_next (epis k x)) xs"
    using Cons.prems(3) k1 by (intro chain_cong) auto
  then have c2: "chain (epis ?k2) (epi_next (epis k x)) xs" using Cons.prems(2) by simp
  have "\<forall>e\<in>set xs. epi_ep (epis ?k2 e) = ep" using Cons.prems(4) k1 by auto
  from Cons.IH [OF l2 c2 _ this, of m] Cons.prems(3,5) n
  obtain k' where k': "reinject m L ep (epi_next (epis k x)) ?k2 = Inr k'" "reinjected ep tx xs ?k2 k'" by auto
  have "reinject n L ep p k = Inr k'"
    using Cons.prems(2) k'(1) n lib_okD(1) [OF L] add_ready_eq [of k x ep] k1 by simp
  moreover have "filter (\<lambda>e. e \<notin> set tx \<union> set (rdllist (eps ?k2 ep))) xs =
      filter (\<lambda>e. e \<notin> set tx \<union> set (rdllist (eps k ep))) xs"
    using Cons.prems(3) rd by (intro filter_cong) auto
  then have "reinjected ep tx (x # xs) k k'"
    using k'(2) rd k1 by (auto simp: reinjected_def add_ready_def)
  ultimately show ?case by blast
qed

text \<open>Waking tasks: if somebody waits, somebody runs afterwards.\<close>

lemma wake_up_runs: "ep_wq (eps k ep) \<noteq> [] \<Longrightarrow> \<exists>t\<in>set (ep_wq (eps k ep)). task_running (wake_up_locked ep k) t"
proof (cases "filter (\<lambda>t. \<not> task_running k t) (ep_wq (eps k ep))")
  case Nil
  then show "ep_wq (eps k ep) \<noteq> [] \<Longrightarrow> ?thesis" by (auto simp: filter_empty_conv wake_up_locked_def neq_Nil_conv)
next
  case (Cons t ts)
  then have "t \<in> set (filter (\<lambda>t. \<not> task_running k t) (ep_wq (eps k ep)))" by simp
  then have "t \<in> set (ep_wq (eps k ep))" by simp
  then show ?thesis using Cons by (auto simp: wake_up_locked_def)
qed

definition someone_awake :: "nat \<Rightarrow> kernel \<Rightarrow> bool" where
  "someone_awake ep k \<longleftrightarrow> (ep_wq (eps k ep) \<noteq> [] \<longrightarrow> (\<exists>t\<in>set (ep_wq (eps k ep)). task_running k t))"

lemma scan_finish_ok:
  "eps (snd (scan_finish ep tx k)) ep = (eps k ep)\<lparr>ovflist := EP_UNACTIVE_PTR, rdllist := tx @ rdllist (eps k ep)\<rparr>"
  "epis (snd (scan_finish ep tx k)) = epis k" "held (snd (scan_finish ep tx k)) = held k"
  "pwqs (snd (scan_finish ep tx k)) = pwqs k" "file_refs (snd (scan_finish ep tx k)) = file_refs k"
  "tx @ rdllist (eps k ep) \<noteq> [] \<Longrightarrow> someone_awake ep (snd (scan_finish ep tx k))"
proof -
  let ?k = "klogs (K_relax_ep ep)
      (upd_ep ep (\<lambda>p. p\<lparr>ovflist := EP_UNACTIVE_PTR, rdllist := tx @ rdllist p\<rparr>) k)"
  show "eps (snd (scan_finish ep tx k)) ep = (eps k ep)\<lparr>ovflist := EP_UNACTIVE_PTR, rdllist := tx @ rdllist (eps k ep)\<rparr>"
    "epis (snd (scan_finish ep tx k)) = epis k" "held (snd (scan_finish ep tx k)) = held k"
    "pwqs (snd (scan_finish ep tx k)) = pwqs k" "file_refs (snd (scan_finish ep tx k)) = file_refs k"
    by (auto simp: scan_finish_def Let_def)
  assume "tx @ rdllist (eps k ep) \<noteq> []"
  then have "snd (scan_finish ep tx k) = (if ep_wq (eps ?k ep) \<noteq> [] then wake_up_locked ep ?k else ?k)"
    by (auto simp: scan_finish_def Let_def waitqueue_active_def)
  then show "someone_awake ep (snd (scan_finish ep tx k))"
    using wake_up_runs [of ?k ep] by (auto simp: someone_awake_def)
qed

section \<open>A whole scan\<close>

lemma linked_held [simp]: "linked_ok ep tx (k\<lparr>held := h\<rparr>) = linked_ok ep tx k"
  "chained_ok ep xs (k\<lparr>held := h\<rparr>) = chained_ok ep xs k"
  by (simp_all add: linked_ok_def chained_ok_def)

lemma steal_scanning:
  assumes "idle ep k" and "no_spin k" and "k1 = upd_ep ep (\<lambda>p. p\<lparr>rdllist := [], ovflist := NULL\<rparr>) (k\<lparr>held := Mtx ep # held k\<rparr>)"
  shows "scanning ep (rdllist (eps k ep)) [] k1"
  using assms by (auto simp: idle_def scanning_def linked_ok_def chained_ok_def no_spin_def)

lemma reinject_more: "reinject n L ep p k = Inr k' \<Longrightarrow> n \<le> m \<Longrightarrow> reinject m L ep p k = Inr k'"
proof (induction n arbitrary: p k m)
  case (Suc n)
  from Suc.prems(2) obtain m' where m: "m = Suc m'" "n \<le> m'" by (cases m) auto
  show ?case
  proof (cases p)
    case (Epi e)
    with Suc.prems(1) obtain k1 where k1: "(if \<not> lb_is_linked L (rdllink (epis k e))
          then rbind (list_add_tail_rdl ep e k) (\<lambda>k. Inr (klogs (K_stay_awake e) k)) else Inr k) = Inr k1"
        "reinject n L ep (epi_next (epis k1 e)) (upd_epi e (\<lambda>epi. epi\<lparr>epi_next := EP_UNACTIVE_PTR\<rparr>) k1) = Inr k'"
      by (simp only: reinject.simps eptr.case rbind_Inr_iff) blast
    from Suc.IH [OF k1(2) m(2)] k1(1) show ?thesis
      by (simp only: reinject.simps eptr.case m(1) Epi rbind_simps)
  qed (use Suc.prems m(1) in simp_all)
qed simp

text \<open>The state after the loop over \<open>ovflist\<close> and the splice.\<close>

lemma finish_idle:
  assumes L: "lib_ok L" and sc: "scanning ep rest xs k2"
  defines "k2' \<equiv> k2\<lparr>held := Spin ep # held k2\<rparr>"
  shows "\<exists>k3. (\<forall>n>length xs. reinject n L ep (ovflist (eps k2' ep)) k2' = Inr k3)
    \<and> idle ep (snd (scan_finish ep rest k3)) \<and> held (snd (scan_finish ep rest k3)) = Spin ep # held k2
    \<and> ep_wq (eps (snd (scan_finish ep rest k3)) ep) = ep_wq (eps k2 ep)
    \<and> rdllist (eps (snd (scan_finish ep rest k3)) ep) =
        rest @ rdllist (eps k2 ep) @ filter (\<lambda>e. e \<notin> set rest \<union> set (rdllist (eps k2 ep))) xs
    \<and> pwqs (snd (scan_finish ep rest k3)) = pwqs k2 \<and> file_refs (snd (scan_finish ep rest k3)) = file_refs k2
    \<and> (\<forall>e. event (epis (snd (scan_finish ep rest k3)) e) = event (epis k2 e)
         \<and> epi_ep (epis (snd (scan_finish ep rest k3)) e) = epi_ep (epis k2 e))
    \<and> (rdllist (eps (snd (scan_finish ep rest k3)) ep) \<noteq> [] \<longrightarrow> someone_awake ep (snd (scan_finish ep rest k3)))"
proof -
  have c: "chain (epis k2') (ovflist (eps k2' ep)) xs" "distinct xs" "\<forall>e\<in>set xs. epi_ep (epis k2' e) = ep"
    "linked_ok ep rest k2'"
    using sc by (auto simp: scanning_def chained_ok_def k2'_def)
  obtain k3 where k3: "reinject (Suc (length xs)) L ep (ovflist (eps k2' ep)) k2' = Inr k3" "reinjected ep rest xs k2' k3"
    using reinject_ok [OF L c(4) c(1-3) lessI] by blast
  have r: "linked_ok ep rest k3"
      "rdllist (eps k3 ep) = rdllist (eps k2 ep) @ filter (\<lambda>e. e \<notin> set rest \<union> set (rdllist (eps k2 ep))) xs"
      "\<And>e. epi_ep (epis k3 e) = epi_ep (epis k2 e)" "\<And>e. event (epis k3 e) = event (epis k2 e)"
      "\<And>e. epi_next (epis k3 e) = (if e \<in> set xs then EP_UNACTIVE_PTR else epi_next (epis k2 e))"
      "held k3 = Spin ep # held k2" "ep_wq (eps k3 ep) = ep_wq (eps k2 ep)" "pwqs k3 = pwqs k2" "file_refs k3 = file_refs k2"
    using k3(2) by (simp_all add: reinjected_def k2'_def)
  note f = scan_finish_ok [where ep = ep and tx = rest and k = k3]
  have "epi_next (epis k2 e) = EP_UNACTIVE_PTR" if "epi_ep (epis k2 e) = ep" "e \<notin> set xs" for e
    using sc that by (auto simp: scanning_def chained_ok_def)
  then have "idle ep (snd (scan_finish ep rest k3))"
    using r(1,3,5) f(1,2) by (auto simp: idle_def linked_ok_def)
  moreover have "\<forall>n>length xs. reinject n L ep (ovflist (eps k2' ep)) k2' = Inr k3"
    using reinject_more [OF k3(1)] by (simp add: Suc_le_eq)
  ultimately show ?thesis using r f by (intro exI [of _ k3]) auto
qed

lemma scan_refines:
  assumes L: "lib_ok L" and i: "idle ep k" and ns: "no_spin k" and m: "Mtx ep \<notin> set (held k)"
    and sp: "send_spec (\<lambda>e. event (epis k e)) Q maxevents 0 [] [] (rdllist (eps k ep)) = (r, us, bk, rest, j)"
  shows "\<exists>k' fresh n0. (\<forall>n\<ge>n0. ep_send_events n L Q ep maxevents k = Inr (r, us, k'))
    \<and> idle ep k' \<and> mask_view ep k k'
    \<and> rdllist (eps k' ep) = rest @ bk @ fresh \<and> set fresh \<subseteq> all_hit k Q
    \<and> woken L ep k Q 0 (2 * j) \<subseteq> set (rdllist (eps k' ep))
    \<and> (rdllist (eps k' ep) \<noteq> [] \<longrightarrow> someone_awake ep k')"
proof -
  let ?k1 = "upd_ep ep (\<lambda>p. p\<lparr>rdllist := [], ovflist := NULL\<rparr>) (k\<lparr>held := Mtx ep # held k\<rparr>)"
  have sc: "scanning ep (rdllist (eps k ep)) [] ?k1" by (rule steal_scanning [OF i ns refl])
  have "send_ok L Q ep [] ?k1 0 (send_spec (\<lambda>e. event (epis k e)) Q maxevents 0 [] (rdllist (eps ?k1 ep)) (rdllist (eps k ep)))
      (send_loop L Q ep maxevents 0 [] (rdllist (eps k ep)) ?k1)"
    by (rule send_loop_refines [OF L sc]) simp
  then obtain k2 xs where k2: "send_loop L Q ep maxevents 0 [] (rdllist (eps k ep)) ?k1 = Inr (r, us, rest, k2)"
      "scanning ep rest xs k2" "rdllist (eps k2 ep) = bk" "mask_view ep ?k1 k2"
      "woken L ep ?k1 Q 0 (2 * j) \<subseteq> set xs" "set xs \<subseteq> all_hit ?k1 Q"
    using sp by (auto simp: send_ok_def)
  let ?fresh = "filter (\<lambda>e. e \<notin> set rest \<union> set (rdllist (eps k2 ep))) xs"
  have h2: "held k2 = Mtx ep # held k" "ep_wq (eps k2 ep) = ep_wq (eps k ep)"
    using k2(4) by (simp_all add: mask_view_def)
  let ?k2' = "k2\<lparr>held := Spin ep # held k2\<rparr>"
  have w: "woken L ep ?k1 Q 0 (2 * j) = woken L ep k Q 0 (2 * j)" "all_hit ?k1 Q = all_hit k Q"
    by (simp_all add: woken_def wanted_def of_interest_def all_hit_def)
  obtain k3 where k3: "\<forall>n>length xs. reinject n L ep (ovflist (eps ?k2' ep)) ?k2' = Inr k3"
      "idle ep (snd (scan_finish ep rest k3))" "held (snd (scan_finish ep rest k3)) = Spin ep # held k2"
      "ep_wq (eps (snd (scan_finish ep rest k3)) ep) = ep_wq (eps k2 ep)"
      "rdllist (eps (snd (scan_finish ep rest k3)) ep) = rest @ rdllist (eps k2 ep) @ ?fresh"
      "pwqs (snd (scan_finish ep rest k3)) = pwqs k2 \<and> file_refs (snd (scan_finish ep rest k3)) = file_refs k2"
      "\<forall>e. event (epis (snd (scan_finish ep rest k3)) e) = event (epis k2 e)
         \<and> epi_ep (epis (snd (scan_finish ep rest k3)) e) = epi_ep (epis k2 e)"
      "rdllist (eps (snd (scan_finish ep rest k3)) ep) \<noteq> [] \<longrightarrow> someone_awake ep (snd (scan_finish ep rest k3))"
    using finish_idle [OF L k2(2)] by blast
  obtain pw k4 where k4: "scan_finish ep rest k3 = (pw, k4)" by force
  let ?k' = "klog_if pw (K_safewake ep) (k4\<lparr>held := held k\<rparr>)"
  have a: "acquire (Spin ep) (k\<lparr>held := Mtx ep # held k\<rparr>) = Inr (k\<lparr>held := Spin ep # Mtx ep # held k\<rparr>)"
    "acquire (Spin ep) k2 = Inr ?k2'"
    using ns k2(2) by (simp_all add: acquire_def no_spin_def scanning_def)
  have "\<forall>n\<ge>Suc (length xs). ep_send_events n L Q ep maxevents k = Inr (r, us, ?k')"
    using a k2(1) k3(1,3) k4 h2 m
    by (simp add: ep_send_events_def ep_scan_ready_list_def ep_send_events_proc_def acquire_eq release_def Let_def)
  moreover have "mask_view ep k ?k'"
    using k3(4,6,7) k4 h2 k2(4) by (simp add: mask_view_def)
  moreover have "idle ep ?k'"
    "rdllist (eps ?k' ep) = rest @ bk @ ?fresh" "rdllist (eps ?k' ep) \<noteq> [] \<longrightarrow> someone_awake ep ?k'"
    using k3 k4 h2 k2(3) by (auto simp: idle_def linked_ok_def someone_awake_def)
  moreover have "set ?fresh \<subseteq> all_hit k Q" "set xs \<subseteq> set (rest @ bk @ ?fresh)"
    using k2(3,6) w by auto
  ultimately show ?thesis
    using k2(5) w(1) by (intro exI [of _ ?k'] exI [of _ ?fresh] exI [of _ "Suc (length xs)"]) auto
qed

section \<open>Wake-ups outside a scan\<close>

definition alert :: "nat \<Rightarrow> kernel \<Rightarrow> bool" where
  "alert ep k \<longleftrightarrow> (rdllist (eps k ep) \<noteq> [] \<longrightarrow> someone_awake ep k)"

lemma wake_up_mono: "task_running k t \<Longrightarrow> task_running (wake_up_locked ep k) t"
  by (simp add: wake_up_locked_def split: list.split)

lemma add_ready_idle:
  assumes "idle ep k" and "epi_ep (epis k e) = ep"
  shows "idle ep (add_ready ep e k)"
  using assms by (auto simp: idle_def linked_ok_def add_ready_def)

lemma cb_effect_idle:
  fixes L :: klib and e :: nat and key :: "64 word"
  assumes i: "idle ep k"
  defines "k' \<equiv> cb_effect L (epi_ep (epis k e)) e key k"
  shows "idle ep k'" "alert ep k \<Longrightarrow> alert ep k'" "held k' = held k" "ep_wq (eps k' ep) = ep_wq (eps k ep)"
proof -
  show "held k' = held k" "ep_wq (eps k' ep) = ep_wq (eps k ep)"
    by (auto simp: k'_def cb_effect_def cb_overflow_def wake_ready_def add_ready_def)
  have "idle ep k' \<and> (alert ep k \<longrightarrow> alert ep k')"
  proof (cases "epi_ep (epis k e) = ep")
    case True
    let ?r = "add_ready ep e k"
    have k': "k' = k \<or> k' = wake_ready ep ?r"
      using True i by (auto simp: k'_def cb_effect_def idle_def)
    have "alert ep (wake_ready ep ?r)"
      using wake_up_runs [of ?r ep] by (auto simp: alert_def wake_ready_def someone_awake_def)
    moreover have "idle ep (wake_ready ep ?r)"
      using add_ready_idle [OF i True] by (simp add: wake_ready_def idle_def linked_ok_def)
    ultimately show ?thesis using k' i by auto
  next
    case False
    have e: "eps k' ep = eps k ep" "\<And>d. epi_ep (epis k' d) = epi_ep (epis k d)"
      "\<And>d. epi_ep (epis k d) = ep \<Longrightarrow> epis k' d = epis k d"
      using False by (auto simp: k'_def cb_effect_def cb_overflow_def wake_ready_def add_ready_def)
    have "task_running k' t" if "task_running k t" for t
      using that wake_up_mono
      by (auto simp: k'_def cb_effect_def cb_overflow_def wake_ready_def add_ready_def)
    then have "alert ep k \<longrightarrow> alert ep k'" using e(1) by (auto simp: alert_def someone_awake_def)
    moreover have "idle ep k'" using i e by (auto simp: idle_def linked_ok_def)
    ultimately show ?thesis by simp
  qed
  then show "idle ep k'" "alert ep k \<Longrightarrow> alert ep k'" by simp_all
qed

lemma pollfree_idle: "idle ep (pollfree p k) = idle ep k" "alert ep (pollfree p k) = alert ep k"
  by (simp_all add: idle_def linked_ok_def alert_def someone_awake_def)

lemma hit_idle:
  assumes "idle ep k"
  shows "idle ep (hit_effect L h k)" "alert ep k \<Longrightarrow> alert ep (hit_effect L h k)" "held (hit_effect L h k) = held k"
    "ep_wq (eps (hit_effect L h k) ep) = ep_wq (eps k ep)"
proof -
  let ?e = "pwq_base (pwqs k (fst h))"
  let ?k = "if snd h AND POLLFREE \<noteq> 0 then pollfree (fst h) k else k"
  have "idle ep ?k" "alert ep ?k = alert ep k" "epis ?k = epis k" "held ?k = held k" "eps ?k = eps k"
    using assms by (simp_all add: pollfree_idle)
  note c = cb_effect_idle [OF this(1), of L ?e "snd h", unfolded this(2-5)]
  show "idle ep (hit_effect L h k)" "alert ep k \<Longrightarrow> alert ep (hit_effect L h k)" "held (hit_effect L h k) = held k"
    "ep_wq (eps (hit_effect L h k) ep) = ep_wq (eps k ep)"
    using c by (auto simp: hit_effect_def Let_def idle_def linked_ok_def alert_def someone_awake_def)
qed

lemma hit_frame [simp]:
  "held (hit_effect L h k) = held k" "file_refs (hit_effect L h k) = file_refs k"
  "f_ep_links (hit_effect L h k) = f_ep_links k" "watches (hit_effect L h k) = watches k"
  "rbr (eps (hit_effect L h k) q) = rbr (eps k q)" "ep_user (eps (hit_effect L h k) q) = ep_user (eps k q)"
  "epi_ep (epis (hit_effect L h k) e) = epi_ep (epis k e)" "event (epis (hit_effect L h k) e) = event (epis k e)"
  "nwait (epis (hit_effect L h k) e) = nwait (epis k e)"
  by (auto simp: hit_effect_def Let_def cb_effect_def cb_overflow_def wake_ready_def add_ready_def)

lemma hits_fold:
  assumes "lib_ok L"
  shows "no_spin k \<Longrightarrow> runs (hit L) hs k = Inr (fold (hit_effect L) hs k)"
proof (induction hs arbitrary: k)
  case (Cons h hs)
  have "no_spin (hit_effect L h k)" using Cons.prems by (simp add: no_spin_def)
  with Cons.IH show ?case using hit_eq [OF assms Cons.prems] by simp
qed simp

lemma fold_hit_frame [simp]:
  "held (fold (hit_effect L) hs k) = held k" "file_refs (fold (hit_effect L) hs k) = file_refs k"
  "f_ep_links (fold (hit_effect L) hs k) = f_ep_links k" "watches (fold (hit_effect L) hs k) = watches k"
  "rbr (eps (fold (hit_effect L) hs k) q) = rbr (eps k q)"
  "ep_user (eps (fold (hit_effect L) hs k) q) = ep_user (eps k q)"
  "epi_ep (epis (fold (hit_effect L) hs k) e) = epi_ep (epis k e)"
  "event (epis (fold (hit_effect L) hs k) e) = event (epis k e)"
  "nwait (epis (fold (hit_effect L) hs k) e) = nwait (epis k e)"
  by (induction hs arbitrary: k) simp_all

lemma fold_hit_idle: "idle ep k \<Longrightarrow> idle ep (fold (hit_effect L) hs k)"
  by (induction hs arbitrary: k) (simp_all add: hit_idle(1))

end
