(* ===== verification/Epoll_Ctl.thy ===== *)
theory Epoll_Ctl
  imports Epoll_Scan "HOL-Library.Multiset"
begin

text \<open>
  \<open>epoll_ctl\<close> and \<open>ep_insert\<close>: every path gives back the locks and file references it took, and
  an insertion either happens completely or leaves no trace.
\<close>

section \<open>What the file relies on\<close>

text \<open>The operations of the kernel that are called with \<open>mtx\<close> held give back what they take; an
  eventpoll belongs to one file; the tree holds what is inserted; unregistering an item from
  its wait queues touches neither the ready list nor the tree.\<close>

definition balanced :: "kernel \<Rightarrow> kernel \<Rightarrow> bool" where
  "balanced k k' \<longleftrightarrow> held k' = held k \<and> file_refs k' = file_refs k"

definition ctl_lib_ok :: "klib \<Rightarrow> bool" where
  "ctl_lib_ok L \<longleftrightarrow> lib_ok L \<and>
     (\<forall>ep e k. balanced k (snd (lb_remove L ep e k))) \<and>
     (\<forall>ep e ev k. balanced k (snd (lb_modify L ep e ev k))) \<and>
     (\<forall>ep e k. balanced k (lb_unregister_pollwait L ep e k)) \<and>
     (\<forall>f g. lb_is_file_epoll L f \<longrightarrow> lb_is_file_epoll L g \<longrightarrow> lb_private_data L f = lb_private_data L g \<longrightarrow> f = g)"

definition tree_lib_ok :: "klib \<Rightarrow> bool" where
  "tree_lib_ok L \<longleftrightarrow>
     (\<forall>e t. mset (lb_rbtree_insert L e t) = add_mset e (mset t)) \<and>
     (\<forall>ep e k. eps (lb_unregister_pollwait L ep e k) = eps k \<and>
        f_ep_links (lb_unregister_pollwait L ep e k) = f_ep_links k \<and>
        watches (lb_unregister_pollwait L ep e k) = watches k \<and>
        (\<forall>d. rdllink (epis (lb_unregister_pollwait L ep e k) d) = rdllink (epis k d) \<and>
             epi_next (epis (lb_unregister_pollwait L ep e k) d) = epi_next (epis k d) \<and>
             epi_ep (epis (lb_unregister_pollwait L ep e k) d) = epi_ep (epis k d)))"

lemma ctl_lib_okD:
  assumes "ctl_lib_ok L"
  shows "lib_ok L" "balanced k (snd (lb_remove L ep e k))" "balanced k (snd (lb_modify L ep e ev k))"
    "balanced k (lb_unregister_pollwait L ep e k)"
    "lb_is_file_epoll L f \<Longrightarrow> lb_is_file_epoll L g \<Longrightarrow> lb_private_data L f = lb_private_data L g \<Longrightarrow> f = g"
  using assms unfolding ctl_lib_ok_def by blast+

lemma balanced_trans: "balanced k k' \<Longrightarrow> balanced k' k'' \<Longrightarrow> balanced k k''"
  by (simp add: balanced_def)

section \<open>Insertion keeps the balance\<close>

lemma queue_proc_frame [simp]:
  "held (ep_ptable_queue_proc e x k) = held k" "file_refs (ep_ptable_queue_proc e x k) = file_refs k"
  "eps (ep_ptable_queue_proc e x k) = eps k" "f_ep_links (ep_ptable_queue_proc e x k) = f_ep_links k"
  "watches (ep_ptable_queue_proc e x k) = watches k"
  "rdllink (epis (ep_ptable_queue_proc e x k) d) = rdllink (epis k d)"
  "epi_next (epis (ep_ptable_queue_proc e x k) d) = epi_next (epis k d)"
  "epi_ep (epis (ep_ptable_queue_proc e x k) d) = epi_ep (epis k d)"
  "event (epis (ep_ptable_queue_proc e x k) d) = event (epis k d)"
  by (auto simp: ep_ptable_queue_proc_def Let_def split: prod.split option.split)

lemma fold_queue_frame [simp]:
  "held (fold (ep_ptable_queue_proc e) xs k) = held k"
  "file_refs (fold (ep_ptable_queue_proc e) xs k) = file_refs k"
  "eps (fold (ep_ptable_queue_proc e) xs k) = eps k"
  "f_ep_links (fold (ep_ptable_queue_proc e) xs k) = f_ep_links k"
  "watches (fold (ep_ptable_queue_proc e) xs k) = watches k"
  "rdllink (epis (fold (ep_ptable_queue_proc e) xs k) d) = rdllink (epis k d)"
  "epi_next (epis (fold (ep_ptable_queue_proc e) xs k) d) = epi_next (epis k d)"
  "epi_ep (epis (fold (ep_ptable_queue_proc e) xs k) d) = epi_ep (epis k d)"
  "event (epis (fold (ep_ptable_queue_proc e) xs k) d) = event (epis k d)"
  by (induction xs arbitrary: k) simp_all

text \<open>The part after \<open>error_unregister\<close>, without its lock.\<close>

definition undo_effect :: "klib \<Rightarrow> nat \<Rightarrow> nat \<Rightarrow> kernel \<Rightarrow> kernel" where
  "undo_effect L ep e k =
     (let k = lb_unregister_pollwait L ep e k;
          k = (if rdllink (epis k e)
               then upd_ep ep (\<lambda>p. p\<lparr>rdllist := remove1 e (rdllist p)\<rparr>) (upd_epi e (\<lambda>epi. epi\<lparr>rdllink := False\<rparr>) k)
               else k)
      in klogs (K_free_epi e) (klogs (K_ws_unregister (epi_ws (epis k e))) k))"

lemma insert_undo_eq:
  assumes L: "ctl_lib_ok L" and ns: "no_spin k"
  shows "insert_undo L ep e k = Inr (undo_effect L ep e k)" "balanced k (undo_effect L ep e k)"
proof -
  let ?k = "lb_unregister_pollwait L ep e k"
  have b: "held ?k = held k" "file_refs ?k = file_refs k"
    using ctl_lib_okD(4) [OF L] by (simp_all add: balanced_def)
  then have "acquire (Spin ep) ?k = Inr (?k\<lparr>held := Spin ep # held k\<rparr>)"
    using ns by (simp add: acquire_def no_spin_def)
  then show "insert_undo L ep e k = Inr (undo_effect L ep e k)"
    using lib_okD(1) [OF ctl_lib_okD(1) [OF L]] b
    by (simp add: insert_undo_def undo_effect_def unlink_rdl_def release_def Let_def)
  show "balanced k (undo_effect L ep e k)" using b by (simp add: balanced_def undo_effect_def Let_def)
qed

text \<open>The part that makes the item known as ready, without its lock.\<close>

definition ready_effect :: "nat \<Rightarrow> nat \<Rightarrow> bool \<Rightarrow> kernel \<Rightarrow> kernel" where
  "ready_effect ep e b k = (if b \<and> \<not> rdllink (epis k e) then wake_ready ep (add_ready ep e k) else k)"

lemma insert_ready_eq:
  assumes "lib_ok L"
  shows "\<exists>pw. insert_ready L ep e revents evs (k\<lparr>held := h\<rparr>) =
    Inr (pw, (ready_effect ep e (revents AND evs \<noteq> 0) k)\<lparr>held := h\<rparr>)"
  using lib_okD(1) [OF assms]
  by (auto simp: insert_ready_def ready_effect_def list_add_tail_rdl_def wake_ready_def add_ready_def
      waitqueue_active_def Let_def)

lemma file_links:
  assumes "F_lock t \<notin> set (held k)"
  shows "link_file t e k = Inr (k\<lparr>f_ep_links := (f_ep_links k)(t := f_ep_links k t @ [e])\<rparr>)"
    "unlink_file t e k = Inr (k\<lparr>f_ep_links := (f_ep_links k)(t := remove1 e (f_ep_links k t))\<rparr>)"
  using assms by (simp_all add: link_file_def unlink_file_def acquire_def release_def)

text \<open>The three ways the second half of \<open>ep_insert\<close> ends.\<close>

lemma insert_attached_cases:
  fixes I :: insert_env and e ep :: nat and ev :: epoll_event
  assumes L: "ctl_lib_ok L" and ns: "no_spin k" and fl: "F_lock tfile \<notin> set (held k)"
  defines "k1 \<equiv> fold (hit_effect L) (ie_hits I) (fold (ep_ptable_queue_proc e) (ie_wheads I) k)"
  defines "k2 \<equiv> upd_ep ep (\<lambda>p. p\<lparr>rbr := lb_rbtree_insert L e (rbr p)\<rparr>)
      (k1\<lparr>f_ep_links := (f_ep_links k1)(tfile := f_ep_links k1 tfile @ [e])\<rparr>)"
  defines "k3 \<equiv> upd_ep ep (\<lambda>p. p\<lparr>rbr := remove1 e (rbr p)\<rparr>)
      (k2\<lparr>f_ep_links := (f_ep_links k2)(tfile := remove1 e (f_ep_links k2 tfile))\<rparr>)"
  defines "k4 \<equiv> ready_effect ep e (ie_revents I AND ev_events ev \<noteq> 0) k2"
  shows "(insert_attached L I ep ev tfile full e k = Inr (- ENOMEM_code, undo_effect L ep e k1))
    \<or> (insert_attached L I ep ev tfile full e k = Inr (- EINVAL_code, undo_effect L ep e k3))
    \<or> (\<exists>pw. insert_attached L I ep ev tfile full e k = Inr (0, klog_if pw (K_safewake ep)
         (k4\<lparr>watches := (watches k4)(ep_user (eps k4 ep) := watches k4 (ep_user (eps k4 ep)) + 1)\<rparr>)))"
proof -
  have h: "held k1 = held k" by (simp add: k1_def)
  have n1: "no_spin k1" "no_spin k2" "no_spin k3" using ns h by (simp_all add: no_spin_def k2_def k3_def)
  have r: "runs (hit L) (ie_hits I) (fold (ep_ptable_queue_proc e) (ie_wheads I) k) = Inr k1"
    unfolding k1_def by (rule hits_fold [OF ctl_lib_okD(1) [OF L]]) (use ns in \<open>simp add: no_spin_def\<close>)
  have ln: "link_file tfile e k1 = Inr (k1\<lparr>f_ep_links := (f_ep_links k1)(tfile := f_ep_links k1 tfile @ [e])\<rparr>)"
    "unlink_file tfile e k2 = Inr (k2\<lparr>f_ep_links := (f_ep_links k2)(tfile := remove1 e (f_ep_links k2 tfile))\<rparr>)"
    using fl h by (simp_all add: file_links k2_def)
  have aq: "acquire (Spin ep) k2 = Inr (k2\<lparr>held := Spin ep # held k2\<rparr>)"
    using n1(2) by (simp add: acquire_def no_spin_def)
  obtain pw where pw: "insert_ready L ep e (ie_revents I) (ev_events ev) (k2\<lparr>held := Spin ep # held k2\<rparr>) =
      Inr (pw, k4\<lparr>held := Spin ep # held k2\<rparr>)"
    using insert_ready_eq [OF ctl_lib_okD(1) [OF L]] unfolding k4_def by blast
  have h4: "held k4 = held k2" by (simp add: k4_def ready_effect_def wake_ready_def add_ready_def)
  note undo = insert_undo_eq(1) [OF L n1(1), of ep e] insert_undo_eq(1) [OF L n1(3), of ep e]
  show ?thesis
  proof (cases "nwait (epis k1 e) < 0")
    case True
    then show ?thesis using r undo(1) by (simp add: insert_attached_def)
  next
    case False
    show ?thesis
    proof (cases "full \<and> lb_reverse_path_check L k2 \<noteq> 0")
      case True
      then show ?thesis using False r ln undo(2) by (simp add: insert_attached_def k2_def k3_def Let_def)
    next
      case b: False
      have "insert_attached L I ep ev tfile full e k = Inr (0, klog_if pw (K_safewake ep)
         (k4\<lparr>watches := (watches k4)(ep_user (eps k4 ep) := watches k4 (ep_user (eps k4 ep)) + 1)\<rparr>))"
        using b False r ln(1) aq pw
        by (cases full) (simp_all add: insert_attached_def k2_def [symmetric] Let_def release_eq h4 [symmetric])
      then show ?thesis by blast
    qed
  qed
qed

lemma ready_frame [simp]:
  "held (ready_effect ep e b k) = held k" "file_refs (ready_effect ep e b k) = file_refs k"
  "f_ep_links (ready_effect ep e b k) = f_ep_links k" "watches (ready_effect ep e b k) = watches k"
  "rbr (eps (ready_effect ep e b k) q) = rbr (eps k q)" "ep_user (eps (ready_effect ep e b k) q) = ep_user (eps k q)"
  by (auto simp: ready_effect_def wake_ready_def add_ready_def)

lemma insert_attached_balanced:
  assumes L: "ctl_lib_ok L" and ns: "no_spin k" and fl: "F_lock tfile \<notin> set (held k)"
  shows "\<exists>r k'. insert_attached L I ep ev tfile full e k = Inr (r, k') \<and> balanced k k'"
proof -
  define k1 where "k1 = fold (hit_effect L) (ie_hits I) (fold (ep_ptable_queue_proc e) (ie_wheads I) k)"
  define k2 where "k2 = upd_ep ep (\<lambda>p. p\<lparr>rbr := lb_rbtree_insert L e (rbr p)\<rparr>)
      (k1\<lparr>f_ep_links := (f_ep_links k1)(tfile := f_ep_links k1 tfile @ [e])\<rparr>)"
  define k3 where "k3 = upd_ep ep (\<lambda>p. p\<lparr>rbr := remove1 e (rbr p)\<rparr>)
      (k2\<lparr>f_ep_links := (f_ep_links k2)(tfile := remove1 e (f_ep_links k2 tfile))\<rparr>)"
  have b: "balanced k k1" "balanced k k2" "balanced k k3" by (simp_all add: balanced_def k1_def k2_def k3_def)
  then have "no_spin k1" "no_spin k3" using ns by (simp_all add: balanced_def no_spin_def)
  then have "balanced k (undo_effect L ep e k1)" "balanced k (undo_effect L ep e k3)"
    using insert_undo_eq(2) [OF L] b balanced_trans by blast+
  moreover have "balanced k (klog_if pw x ((ready_effect ep e c k2)\<lparr>watches := y\<rparr>))" for pw x c y
    using b(2) by (simp add: balanced_def)
  ultimately show ?thesis
    using insert_attached_cases [OF L ns fl, where I = I and e = e and ep = ep and ev = ev and full = full, folded k1_def, folded k2_def, folded k3_def] by blast
qed

lemma ep_insert_balanced:
  assumes "ctl_lib_ok L" and "no_spin k" and "F_lock tfile \<notin> set (held k)"
  shows "\<exists>r k'. ep_insert L I ep ev tfile fd full k = Inr (r, k') \<and> balanced k k'"
proof (cases "lb_max_user_watches L \<le> watches k (ep_user (eps k ep)) \<or> ie_alloc I = None")
  case True
  then show ?thesis by (auto simp: ep_insert_def balanced_def)
next
  case False
  then obtain e where e: "ie_alloc I = Some e" by blast
  let ?k = "upd_epi e (\<lambda>_. new_epitem ep ev tfile fd) k"
  obtain err ws where ws: "lb_create_wakeup_source L ?k e = (err, ws)" by force
  let ?k' = "if ev_events ev AND EPOLLWAKEUP \<noteq> 0 then upd_epi e (\<lambda>epi. epi\<lparr>epi_ws := ws\<rparr>) ?k else ?k"
  have b: "balanced k ?k'" "no_spin ?k'" "F_lock tfile \<notin> set (held ?k')"
    using assms(2,3) by (simp_all add: balanced_def no_spin_def)
  obtain r k' where "insert_attached L I ep ev tfile full e ?k' = Inr (r, k')" "balanced ?k' k'"
    using insert_attached_balanced [OF assms(1) b(2,3)] by blast
  moreover have "balanced k (klogs x ?k)" for x by (simp add: balanced_def)
  ultimately show ?thesis
    using False e ws balanced_trans [OF b(1)]
    by (cases "ev_events ev AND EPOLLWAKEUP \<noteq> 0 \<and> err \<noteq> 0") (auto simp: ep_insert_def Let_def)
qed

section \<open>Control keeps the balance\<close>

lemma ctl_switch_balanced:
  assumes "ctl_lib_ok L" and "no_spin k" and "F_lock tf \<notin> set (held k)"
  shows "\<exists>r k'. ctl_switch L I op ep tf fd epds full k = Inr (r, k') \<and> balanced k k'"
proof -
  obtain r k' where i: "ep_insert L I ep (interest epds) tf fd full k = Inr (r, k')" "balanced k k'"
    using ep_insert_balanced [OF assms] by blast
  have "balanced k (klog_if b x k')" "balanced k (klog_if b x k)" "balanced k k" for b x
    using i(2) by (simp_all add: balanced_def)
  note s = i(1) this ctl_lib_okD(2,3) [OF assms(1)]
  have b: "\<exists>r k'. p = (r, k') \<and> balanced k k'" if "balanced k (snd p)" for p :: "int \<times> kernel"
    using that by (cases p) auto
  consider "op = EPOLL_CTL_ADD" | "op \<noteq> EPOLL_CTL_ADD" "op = EPOLL_CTL_DEL"
    | "op \<noteq> EPOLL_CTL_ADD" "op \<noteq> EPOLL_CTL_DEL" by blast
  then show ?thesis
  proof cases
    case 1
    then show ?thesis using s by (auto simp: ctl_switch_def Let_def split: option.split)
  next
    case 2
    then show ?thesis using s by (auto simp: ctl_switch_def Let_def split: option.split intro!: b)
  next
    case 3
    then show ?thesis using s by (auto simp: ctl_switch_def Let_def split: option.split intro!: b)
  qed
qed

text \<open>The locks that are held when the switch runs, or when the check for loops has failed.\<close>

lemma ctl_lock_cases:
  assumes h: "held k = []" and t: "lb_is_file_epoll L tf \<Longrightarrow> lb_private_data L tf \<noteq> ep"
  shows "\<exists>full tep early k'. ctl_lock L op f tf ep k = Inr (full, tep, early, k') \<and> file_refs k' = file_refs k \<and>
    (case early of
       Some r \<Rightarrow> full \<and> held k' = [Epmutex]
     | None \<Rightarrow> held k' = (case tep of None \<Rightarrow> [] | Some t \<Rightarrow> [Mtx t]) @ [Mtx ep] @ (if full then [Epmutex] else []))"
  using assms by (auto simp: ctl_lock_def acquire_def release_def)

lemma ctl_locked_balanced:
  assumes L: "ctl_lib_ok L" and h: "held k = []" and f: "lb_is_file_epoll L f" "f \<noteq> tf"
  shows "\<exists>r k'. ctl_locked L I op f tf fd epds k = Inr (r, k') \<and> balanced k k'"
proof -
  let ?ep = "lb_private_data L f"
  have "lb_is_file_epoll L tf \<Longrightarrow> lb_private_data L tf \<noteq> ?ep" using ctl_lib_okD(5) [OF L f(1)] f(2) by metis
  from ctl_lock_cases [OF h this] obtain full tep early k1 where k1:
      "ctl_lock L op f tf ?ep k = Inr (full, tep, early, k1)" "file_refs k1 = file_refs k"
      "case early of Some r \<Rightarrow> full \<and> held k1 = [Epmutex]
       | None \<Rightarrow> held k1 = (case tep of None \<Rightarrow> [] | Some t \<Rightarrow> [Mtx t]) @ [Mtx ?ep] @ (if full then [Epmutex] else [])"
    by blast
  show ?thesis
  proof (cases early)
    case (Some r)
    then show ?thesis using k1 h by (simp add: ctl_locked_def release_def balanced_def)
  next
    case None
    then have hk: "held k1 = (case tep of None \<Rightarrow> [] | Some t \<Rightarrow> [Mtx t]) @ [Mtx ?ep] @ (if full then [Epmutex] else [])"
      using k1(3) by simp
    then have "no_spin k1" "F_lock tf \<notin> set (held k1)" by (auto simp: no_spin_def split: option.splits)
    from ctl_switch_balanced [OF L this] obtain r k2 where k2:
        "ctl_switch L I op ?ep tf fd epds full k1 = Inr (r, k2)" "held k2 = held k1" "file_refs k2 = file_refs k"
      unfolding balanced_def k1(2) by blast
    show ?thesis
      using k1(1,2) None k2 hk h
      by (cases tep; cases full) (simp_all add: ctl_locked_def release_def balanced_def)
  qed
qed

section \<open>Insertion leaves all or nothing\<close>

lemma undo_gone:
  assumes T: "tree_lib_ok L" and i: "idle ep k" and e: "epi_ep (epis k e) = ep"
  shows "idle ep (undo_effect L ep e k)" "e \<notin> set (rdllist (eps (undo_effect L ep e k) ep))"
    "rbr (eps (undo_effect L ep e k) ep) = rbr (eps k ep)" "f_ep_links (undo_effect L ep e k) = f_ep_links k"
    "watches (undo_effect L ep e k) = watches k"
proof -
  let ?k = "lb_unregister_pollwait L ep e k"
  have u: "eps ?k = eps k" "f_ep_links ?k = f_ep_links k" "watches ?k = watches k"
    "\<And>d. rdllink (epis ?k d) = rdllink (epis k d)" "\<And>d. epi_next (epis ?k d) = epi_next (epis k d)"
    "\<And>d. epi_ep (epis ?k d) = epi_ep (epis k d)"
    using T by (simp_all add: tree_lib_ok_def)
  then have iu: "idle ep ?k" using i by (simp add: idle_def linked_ok_def)
  then show "idle ep (undo_effect L ep e k)"
    using e u(6) by (auto simp: undo_effect_def Let_def idle_def linked_ok_def)
  show "e \<notin> set (rdllist (eps (undo_effect L ep e k) ep))"
    using iu e u(6) by (auto simp: undo_effect_def Let_def idle_def linked_ok_def)
  show "rbr (eps (undo_effect L ep e k) ep) = rbr (eps k ep)" "f_ep_links (undo_effect L ep e k) = f_ep_links k"
    "watches (undo_effect L ep e k) = watches k"
    using u by (simp_all add: undo_effect_def Let_def)
qed

lemma ready_idle:
  assumes "idle ep k" and "epi_ep (epis k e) = ep"
  shows "idle ep (ready_effect ep e b k)" "b \<Longrightarrow> e \<in> set (rdllist (eps (ready_effect ep e b k) ep))"
proof -
  have "idle ep (wake_ready ep (add_ready ep e k))"
    using add_ready_idle [OF assms] by (simp add: wake_ready_def idle_def linked_ok_def)
  then show "idle ep (ready_effect ep e b k)" using assms(1) by (simp add: ready_effect_def)
  show "b \<Longrightarrow> e \<in> set (rdllist (eps (ready_effect ep e b k) ep))"
    using assms by (auto simp: ready_effect_def wake_ready_def add_ready_def idle_def linked_ok_def)
qed

lemma idle_set_ws: "idle ep k \<Longrightarrow> idle ep (upd_epi e (\<lambda>epi. epi\<lparr>epi_ws := ws\<rparr>) k)"
proof -
  let ?k = "upd_epi e (\<lambda>epi. epi\<lparr>epi_ws := ws\<rparr>) k"
  have "rdllink (epis ?k d) = rdllink (epis k d)" "epi_next (epis ?k d) = epi_next (epis k d)"
    "epi_ep (epis ?k d) = epi_ep (epis k d)" "eps ?k = eps k" for d by simp_all
  then show "idle ep k \<Longrightarrow> idle ep ?k" unfolding idle_def linked_ok_def by presburger
qed

text \<open>The outcome of an insertion: with result 0 the item is in the tree, on the file's list and
  counted, and on the ready list if its file is ready; otherwise nothing of it is left.\<close>

definition insert_outcome :: "nat \<Rightarrow> nat \<Rightarrow> nat \<Rightarrow> bool \<Rightarrow> kernel \<Rightarrow> int \<times> kernel \<Rightarrow> bool" where
  "insert_outcome ep tfile e ready k = (\<lambda>(r, k'). idle ep k' \<and>
     (if r = 0
      then mset (rbr (eps k' ep)) = add_mset e (mset (rbr (eps k ep))) \<and>
        f_ep_links k' = (f_ep_links k)(tfile := f_ep_links k tfile @ [e]) \<and>
        watches k' = (watches k)(ep_user (eps k ep) := watches k (ep_user (eps k ep)) + 1) \<and>
        (ready \<longrightarrow> e \<in> set (rdllist (eps k' ep)))
      else mset (rbr (eps k' ep)) = mset (rbr (eps k ep)) \<and> f_ep_links k' = f_ep_links k \<and>
        watches k' = watches k \<and> e \<notin> set (rdllist (eps k' ep))))"

lemma insert_attached_outcome:
  assumes L: "ctl_lib_ok L" and T: "tree_lib_ok L" and ns: "no_spin k" and fl: "F_lock tfile \<notin> set (held k)"
    and i: "idle ep k" and e: "epi_ep (epis k e) = ep" "e \<notin> set (f_ep_links k tfile)"
  shows "\<exists>out. insert_attached L I ep ev tfile full e k = Inr out
    \<and> insert_outcome ep tfile e (ie_revents I AND ev_events ev \<noteq> 0) k out"
proof -
  define k1 where "k1 = fold (hit_effect L) (ie_hits I) (fold (ep_ptable_queue_proc e) (ie_wheads I) k)"
  define k2 where "k2 = upd_ep ep (\<lambda>p. p\<lparr>rbr := lb_rbtree_insert L e (rbr p)\<rparr>)
      (k1\<lparr>f_ep_links := (f_ep_links k1)(tfile := f_ep_links k1 tfile @ [e])\<rparr>)"
  define k3 where "k3 = upd_ep ep (\<lambda>p. p\<lparr>rbr := remove1 e (rbr p)\<rparr>)
      (k2\<lparr>f_ep_links := (f_ep_links k2)(tfile := remove1 e (f_ep_links k2 tfile))\<rparr>)"
  let ?k4 = "ready_effect ep e (ie_revents I AND ev_events ev \<noteq> 0) k2"
  let ?out = "insert_outcome ep tfile e (ie_revents I AND ev_events ev \<noteq> 0) k"
  have tr: "mset (lb_rbtree_insert L e t) = add_mset e (mset t)" for t using T by (simp add: tree_lib_ok_def)
  have "idle ep (fold (ep_ptable_queue_proc e) (ie_wheads I) k)" using i by (simp add: idle_def linked_ok_def)
  then have 1: "idle ep k1" "epi_ep (epis k1 e) = ep" using e(1) by (simp_all add: k1_def fold_hit_idle)
  then have 2: "idle ep k2" "epi_ep (epis k2 e) = ep" "idle ep k3" "epi_ep (epis k3 e) = ep"
    by (simp_all add: k2_def k3_def idle_def linked_ok_def)
  have f1: "rbr (eps k1 ep) = rbr (eps k ep)" "f_ep_links k1 = f_ep_links k" "watches k1 = watches k"
    "ep_user (eps k1 ep) = ep_user (eps k ep)" by (simp_all add: k1_def)
  have f3: "mset (rbr (eps k3 ep)) = mset (rbr (eps k ep))" "f_ep_links k3 = f_ep_links k" "watches k3 = watches k"
    using f1 e(2) tr by (simp_all add: k3_def k2_def remove1_append)
  have "?out (- ENOMEM_code, undo_effect L ep e k1)"
    using undo_gone [OF T 1] f1 by (simp add: insert_outcome_def ENOMEM_code_def)
  moreover have "?out (- EINVAL_code, undo_effect L ep e k3)"
    using undo_gone [OF T 2(3,4)] f3 by (simp add: insert_outcome_def EINVAL_code_def)
  moreover have "?out (0, klog_if pw x (?k4\<lparr>watches := (watches ?k4)(ep_user (eps ?k4 ep) := watches ?k4 (ep_user (eps ?k4 ep)) + 1)\<rparr>))"
    for pw x
    using ready_idle [OF 2(1,2)] f1 tr
    by (auto simp: insert_outcome_def idle_def linked_ok_def k2_def)
  ultimately show ?thesis
    using insert_attached_cases [OF L ns fl, where I = I and e = e and ep = ep and ev = ev and full = full,
        folded k1_def, folded k2_def, folded k3_def] by metis
qed

end
