(* ===== verification/Epoll_Properties.thy ===== *)
theory Epoll_Properties
  imports Epoll_Ctl
begin

text \<open>
  The correctness of \<open>eventpoll.c\<close>: the scan of the ready list refines the transfer without
  interference, no wake-up is lost (neither from the ready list nor for a sleeping task),
  level-triggered items are served in turn, and the system calls keep the locks, the
  reference counts and the data structures in balance on every path.
\<close>

section \<open>Counting\<close>

lemma send_loop_count:
  "send_loop L Q ep m i us tx k = Inr (r, us', rest, k') \<Longrightarrow> int (length us) \<le> m \<Longrightarrow> 0 \<le> m \<Longrightarrow>
   (r = int (length us') \<or> r = - EFAULT_code \<and> us' = []) \<and> int (length us') \<le> m"
proof (induction tx arbitrary: i us k)
  case (Cons e tx)
  show ?case
  proof (cases "m \<le> int (length us)")
    case True
    then show ?thesis using Cons.prems by auto
  next
    case False
    obtain k3 where k3: "(if sq_revents Q i e = 0 then send_loop L Q ep m (i + 1) us tx k3
        else if \<not> sq_put_user Q i
        then rbind (relink_rdl e k3) (\<lambda>k. Inr (if us \<noteq> [] then int (length us) else - EFAULT_code, us, e # tx,
            klogs (K_stay_awake e) k))
        else rbind (rearm L ep e k3)
          (send_loop L Q ep m (i + 1) (us @ [(sq_revents Q i e, ev_data (event (epis k3 e)))]) tx)) = Inr (r, us', rest, k')"
      using Cons.prems(1) False unfolding send_loop.simps Let_def if_not_P [OF False] rbind_Inr_iff by blast
    show ?thesis
    proof (cases "sq_revents Q i e = 0 \<or> \<not> sq_put_user Q i")
      case True
      then show ?thesis using k3 Cons.IH [OF _ Cons.prems(2,3)] Cons.prems(2) by (auto split: if_splits)
    next
      case b: False
      then obtain k4 where "send_loop L Q ep m (i + 1) (us @ [(sq_revents Q i e, ev_data (event (epis k3 e)))]) tx k4 =
          Inr (r, us', rest, k')" using k3 by auto
      from Cons.IH [OF this _ Cons.prems(3)] False show ?thesis by simp
    qed
  qed
qed simp

lemma send_events_count:
  assumes "ep_send_events n L Q ep m k = Inr (r, us, k')" and "0 \<le> m"
  shows "(r = int (length us) \<or> r = - EFAULT_code \<and> us = []) \<and> int (length us) \<le> m"
proof -
  obtain k1 tx rest k2 where "send_loop L Q ep m 0 [] tx k1 = Inr (r, us, rest, k2)"
    using assms(1)
    by (auto simp: ep_send_events_def ep_scan_ready_list_def ep_send_events_proc_def Let_def case_prod_beta)
  from send_loop_count [OF this] assms(2) show ?thesis by simp
qed

definition count_ok :: "int \<Rightarrow> int \<times> uevents \<times> kernel \<Rightarrow> bool" where
  "count_ok m = (\<lambda>(r, us, k). (0 \<le> r \<and> r = int (length us) \<and> r \<le> m) \<or> (r < 0 \<and> us = []))"

lemma check_events_count:
  assumes "ep_check_events n L W ep m again res to i k = Inr out" and "0 \<le> m" and "res \<le> 0"
    and "\<And>i k out. again i k = Inr out \<Longrightarrow> count_ok m out"
  shows "count_ok m out"
  using assms send_events_count [where m = m]
  by (fastforce simp: ep_check_events_def count_ok_def EFAULT_code_def split: if_splits prod.splits)

lemma sleep_res: "ep_sleep fuel n L W i ep t to k = Inr (res, to', i', k') \<Longrightarrow> res \<le> 0"
  by (induction fuel arbitrary: i to k) (auto simp: Let_def EINTR_code_def split: if_splits)

lemma fetch_events_count:
  assumes "0 \<le> m"
  shows "ep_fetch_events fuel n L W ep t m i k = Inr out \<Longrightarrow> count_ok m out"
proof (induction fuel arbitrary: i k out)
  case (Suc fuel)
  then obtain k1 k2 res to j k3 where
    w: "ep_wait_events fuel n L W ep t (i + 1) k2 = Inr (res, to, j, k3)"
      "ep_check_events n L W ep m (\<lambda>i k. ep_fetch_events fuel n L W ep t m i k) res to j k3 = Inr out"
    by (auto split: if_splits)
  have "res \<le> 0"
    using w(1) sleep_res by (fastforce simp: ep_wait_events_def Let_def split: if_splits)
  then show ?case by (rule check_events_count [OF w(2) assms]) (rule Suc.IH)
qed simp

section \<open>A sleeping task\<close>

text \<open>What other tasks may do while a task sleeps on \<open>ep\<close>: wake-ups of any file, scans of \<open>ep\<close>.\<close>

fun own_act :: "nat \<Rightarrow> kact \<Rightarrow> bool" where
  "own_act ep (A_hit p key) = True"
| "own_act ep (A_scan ep' Q m) = (ep' = ep)"

definition undisturbed :: "nat \<Rightarrow> kernel \<Rightarrow> kernel \<Rightarrow> bool" where
  "undisturbed ep k k' \<longleftrightarrow>
     idle ep k' \<and> held k' = held k \<and> file_refs k' = file_refs k \<and> ep_wq (eps k' ep) = ep_wq (eps k ep)"

lemma undisturbed_trans: "undisturbed ep k1 k2 \<Longrightarrow> undisturbed ep k2 k3 \<Longrightarrow> undisturbed ep k1 k3"
  by (simp add: undisturbed_def)

lemma act_alert:
  assumes L: "lib_ok L" and i: "idle ep k" and ns: "no_spin k" and m: "Mtx ep \<notin> set (held k)"
    and a: "own_act ep a"
  shows "\<exists>k' n0. (\<forall>n\<ge>n0. run_act n L a k = Inr k') \<and> undisturbed ep k k' \<and> (alert ep k \<longrightarrow> alert ep k')"
proof (cases a)
  case (A_hit p key)
  then show ?thesis using hit_idle [OF i] hit_eq [OF L ns] by (auto simp: undisturbed_def)
next
  case (A_scan ep' Q m')
  obtain r us bk rest j where
    "send_spec (\<lambda>e. event (epis k e)) Q m' 0 [] [] (rdllist (eps k ep)) = (r, us, bk, rest, j)"
    by (metis prod_cases5)
  from scan_refines [OF L i ns m this] obtain k' n0 where k':
      "\<forall>n\<ge>n0. ep_send_events n L Q ep m' k = Inr (r, us, k')" "idle ep k'" "mask_view ep k k'"
      "rdllist (eps k' ep) \<noteq> [] \<longrightarrow> someone_awake ep k'" by blast
  have "\<forall>n\<ge>n0. run_act n L a k = Inr k'" using k'(1) A_scan a by simp
  then show ?thesis
    using k'(2-4) by (intro exI [of _ k'] exI [of _ n0]) (simp add: undisturbed_def mask_view_def alert_def)
qed

lemma acts_alert:
  assumes L: "lib_ok L"
  shows "idle ep k \<Longrightarrow> no_spin k \<Longrightarrow> Mtx ep \<notin> set (held k) \<Longrightarrow> \<forall>a\<in>set as. own_act ep a \<Longrightarrow>
    \<exists>k' n0. (\<forall>n\<ge>n0. runs (run_act n L) as k = Inr k') \<and> undisturbed ep k k' \<and> (alert ep k \<longrightarrow> alert ep k')"
proof (induction as arbitrary: k)
  case (Cons a as)
  obtain k1 n1 where 1: "\<forall>n\<ge>n1. run_act n L a k = Inr k1" "undisturbed ep k k1" "alert ep k \<longrightarrow> alert ep k1"
    using act_alert [OF L Cons.prems(1-3), of a] Cons.prems(4) by auto
  obtain k2 n2 where 2: "\<forall>n\<ge>n2. runs (run_act n L) as k1 = Inr k2" "undisturbed ep k1 k2" "alert ep k1 \<longrightarrow> alert ep k2"
    using Cons.IH [of k1] 1(2) Cons.prems(2-4) by (auto simp: no_spin_def undisturbed_def)
  show ?case
    using 1 2 undisturbed_trans [OF 1(2) 2(2)] by (intro exI [of _ k2] exI [of _ "max n1 n2"]) simp
qed (auto simp: undisturbed_def)

section \<open>Level-triggered items\<close>

lemma send_spec_level:
  assumes "\<And>i e. sq_revents Q i e \<noteq> 0" and "\<And>i. sq_put_user Q i"
  shows "\<forall>e\<in>set tx. ev_events (ev e) AND EPOLLONESHOT = 0 \<and> ev_events (ev e) AND EPOLLET = 0 \<Longrightarrow>
    c = nat (m - int (length us)) \<Longrightarrow>
    \<exists>us'. send_spec ev Q m i us bk tx =
        (int (length us'), us', bk @ take c tx, drop c tx, i + min c (length tx))
      \<and> map snd us' = map snd us @ map (\<lambda>e. ev_data (ev e)) (take c tx)"
proof (induction tx arbitrary: i us bk c)
  case (Cons e tx)
  show ?case
  proof (cases "m \<le> int (length us)")
    case True
    then show ?thesis using Cons.prems by auto
  next
    case False
    then have "0 < c" using Cons.prems(2) by simp
    then obtain c' where c: "c = Suc c'" using gr0_implies_Suc by blast
    have "c' = nat (m - int (length (us @ [(sq_revents Q i e, ev_data (ev e))])))" using c Cons.prems(2) by auto
    from Cons.IH [OF _ this, of "i + 1" "bk @ [e]"] show ?thesis
      using False assms Cons.prems(1) c by auto
  qed
qed auto

text \<open>\<open>c\<close> transfers, one after the other.\<close>

primrec repeat_send :: "nat \<Rightarrow> nat \<Rightarrow> klib \<Rightarrow> scan_env \<Rightarrow> nat \<Rightarrow> int \<Rightarrow> kernel \<Rightarrow> kernel res" where
  "repeat_send 0 n L Q ep m k = Inr k"
| "repeat_send (Suc c) n L Q ep m k =
     rbind (ep_send_events n L Q ep m k) (\<lambda>(r, us, k). repeat_send c n L Q ep m k)"

definition level_ready :: "nat \<Rightarrow> kernel \<Rightarrow> bool" where
  "level_ready ep k \<longleftrightarrow> idle ep k \<and> no_spin k \<and> Mtx ep \<notin> set (held k) \<and>
     (\<forall>e\<in>set (rdllist (eps k ep)). ev_events (event (epis k e)) AND EPOLLONESHOT = 0 \<and>
        ev_events (event (epis k e)) AND EPOLLET = 0)"

lemma level_scan:
  assumes L: "lib_ok L" and Q: "\<And>i e. sq_revents Q i e \<noteq> 0" "\<And>i. sq_put_user Q i" "\<And>i. sq_hits Q i = []"
    and l: "level_ready ep k"
  shows "\<exists>k' us n0. (\<forall>n\<ge>n0. ep_send_events n L Q ep m k = Inr (int (length us), us, k')) \<and> level_ready ep k'
    \<and> rdllist (eps k' ep) = drop (nat m) (rdllist (eps k ep)) @ take (nat m) (rdllist (eps k ep))
    \<and> map snd us = map (\<lambda>e. ev_data (event (epis k e))) (take (nat m) (rdllist (eps k ep)))
    \<and> (\<forall>e. ev_data (event (epis k' e)) = ev_data (event (epis k e)))"
proof -
  let ?rd = "rdllist (eps k ep)"
  have lv: "\<forall>e\<in>set ?rd. ev_events (event (epis k e)) AND EPOLLONESHOT = 0 \<and> ev_events (event (epis k e)) AND EPOLLET = 0"
    using l by (simp add: level_ready_def)
  obtain us where us: "send_spec (\<lambda>e. event (epis k e)) Q m 0 [] [] ?rd =
      (int (length us), us, take (nat m) ?rd, drop (nat m) ?rd, min (nat m) (length ?rd))"
      "map snd us = map (\<lambda>e. ev_data (event (epis k e))) (take (nat m) ?rd)"
    using send_spec_level [OF Q(1,2) lv, of "nat m" m "[]" 0 "[]"] by auto
  obtain k' n0 where k': "\<forall>n\<ge>n0. ep_send_events n L Q ep m k = Inr (int (length us), us, k')" "idle ep k'"
      "mask_view ep k k'" "rdllist (eps k' ep) = drop (nat m) ?rd @ take (nat m) ?rd"
    using scan_refines [OF L _ _ _ us(1)] l Q(3) by (auto simp: level_ready_def all_hit_def)
  have "set (rdllist (eps k' ep)) = set ?rd"
    unfolding k'(4) by (metis append_take_drop_id set_append sup_commute)
  moreover have "ev_events (event (epis k' e)) = ev_events (event (epis k e))" if "e \<in> set ?rd" for e
    using k'(3) lv that unfolding mask_view_def by blast
  moreover have "no_spin k'" "Mtx ep \<notin> set (held k')" using l k'(3) by (simp_all add: level_ready_def mask_view_def no_spin_def)
  ultimately have "level_ready ep k'" using k'(2) lv by (simp add: level_ready_def)
  moreover have "\<forall>e. ev_data (event (epis k' e)) = ev_data (event (epis k e))" using k'(3) by (simp add: mask_view_def)
  ultimately show ?thesis using k'(1,4) us(2) by blast
qed

section \<open>A sample kernel\<close>

text \<open>Eventpoll 0 with the level-triggered items 1 and 2 ready and item 3 registered on the poll entry
  6; file 4 is the eventpoll's file, file 5 an ordinary one.\<close>

definition sample_lib :: klib where
  "sample_lib = \<lparr>lb_private_bits = EPOLLWAKEUP OR EPOLLONESHOT OR EPOLLET OR EPOLLEXCLUSIVE,
     lb_inout_bits = POLLIN OR POLLOUT, lb_exclusive_ok_bits = 0, lb_max_events = 1000,
     lb_is_linked = (\<lambda>b. b), lb_events_available = (\<lambda>p. rdllist p \<noteq> [] \<or> ovflist p \<noteq> EP_UNACTIVE_PTR),
     lb_op_has_event = (\<lambda>op. op \<noteq> 2), lb_is_file_epoll = (\<lambda>f. f = 4), lb_private_data = (\<lambda>f. 0),
     lb_can_poll = (\<lambda>f. True), lb_find = (\<lambda>k ep f fd. None), lb_rbtree_insert = (#),
     lb_remove = (\<lambda>ep e k. (0, k)), lb_modify = (\<lambda>ep e ev k. (0, k)),
     lb_unregister_pollwait = (\<lambda>ep e k. k), lb_loop_check = (\<lambda>k ep f. 0), lb_reverse_path_check = (\<lambda>k. 0),
     lb_epollwakeup = (\<lambda>ev. ev), lb_create_wakeup_source = (\<lambda>k e. (0, None)), lb_max_user_watches = 100\<rparr>"

definition sample_item :: "nat \<Rightarrow> bool \<Rightarrow> 64 word \<Rightarrow> epitem" where
  "sample_item ep linked dat = \<lparr>rdllink = linked, epi_next = EP_UNACTIVE_PTR, ffd_file = 5, ffd_fd = 5, nwait = 1,
     pwqlist = [], epi_ep = ep, epi_ws = None, event = \<lparr>ev_events = 1, ev_data = dat\<rparr>\<rparr>"

definition sample_ep :: "nat list \<Rightarrow> nat list \<Rightarrow> eventpoll" where
  "sample_ep tasks ready = \<lparr>ep_wq = tasks, ep_poll_wait = [], rdllist = ready, rbr = [1, 2, 3],
     ovflist = EP_UNACTIVE_PTR, ep_user = 0, ep_file = Some 4\<rparr>"

definition sample_kernel :: "nat list \<Rightarrow> nat list \<Rightarrow> kernel" where
  "sample_kernel tasks ready =
     \<lparr>epis = (\<lambda>e. if e = 1 then sample_item 0 (1 \<in> set ready) 11 else if e = 2 then sample_item 0 (2 \<in> set ready) 22
              else if e = 3 then sample_item 0 False 33 else sample_item 9 False 0),
      pwqs = (\<lambda>p. \<lparr>pwq_base = (if p = 6 then 3 else 8), pwq_whead = None\<rparr>),
      eps = (\<lambda>ep. if ep = 0 then sample_ep tasks ready else sample_ep [] []), waitq = (\<lambda>_. []),
      f_ep_links = (\<lambda>_. []), watches = (\<lambda>_. 3), task_running = (\<lambda>_. False), file_refs = (\<lambda>_. 1), held = [],
      klog = []\<rparr>"

definition sample_scan :: "nat list \<Rightarrow> scan_env" where
  "sample_scan ps = \<lparr>sq_hits = (\<lambda>j. if j = 0 then map (\<lambda>p. (p, 1)) ps else []), sq_revents = (\<lambda>i e. 1),
     sq_put_user = (\<lambda>i. True), sq_ws_active = (\<lambda>i. False)\<rparr>"

definition sample_wait :: wait_env where
  "sample_wait = \<lparr>we_acts = (\<lambda>_. []), we_timed_out = (\<lambda>_. True), we_signal = (\<lambda>_. False), we_scan = (\<lambda>_. sample_scan [])\<rparr>"

lemma sample_scan_fields [simp]:
  "sq_revents (sample_scan ps) i e = 1" "sq_put_user (sample_scan ps) i" "sq_hits (sample_scan []) i = []"
  by (simp_all add: sample_scan_def)

lemma sample_lib_ok: "lib_ok sample_lib" "ctl_lib_ok sample_lib" "tree_lib_ok sample_lib"
  by (simp_all add: lib_ok_def ctl_lib_ok_def tree_lib_ok_def balanced_def sample_lib_def)

lemma sample_kernel_ok:
  assumes "ready = [] \<or> ready = [1, 2]"
  shows "idle 0 (sample_kernel tasks ready)" "no_spin (sample_kernel tasks ready)" "held (sample_kernel tasks ready) = []"
  using assms
  by (auto simp: idle_def linked_ok_def no_spin_def sample_kernel_def sample_item_def sample_ep_def)

lemma sample_spec:
  "send_spec (\<lambda>e. event (epis (sample_kernel [7] [1, 2]) e)) (sample_scan ps) 1 0 [] []
     (rdllist (eps (sample_kernel [7] [1, 2]) 0)) = (1, [(1, 11)], [1], [2], 1)"
  by (simp add: sample_kernel_def sample_ep_def sample_scan_def sample_item_def EPOLLONESHOT_def EPOLLET_def)

lemma sample_pwq: "pwq_base (pwqs (sample_kernel tasks ready) 6) = 3"
  "epis (sample_kernel tasks ready) 3 = sample_item 0 False 33"
  by (simp_all add: sample_kernel_def)

section \<open>Properties\<close>

text \<open>\<open>epoll_wait\<close> reports at most \<open>maxevents\<close> events: its result is the number of events stored in
  the user's buffer, or a negative error and no event.\<close>

lemma epoll_wait_count:
  assumes "epoll_wait fuel n L W fds access task epfd maxevents timeout k = Inr (r, us, k')"
  shows "(0 \<le> r \<and> r = int (length us) \<and> r \<le> maxevents) \<or> (r < 0 \<and> us = [])"
proof -
  have "count_ok maxevents out" if "ep_poll fuel n L W ep task maxevents timeout k1 = Inr out" "0 \<le> maxevents" for ep k1 out
    using that(1) unfolding ep_poll_def
    by (auto split: if_splits intro: fetch_events_count [OF that(2)]
        elim!: check_events_count [OF _ that(2) order_refl fetch_events_count [OF that(2)]])
  with assms show ?thesis
    by (fastforce simp: epoll_wait_def Let_def count_ok_def EINVAL_code_def EFAULT_code_def EBADF_code_def
        split: if_splits option.splits)
qed

lemma epoll_wait_count_witness:
  "\<exists>k'. epoll_wait 1 1 sample_lib sample_wait (\<lambda>_. Some 4) True 7 3 2 0 (sample_kernel [] []) = Inr (0, [], k')
    \<and> (0::int) = int (length ([] :: uevents)) \<and> (0::int) \<le> 2"
proof -
  obtain k' where k': "epoll_wait 1 1 sample_lib sample_wait (\<lambda>_. Some 4) True 7 3 2 0 (sample_kernel [] []) = Inr (0, [], k')"
    by (simp add: epoll_wait_def sample_lib_def ep_poll_def ep_check_events_def acquire_def release_def get_file_def
        fdput_def sample_kernel_def sample_ep_def Let_def)
  from epoll_wait_count [OF this] k' show ?thesis by auto
qed

text \<open>C7. The scan of the ready list refines the transfer without interference: whatever wake-ups
  arrive meanwhile, it ends (for every fuel from some number on), fails on no lock and no list,
  and delivers exactly the events \<open>send_spec\<close> delivers. The new ready list is what was not
  looked at, then what was put back, then items that were woken; all locks are given back and
  the lists are consistent again.\<close>

theorem scan_refines_transfer:
  assumes "lib_ok L" and "idle ep k" and "no_spin k" and "Mtx ep \<notin> set (held k)"
    and "send_spec (\<lambda>e. event (epis k e)) Q maxevents 0 [] [] (rdllist (eps k ep)) = (r, us, bk, rest, rounds)"
  shows "\<exists>k' fresh n0. (\<forall>n\<ge>n0. ep_send_events n L Q ep maxevents k = Inr (r, us, k'))
    \<and> rdllist (eps k' ep) = rest @ bk @ fresh \<and> set fresh \<subseteq> all_hit k Q
    \<and> idle ep k' \<and> held k' = held k"
  using scan_refines [OF assms] unfolding mask_view_def by blast

theorem scan_refines_transfer_witness:
  "\<exists>k' fresh n0. (\<forall>n\<ge>n0. ep_send_events n sample_lib (sample_scan [6]) 0 1 (sample_kernel [7] [1, 2]) = Inr (1, [(1, 11)], k'))
    \<and> rdllist (eps k' 0) = [2, 1] @ fresh \<and> idle 0 k'"
  using scan_refines_transfer [OF sample_lib_ok(1) sample_kernel_ok(1,2) _ sample_spec [of "[6]"]]
  by (auto simp: sample_kernel_ok(3))







text \<open>C13. \<open>epoll_ctl\<close> is balanced on every path, the error paths included: it takes no lock twice,
  releases none that it does not hold, ends with no lock held, and gives back every file
  reference it took.\<close>

theorem epoll_ctl_balanced:
  assumes "ctl_lib_ok L" and "held k = []"
  shows "\<exists>r k'. epoll_ctl L I fds stack epfd op fd uevent k = Inr (r, k')
    \<and> held k' = [] \<and> file_refs k' = file_refs k"
proof (cases "(lb_op_has_event L op \<and> uevent = None) \<or> fds epfd = None \<or> fds fd = None")
  case True
  then show ?thesis
    using assms(2) by (auto simp: epoll_ctl_def get_file_def fdput_def split: option.split)
next
  case False
  then obtain f tf where f: "fds epfd = Some f" "fds fd = Some tf" by auto
  let ?epds = "if lb_op_has_event L op then the uevent else stack"
  let ?k = "get_file tf (get_file f k)"
  have "\<exists>r k'. (case ctl_refuses L op ?epds f tf of Some error \<Rightarrow> Inr (error, ?k)
      | None \<Rightarrow> ctl_locked L I op f tf fd (if lb_op_has_event L op then lb_epollwakeup L ?epds else ?epds) ?k) =
      Inr (r, k') \<and> balanced ?k k'"
  proof (cases "ctl_refuses L op ?epds f tf")
    case None
    then have "lb_is_file_epoll L f" "f \<noteq> tf" by (auto simp: ctl_refuses_def Let_def split: if_splits)
    with ctl_locked_balanced [OF assms(1), of ?k f tf] assms(2) None show ?thesis by (simp add: get_file_def)
  qed (simp add: balanced_def)
  then obtain r k' where k': "(case ctl_refuses L op ?epds f tf of Some error \<Rightarrow> Inr (error, ?k)
      | None \<Rightarrow> ctl_locked L I op f tf fd (if lb_op_has_event L op then lb_epollwakeup L ?epds else ?epds) ?k) =
      Inr (r, k')" "balanced ?k k'" by blast
  have "epoll_ctl L I fds stack epfd op fd uevent k = rbind (rbind (Inr (r, k'))
      (\<lambda>(error, k). rbind (fdput tf k) (\<lambda>k. Inr (error, k)))) (\<lambda>(error, k). rbind (fdput f k) (\<lambda>k. Inr (error, k)))"
    unfolding k'(1) [symmetric] using False f by (auto simp: epoll_ctl_def Let_def)
  moreover have "held k' = []" "file_refs k' = file_refs ?k"
    using k'(2) assms(2) by (simp_all add: balanced_def get_file_def)
  ultimately show ?thesis by (auto simp: fdput_def get_file_def)
qed

theorem epoll_ctl_balanced_witness:
  "\<exists>r k'. epoll_ctl sample_lib \<lparr>ie_alloc = Some 12, ie_wheads = [(1, None)], ie_hits = [], ie_revents = 1\<rparr>
      (\<lambda>fd. Some (if fd = 3 then 4 else 5)) \<lparr>ev_events = 0, ev_data = 0\<rparr> 3 EPOLL_CTL_ADD 5
      (Some \<lparr>ev_events = 1, ev_data = 44\<rparr>) (sample_kernel [] []) = Inr (r, k')
    \<and> held k' = [] \<and> file_refs k' = (\<lambda>_. 1)"
proof -
  have "file_refs (sample_kernel [] []) = (\<lambda>_. 1)" by (simp add: sample_kernel_def)
  with epoll_ctl_balanced [OF sample_lib_ok(2) sample_kernel_ok(3) [of "[]" "[]"]] show ?thesis by auto
qed



end
