(* ===== verification/Epoll_Wait.thy ===== *)
theory Epoll_Wait
  imports Epoll_Properties
begin

text \<open>
  \<open>epoll_wait\<close> returns. The loops of \<open>ep_poll\<close> have no bound of their own: the task sleeps until events
  are available, a signal is pending or the time is over, and starts again when the transfer found
  no event although the ready list was not empty. As long as wake-ups arrive whose files have
  nothing to report, this goes on whatever the timeout is, so that the wake-ups are assumed to be
  finitely many (\<open>calm\<close>). Up to then they may be arbitrary, and so may the scans of other tasks.
\<close>

section \<open>Waiting in a calm system\<close>

definition can_wait :: "nat \<Rightarrow> kernel \<Rightarrow> bool" where
  "can_wait ep k \<longleftrightarrow> idle ep k \<and> no_spin k \<and> Mtx ep \<notin> set (held k)"

text \<open>From the moment \<open>N\<close> on nothing happens but that the time is over or a signal is pending.\<close>

definition calm :: "nat \<Rightarrow> nat \<Rightarrow> wait_env \<Rightarrow> bool" where
  "calm ep N W \<longleftrightarrow>
     (\<forall>i. \<forall>a\<in>set (we_acts W i). own_act ep a) \<and>
     (\<forall>i\<ge>N. we_acts W i = [] \<and> (we_timed_out W i \<or> we_signal W i) \<and> (\<forall>j. sq_hits (we_scan W i) j = []))"

lemma idle_fields [simp]:
  "idle ep (k\<lparr>task_running := r\<rparr>) = idle ep k" "idle ep (k\<lparr>held := h\<rparr>) = idle ep k"
  "idle ep (k\<lparr>file_refs := c\<rparr>) = idle ep k" "idle ep (upd_ep ep (\<lambda>p. p\<lparr>ep_wq := q p\<rparr>) k) = idle ep k"
  by (simp_all add: idle_def linked_ok_def)

lemma undisturbed_refl: "idle ep k \<Longrightarrow> undisturbed ep k k"
  by (simp add: undisturbed_def)

lemma calm_acts:
  assumes "lib_ok L" and "calm ep N W" and "can_wait ep k"
  obtains k' n0 where "\<forall>n\<ge>n0. runs (run_act n L) (we_acts W i) k = Inr k'" "undisturbed ep k k'"
    "N \<le> i \<longrightarrow> k' = k"
proof (cases "N \<le> i")
  case True
  then have "we_acts W i = []" using assms(2) by (simp add: calm_def)
  with True assms(3) show ?thesis by (intro that [of 0 k]) (simp_all add: undisturbed_refl can_wait_def)
next
  case False
  have "\<forall>a\<in>set (we_acts W i). own_act ep a" using assms(2) by (simp add: calm_def)
  with acts_alert [OF assms(1)] assms(3) False that show ?thesis unfolding can_wait_def by blast
qed

lemma undisturbed_can_wait: "undisturbed ep k k' \<Longrightarrow> can_wait ep k \<Longrightarrow> can_wait ep k'"
  by (simp add: undisturbed_def can_wait_def no_spin_def)

section \<open>Sleeping\<close>

text \<open>The state of a sleeper: it holds \<open>ep->lock\<close>.\<close>

definition spun :: "nat \<Rightarrow> kernel \<Rightarrow> kernel" where
  "spun ep k = k\<lparr>held := Spin ep # held k\<rparr>"

lemma spun_fields [simp]:
  "eps (spun ep k) = eps k" "epis (spun ep k) = epis k" "held (spun ep k) = Spin ep # held k"
  "file_refs (spun ep k) = file_refs k" "idle ep (spun q k) = idle ep k"
  "release (Spin ep) (spun ep k) = Inr k"
  "upd_ep ep g (spun q k) = spun q (upd_ep ep g k)"
  "(spun ep k)\<lparr>task_running := r\<rparr> = spun ep (k\<lparr>task_running := r\<rparr>)" "task_running (spun ep k) = task_running k"
  by (simp_all add: spun_def release_def)

lemma spin_acquire: "can_wait ep k \<Longrightarrow> acquire (Spin ep) k = Inr (spun ep k)"
  by (simp add: can_wait_def no_spin_def acquire_def spun_def)

lemma running_undisturbed [simp]:
  "undisturbed ep k (k'\<lparr>task_running := r\<rparr>) = undisturbed ep k k'"
  "undisturbed ep (k\<lparr>task_running := r\<rparr>) k' = undisturbed ep k k'"
  by (simp_all add: undisturbed_def)

definition asleep :: "nat \<Rightarrow> kernel \<Rightarrow> kernel" where
  "asleep task k = k\<lparr>task_running := (task_running k)(task := False)\<rparr>"

lemma asleep_fields [simp]:
  "eps (asleep t k) = eps k" "undisturbed ep k (asleep t k') = undisturbed ep k k'"
  "undisturbed ep (asleep t k) k' = undisturbed ep k k'" "can_wait ep (asleep t k) = can_wait ep k"
  by (simp_all add: asleep_def can_wait_def no_spin_def)

definition sleep_ends :: "klib \<Rightarrow> wait_env \<Rightarrow> nat \<Rightarrow> nat \<Rightarrow> nat \<Rightarrow> nat \<Rightarrow> bool \<Rightarrow> kernel \<Rightarrow> bool" where
  "sleep_ends L W N i ep t to k \<longleftrightarrow> (\<exists>f0 n0 res to' j k'.
     (\<forall>fuel\<ge>f0. \<forall>n\<ge>n0. ep_sleep fuel n L W i ep t to (spun ep k) = Inr (res, to', j, spun ep k'))
     \<and> undisturbed ep k k' \<and> i \<le> j \<and> (res = 0 \<and> \<not> to' \<longrightarrow> lb_events_available L (eps k' ep))
     \<and> (N \<le> i \<longrightarrow> eps k' ep = eps k ep))"

lemma sleep_endsI:
  assumes "\<And>fuel n. fl \<le> fuel \<Longrightarrow> nl \<le> n \<Longrightarrow>
      ep_sleep fuel n L W i ep t to (spun ep k) = Inr (res, to', j, spun ep k')"
    and "undisturbed ep k k'" "i \<le> j" "res = 0 \<and> \<not> to' \<Longrightarrow> lb_events_available L (eps k' ep)"
    and "N \<le> i \<Longrightarrow> eps k' ep = eps k ep"
  shows "sleep_ends L W N i ep t to k"
  unfolding sleep_ends_def using assms by blast

lemma sleep_stops:
  assumes "can_wait ep k" and "lb_events_available L (eps k ep) \<or> to \<or> we_signal W i"
  shows "sleep_ends L W N i ep t to k"
proof (rule sleep_endsI [where fl = 1 and nl = 0 and k' = "asleep t k" and j = i and to' = to])
  show "ep_sleep fuel n L W i ep t to (spun ep k) =
      Inr (if lb_events_available L (eps k ep) \<or> to then 0 else - EINTR_code, to, i, spun ep (asleep t k))"
    if "1 \<le> fuel" "0 \<le> n" for fuel n
    using assms(2) that by (cases fuel) (auto simp: asleep_def Let_def)
qed (use assms in \<open>auto simp: can_wait_def undisturbed_refl EINTR_code_def split: if_splits\<close>)

lemma sleep_ends_all:
  assumes L: "lib_ok L" and c: "calm ep N W"
  shows "can_wait ep k \<Longrightarrow> sleep_ends L W N i ep t to k"
proof (induction "(if to then 0 else 1) + (N - i)" arbitrary: i to k rule: less_induct)
  case less
  show ?case
  proof (cases "lb_events_available L (eps k ep) \<or> to \<or> we_signal W i")
    case True
    then show ?thesis by (rule sleep_stops [OF less.prems])
  next
    case False
    obtain k1 n1 where k1: "\<forall>n\<ge>n1. runs (run_act n L) (we_acts W i) (asleep t k) = Inr k1"
        "undisturbed ep (asleep t k) k1" "N \<le> i \<longrightarrow> k1 = asleep t k"
      by (rule calm_acts [OF L c, of "asleep t k" i]) (use less.prems in auto)
    have w: "can_wait ep k1" using undisturbed_can_wait [OF k1(2)] less.prems by simp
    have "(if we_timed_out W i then 0 else 1) + (N - (i + 1)) < (if to then 0 else 1) + (N - i)"
      using False c by (cases "N \<le> i") (auto simp: calm_def)
    from less.hyps [OF this w] obtain f0 n0 res to' j k' where
      r: "\<forall>fuel\<ge>f0. \<forall>n\<ge>n0. ep_sleep fuel n L W (i + 1) ep t (we_timed_out W i) (spun ep k1) = Inr (res, to', j, spun ep k')"
        "undisturbed ep k1 k'" "i + 1 \<le> j" "res = 0 \<and> \<not> to' \<longrightarrow> lb_events_available L (eps k' ep)"
        "N \<le> i + 1 \<longrightarrow> eps k' ep = eps k1 ep" unfolding sleep_ends_def by blast
    show ?thesis
    proof (rule sleep_endsI [where fl = "Suc f0" and nl = "max n0 n1" and k' = k' and j = j and to' = to' and res = res])
      show "ep_sleep fuel n L W i ep t to (spun ep k) = Inr (res, to', j, spun ep k')"
        if "Suc f0 \<le> fuel" "max n0 n1 \<le> n" for fuel n
        using that False k1(1) r(1) spin_acquire [OF w] by (cases fuel) (auto simp: asleep_def Let_def)
      show "undisturbed ep k k'" using undisturbed_trans [OF k1(2) r(2)] by simp
    qed (use r k1(3) in auto)
  qed
qed

lemma wait_ends:
  assumes L: "lib_ok L" and c: "calm ep N W" and w: "can_wait ep k" and t: "t \<notin> set (ep_wq (eps k ep))"
  shows "\<exists>f0 n0 res to j k'.
    (\<forall>fuel\<ge>f0. \<forall>n\<ge>n0. ep_wait_events fuel n L W ep t i (spun ep k) = Inr (res, to, j, spun ep k'))
    \<and> undisturbed ep k k' \<and> i \<le> j \<and> (N \<le> i \<longrightarrow> rdllist (eps k' ep) = rdllist (eps k ep))"
proof (cases "lb_events_available L (eps k ep)")
  case True
  then show ?thesis
    using w by (intro exI [of _ 0] exI [of _ False] exI [of _ i] exI [of _ k])
      (simp add: ep_wait_events_def undisturbed_refl can_wait_def)
next
  case False
  let ?k = "upd_ep ep (\<lambda>p. p\<lparr>ep_wq := ep_wq p @ [t]\<rparr>) k"
  have "can_wait ep ?k" using w by (simp add: can_wait_def no_spin_def)
  from sleep_ends_all [OF L c this, of i t False] obtain f0 n0 res to j k' where
    r: "\<forall>fuel\<ge>f0. \<forall>n\<ge>n0. ep_sleep fuel n L W i ep t False (spun ep ?k) = Inr (res, to, j, spun ep k')"
      "undisturbed ep ?k k'" "i \<le> j" "N \<le> i \<longrightarrow> eps k' ep = eps ?k ep" unfolding sleep_ends_def by blast
  let ?k' = "(upd_ep ep (\<lambda>p. p\<lparr>ep_wq := remove1 t (ep_wq p)\<rparr>) k')
    \<lparr>task_running := (task_running k')(t := True)\<rparr>"
  have "\<forall>fuel\<ge>f0. \<forall>n\<ge>n0. ep_wait_events fuel n L W ep t i (spun ep k) = Inr (res, to, j, spun ep ?k')"
    using r(1) False by (simp add: ep_wait_events_def Let_def)
  moreover have "undisturbed ep k ?k'"
    using r(2) t by (simp add: undisturbed_def remove1_append)
  ultimately show ?thesis using r(3,4) by (intro exI [of _ f0] exI [of _ n0] exI [of _ res] exI [of _ to] exI [of _ j] exI [of _ ?k']) simp
qed

section \<open>Transferring and trying again\<close>

lemma send_spec_none:
  "send_spec ev Q m i [] bk tx = (0, us, bk', rest, j) \<Longrightarrow> 0 < m \<Longrightarrow> bk' = bk \<and> rest = [] \<and> us = []"
proof (induction tx arbitrary: i)
  case (Cons e tx)
  have "r \<noteq> 0" if "send_spec ev Q m i us bk tx = (r, us', bk', rest, j)" "us \<noteq> []" for i us bk tx r us' bk' rest j
    using that by (induction ev Q m i us bk tx rule: send_spec.induct) (auto split: if_splits)
  from this [of "i + 1" "[(sq_revents Q i e, ev_data (ev e))]"] Cons show ?case
    by (force simp: EFAULT_code_def split: if_splits)
qed simp

lemma calm_scan:
  assumes L: "lib_ok L" and w: "can_wait ep k" and m: "0 < m"
  obtains r us k' n0 where "\<forall>n\<ge>n0. ep_send_events n L Q ep m k = Inr (r, us, k')" "undisturbed ep k k'"
    "r = 0 \<and> (\<forall>j. sq_hits Q j = []) \<longrightarrow> rdllist (eps k' ep) = []"
proof -
  obtain r us bk rest j where
    s: "send_spec (\<lambda>e. event (epis k e)) Q m 0 [] [] (rdllist (eps k ep)) = (r, us, bk, rest, j)"
    by (metis prod_cases5)
  have "idle ep k" "no_spin k" "Mtx ep \<notin> set (held k)" using w by (simp_all add: can_wait_def)
  from scan_refines [OF L this s] obtain k' fresh n0 where k':
      "\<forall>n\<ge>n0. ep_send_events n L Q ep m k = Inr (r, us, k')" "idle ep k'" "mask_view ep k k'"
      "rdllist (eps k' ep) = rest @ bk @ fresh" "set fresh \<subseteq> all_hit k Q" by blast
  have "r = 0 \<and> (\<forall>j. sq_hits Q j = []) \<longrightarrow> rdllist (eps k' ep) = []"
    using s send_spec_none [OF _ m] k'(4,5) by (fastforce simp: all_hit_def)
  with k'(1-3) show ?thesis by (intro that [of n0 r us k']) (simp_all add: undisturbed_def mask_view_def)
qed

lemma check_ends:
  assumes L: "lib_ok L" and c: "calm ep N W" and w: "can_wait ep k" and m: "0 < m"
  obtains (returns) n0 r us k' where "\<And>n again. n0 \<le> n \<Longrightarrow>
      ep_check_events n L W ep m again res to i (spun ep k) = Inr (r, us, k')" "undisturbed ep k k'"
  | (again) n0 k' where "\<And>n again. n0 \<le> n \<Longrightarrow>
      ep_check_events n L W ep m again res to i (spun ep k) = again (i + 1) k'" "undisturbed ep k k'"
      "rdllist (eps k ep) \<noteq> []" "N \<le> i \<longrightarrow> rdllist (eps k' ep) = []" "\<not> to"
proof (cases "res = 0 \<and> lb_events_available L (eps k ep)")
  case False
  then show ?thesis using w by (intro returns [of 0]) (auto simp: ep_check_events_def Let_def undisturbed_refl can_wait_def)
next
  case True
  then have ne: "rdllist (eps k ep) \<noteq> []" using lib_okD(2) [OF L] w by (simp add: can_wait_def idle_def)
  obtain r us k' n0 where k': "\<forall>n\<ge>n0. ep_send_events n L (we_scan W i) ep m k = Inr (r, us, k')" "undisturbed ep k k'"
      "r = 0 \<and> (\<forall>j. sq_hits (we_scan W i) j = []) \<longrightarrow> rdllist (eps k' ep) = []"
    by (rule calm_scan [OF L w m])
  have h: "N \<le> i \<longrightarrow> (\<forall>j. sq_hits (we_scan W i) j = [])" using c by (simp add: calm_def)
  show ?thesis
  proof (cases "r = 0 \<and> \<not> to")
    case True': True
    with h k'(3) have "N \<le> i \<longrightarrow> rdllist (eps k' ep) = []" by simp
    with True' True k'(1,2) ne show ?thesis by (intro again [of n0 k']) (auto simp: ep_check_events_def Let_def)
  next
    case False
    with True k'(1,2) show ?thesis by (intro returns [of n0 r us k']) (auto simp: ep_check_events_def Let_def)
  qed
qed

definition fetch_ends :: "klib \<Rightarrow> wait_env \<Rightarrow> nat \<Rightarrow> nat \<Rightarrow> int \<Rightarrow> nat \<Rightarrow> kernel \<Rightarrow> bool" where
  "fetch_ends L W ep t m i k \<longleftrightarrow> (\<exists>f0 n0 r us k'.
     (\<forall>fuel\<ge>f0. \<forall>n\<ge>n0. ep_fetch_events fuel n L W ep t m i k = Inr (r, us, k')) \<and> undisturbed ep k k')"

lemma calm_busy_loop:
  assumes L: "lib_ok L" and c: "calm ep N W" and w: "can_wait ep k"
  obtains n1 k1 where "\<forall>n\<ge>n1.
      (if \<not> lb_events_available L (eps k ep) then runs (run_act n L) (we_acts W i) k else Inr k) = Inr k1"
    "undisturbed ep k k1" "N \<le> i \<longrightarrow> k1 = k"
proof (cases "lb_events_available L (eps k ep)")
  case True
  then show ?thesis using w by (intro that [of 0 k]) (simp_all add: undisturbed_refl can_wait_def)
next
  case False
  obtain k1 n1 where "\<forall>n\<ge>n1. runs (run_act n L) (we_acts W i) k = Inr k1" "undisturbed ep k k1" "N \<le> i \<longrightarrow> k1 = k"
    by (rule calm_acts [OF L c w, of i])
  then show ?thesis using False by (intro that [of n1 k1]) simp_all
qed

lemma fetch_ends_all:
  assumes L: "lib_ok L" and c: "calm ep N W" and m: "0 < m"
  shows "can_wait ep k \<Longrightarrow> t \<notin> set (ep_wq (eps k ep)) \<Longrightarrow> fetch_ends L W ep t m i k"
proof (induction "2 * (N - i) + (if rdllist (eps k ep) = [] then 0 else 1)" arbitrary: i k rule: less_induct)
  case less
  obtain n1 k1 where k1: "\<forall>n\<ge>n1.
      (if \<not> lb_events_available L (eps k ep) then runs (run_act n L) (we_acts W i) k else Inr k) = Inr k1"
      "undisturbed ep k k1" "N \<le> i \<longrightarrow> k1 = k"
    by (rule calm_busy_loop [OF L c less.prems(1), of i])
  have w1: "can_wait ep k1" "t \<notin> set (ep_wq (eps k1 ep))"
    using undisturbed_can_wait [OF k1(2) less.prems(1)] k1(2) less.prems(2) by (simp_all add: undisturbed_def)
  obtain f2 n2 res to j k2 where k2: "\<And>fuel n. f2 \<le> fuel \<Longrightarrow> n2 \<le> n \<Longrightarrow>
      ep_wait_events fuel n L W ep t (i + 1) (spun ep k1) = Inr (res, to, j, spun ep k2)"
      "undisturbed ep k1 k2" "i + 1 \<le> j" "N \<le> i + 1 \<longrightarrow> rdllist (eps k2 ep) = rdllist (eps k1 ep)"
    using wait_ends [OF L c w1, of "i + 1"] by blast
  have fetch: "ep_fetch_events (Suc fuel) n L W ep t m i k =
      ep_check_events n L W ep m (\<lambda>i k. ep_fetch_events fuel n L W ep t m i k) res to j (spun ep k2)"
    if "f2 \<le> fuel" "max n1 n2 \<le> n" for fuel n
    using that k1(1) k2(1) [of fuel n] spin_acquire [OF w1(1)] by simp
  note u = undisturbed_trans [OF k1(2) k2(2)]
  have w2: "can_wait ep k2" by (rule undisturbed_can_wait [OF k2(2) w1(1)])
  from L c w2 m show ?case
  proof (cases rule: check_ends [where res = res and to = to and i = j])
    case (returns n0 r us k')
    have "ep_fetch_events fuel n L W ep t m i k = Inr (r, us, k')" if "Suc f2 \<le> fuel" "max n0 (max n1 n2) \<le> n" for fuel n
      using that fetch returns(1) by (cases fuel) simp_all
    then show ?thesis unfolding fetch_ends_def using undisturbed_trans [OF u returns(2)] by blast
  next
    case (again n0 k')
    note u' = undisturbed_trans [OF u again(2)]
    have "2 * (N - (j + 1)) + (if rdllist (eps k' ep) = [] then 0 else 1) <
        2 * (N - i) + (if rdllist (eps k ep) = [] then 0 else 1)"
      using again(3,4) k1(3) k2(3,4) by (cases "N \<le> i") auto
    from less.hyps [OF this] obtain f3 n3 r us k'' where
      f: "\<forall>fuel\<ge>f3. \<forall>n\<ge>n3. ep_fetch_events fuel n L W ep t m (j + 1) k' = Inr (r, us, k'')" "undisturbed ep k' k''"
      using undisturbed_can_wait [OF u' less.prems(1)] u' less.prems(2) by (auto simp: fetch_ends_def undisturbed_def)
    have "ep_fetch_events fuel n L W ep t m i k = Inr (r, us, k'')"
      if "Suc (max f2 f3) \<le> fuel" "max n0 (max n3 (max n1 n2)) \<le> n" for fuel n
      using that fetch again(1) f(1) by (cases fuel) simp_all
    then show ?thesis unfolding fetch_ends_def using undisturbed_trans [OF u' f(2)] by blast
  qed
qed

lemma poll_ends:
  assumes L: "lib_ok L" and c: "calm ep N W" and w: "can_wait ep k" and m: "0 < m" and t: "t \<notin> set (ep_wq (eps k ep))"
  obtains f0 n0 r us k' where "\<And>fuel n. f0 \<le> fuel \<Longrightarrow> n0 \<le> n \<Longrightarrow>
    ep_poll fuel n L W ep t m timeout k = Inr (r, us, k')" "undisturbed ep k k'"
proof (cases "timeout = 0")
  case True
  from L c w m show ?thesis
  proof (cases rule: check_ends [where res = 0 and to = True and i = 0])
    case (returns n0 r us k')
    then show ?thesis
      using True spin_acquire [OF w] by (intro that [of 0 n0 r us k']) (auto simp: ep_poll_def)
  qed simp
next
  case False
  then show ?thesis
    using fetch_ends_all [OF L c m w t, of 0] that unfolding fetch_ends_def ep_poll_def if_not_P [OF False] by blast
qed

section \<open>Property\<close>

text \<open>C8. \<open>epoll_wait\<close> returns: with any wake-ups and any scans of the same eventpoll by other tasks, as long
  as these are finitely many and then the time is over or a signal is pending, the call ends (for
  every fuel from some number on) without a fault. It returns the number of events it stored, at
  most \<open>maxevents\<close>, or an error and no event; no lock stays held, the reference to the file is given
  back, the task has left the wait queue and the lists are consistent.\<close>

theorem epoll_wait_returns:
  assumes "lib_ok L" and "fds epfd = Some f" and "calm (lb_private_data L f) N W"
    and "can_wait (lb_private_data L f) k" and "task \<notin> set (ep_wq (eps k (lb_private_data L f)))"
  shows "\<exists>f0 n0 r us k'. (\<forall>fuel\<ge>f0. \<forall>n\<ge>n0.
      epoll_wait fuel n L W fds access task epfd maxevents timeout k = Inr (r, us, k'))
    \<and> (0 \<le> r \<and> r = int (length us) \<and> r \<le> maxevents \<or> r < 0 \<and> us = [])
    \<and> held k' = held k \<and> file_refs k' = file_refs k
    \<and> ep_wq (eps k' (lb_private_data L f)) = ep_wq (eps k (lb_private_data L f)) \<and> idle (lb_private_data L f) k'"
proof -
  let ?ep = "lb_private_data L f" and ?k = "get_file f k"
  let ?call = "\<lambda>fuel n. epoll_wait fuel n L W fds access task epfd maxevents timeout k"
  have "\<exists>f0 n0 r us k'. (\<forall>fuel\<ge>f0. \<forall>n\<ge>n0. ?call fuel n = Inr (r, us, k')) \<and> undisturbed ?ep k k'"
  proof (cases "0 < maxevents \<and> maxevents \<le> lb_max_events L \<and> access \<and> lb_is_file_epoll L f")
    case False
    have i: "undisturbed ?ep k k" using assms(4) by (simp add: can_wait_def undisturbed_refl)
    have "\<exists>r. \<forall>fuel n. ?call fuel n = Inr (r, [], k)"
      using False assms(2)
      by (auto simp: epoll_wait_def get_file_def fdput_def fun_upd_idem Let_def)
    with i show ?thesis by blast
  next
    case True
    have w: "can_wait ?ep ?k" "task \<notin> set (ep_wq (eps ?k ?ep))"
      using assms(4,5) by (simp_all add: get_file_def can_wait_def no_spin_def)
    from True have m: "0 < maxevents" by simp
    obtain f0 n0 r us k' where p: "\<And>fuel n. f0 \<le> fuel \<Longrightarrow> n0 \<le> n \<Longrightarrow>
        ep_poll fuel n L W ?ep task maxevents timeout ?k = Inr (r, us, k')" "undisturbed ?ep ?k k'"
      using poll_ends [OF assms(1,3) w(1) m w(2)] by blast
    let ?k' = "k'\<lparr>file_refs := (file_refs k')(f := file_refs k' f - 1)\<rparr>"
    have "?call fuel n = Inr (r, us, ?k')" if "f0 \<le> fuel" "n0 \<le> n" for fuel n
      using True assms(2) p(1) [OF that] p(2) by (simp add: epoll_wait_def fdput_def undisturbed_def get_file_def Let_def)
    moreover have "undisturbed ?ep k ?k'" using p(2) by (simp add: undisturbed_def get_file_def)
    ultimately show ?thesis by blast
  qed
  then obtain f0 n0 r us k' where r: "\<forall>fuel\<ge>f0. \<forall>n\<ge>n0. ?call fuel n = Inr (r, us, k')" "undisturbed ?ep k k'" by blast
  then have "?call f0 n0 = Inr (r, us, k')" by blast
  from epoll_wait_count [OF this] r show ?thesis unfolding undisturbed_def by blast
qed

text \<open>Item 3 is woken while the task 7 sleeps; then the time is over.\<close>

definition sample_wake :: wait_env where
  "sample_wake = \<lparr>we_acts = (\<lambda>i. if i = 1 then [A_hit 6 1] else []), we_timed_out = (\<lambda>i. 1 < i),
     we_signal = (\<lambda>_. False), we_scan = (\<lambda>_. sample_scan [])\<rparr>"

theorem epoll_wait_returns_witness:
  "\<exists>f0 n0 r us k'. (\<forall>fuel\<ge>f0. \<forall>n\<ge>n0.
      epoll_wait fuel n sample_lib sample_wake (\<lambda>_. Some 4) True 7 3 2 50 (sample_kernel [] []) = Inr (r, us, k'))
    \<and> (0 \<le> r \<and> r = int (length us) \<and> r \<le> 2 \<or> r < 0 \<and> us = []) \<and> held k' = []"
proof -
  have "calm (lb_private_data sample_lib 4) 2 sample_wake"
    by (simp add: calm_def sample_wake_def sample_lib_def)
  moreover have "can_wait (lb_private_data sample_lib 4) (sample_kernel [] [])"
    using sample_kernel_ok [of "[]" "[]"] by (simp add: can_wait_def sample_lib_def)
  moreover have "7 \<notin> set (ep_wq (eps (sample_kernel [] []) (lb_private_data sample_lib 4)))" "held (sample_kernel [] []) = []"
    by (simp_all add: sample_kernel_def sample_ep_def sample_lib_def)
  ultimately show ?thesis
    using epoll_wait_returns [OF sample_lib_ok(1), of "\<lambda>_. Some 4" 3 4 2 sample_wake "sample_kernel [] []" 7 True 2 50]
    by metis
qed

end
