(* ===== verification/Memcached.thy ===== *)
theory Memcached
  imports Prelude
begin

text \<open>
  The threads of memcached, \<open>memcached.c\<close>: the main thread accepts connections and hands each to a
  worker, through a queue and a byte on a pipe; a worker takes it over and drives it through
  its states.

  The source is an excerpt. What it leaves out (\<open>//....\<close>) and the functions it calls and does not
  contain (the queue operations, the readers and parsers, libevent) are fields of the arguments
  \<open>M\<close>, \<open>D\<close>, \<open>T\<close> and \<open>S\<close>; their calls whose effect lies outside are recorded in \<open>mlog\<close>. A pipe is the list of
  the bytes in it. The loop of \<open>drive_machine\<close> takes fuel, and returns the states it handled.
\<close>

section \<open>Structures\<close>

datatype conn_states =
    conn_listening | conn_new_cmd | conn_waiting | conn_read | conn_parse_cmd | conn_write | conn_nread
  | conn_swallow | conn_closing | conn_closed | conn_max_state

datatype network_transport = tcp_transport | other_transport nat

datatype lock_type = ITEM_LOCK_GRANULAR | ITEM_LOCK_GLOBAL

record cq_item =
  it_sfd :: int
  it_init_state :: conn_states
  it_event_flags :: int
  it_read_buffer_size :: int
  it_transport :: network_transport

record 'q worker =
  th_base :: nat
  th_notify_receive_fd :: int
  th_notify_send_fd :: int
  th_new_conn_queue :: 'q
  th_item_lock_type :: lock_type
  th_conn_yields :: nat

record mconn =
  c_sfd :: int
  c_state :: conn_states
  c_which :: int
  c_ev_flags :: int
  c_transport :: network_transport
  c_rbytes :: int
  c_thread :: "nat option"
  c_next :: "nat option"

datatype mev =
    M_close int | M_reply int string | M_event_add int int nat | M_cqi_free cq_item | M_register
  | M_pthread_create nat | M_loop nat | M_conn_close nat | M_conn_cleanup nat | M_init string
  | M_wait_registration nat | M_fopen string

record 'q mc =
  threads :: "nat \<Rightarrow> 'q worker"
  pipes :: "int \<Rightarrow> char list"
  pipe_out :: "int \<Rightarrow> int"
  mconns :: "nat \<Rightarrow> mconn"
  last_thread :: int
  reserved_fds :: int
  curr_conns :: int
  rejected_conns :: int
  listen_conn :: "nat option"
  mlog :: "mev list"

definition upd_thread :: "nat \<Rightarrow> ('q worker \<Rightarrow> 'q worker) \<Rightarrow> 'q mc \<Rightarrow> 'q mc" where
  "upd_thread t f m = m\<lparr>threads := (threads m)(t := f (threads m t))\<rparr>"

definition upd_mconn :: "nat \<Rightarrow> (mconn \<Rightarrow> mconn) \<Rightarrow> 'q mc \<Rightarrow> 'q mc" where
  "upd_mconn c f m = m\<lparr>mconns := (mconns m)(c := f (mconns m c))\<rparr>"

definition mlogs :: "mev \<Rightarrow> 'q mc \<Rightarrow> 'q mc" where
  "mlogs ev m = m\<lparr>mlog := mlog m @ [ev]\<rparr>"

definition EV_READ :: int where "EV_READ = 2"
definition EV_WRITE :: int where "EV_WRITE = 4"
definition EV_PERSIST :: int where "EV_PERSIST = 16"

text \<open>The settings, the queue of new connections, and what \<open>conn_new\<close> sets up before the part that is
  shown.\<close>

record 'q menv =
  me_cq_new :: 'q
  me_cq_push :: "cq_item \<Rightarrow> 'q \<Rightarrow> 'q"
  me_cq_pop :: "'q \<Rightarrow> cq_item option \<times> 'q"
  me_num_threads :: int
  me_maxconns_fast :: bool
  me_maxconns :: int
  me_data_buffer_size :: int
  me_is_udp :: "network_transport \<Rightarrow> bool"
  me_conn_setup :: "int \<Rightarrow> conn_states \<Rightarrow> int \<Rightarrow> network_transport \<Rightarrow> mconn"

section \<open>Starting the workers\<close>

text \<open>What the calls for the \<open>i\<close>-th thread return.\<close>

record thread_env =
  te_pipe :: "nat \<Rightarrow> (int \<times> int) option"
  te_event_init :: "nat \<Rightarrow> nat option"
  te_event_add :: "nat \<Rightarrow> int"
  te_malloc :: "nat \<Rightarrow> bool"
  te_mutex_init :: "nat \<Rightarrow> int"
  te_cache :: "nat \<Rightarrow> bool"
  te_pthread_create :: "nat \<Rightarrow> int"

definition setup_thread :: "'q menv \<Rightarrow> thread_env \<Rightarrow> nat \<Rightarrow> 'q mc \<Rightarrow> 'q mc res" where
  "setup_thread M T i m =
     (case te_event_init T i of
        None \<Rightarrow> Inl Process_exit
      | Some base \<Rightarrow>
          let m = upd_thread i (\<lambda>th. th\<lparr>th_base := base\<rparr>) m in
          check (te_event_add T i \<noteq> -1) Process_exit
            (let m = mlogs (M_event_add (th_notify_receive_fd (threads m i)) (EV_READ + EV_PERSIST) base) m in
             check (te_malloc T i) Process_exit
               (let m = upd_thread i (\<lambda>th. th\<lparr>th_new_conn_queue := me_cq_new M\<rparr>) m in
                check (te_mutex_init T i = 0) Process_exit
                  (check (te_cache T i) Process_exit (Inr m)))))"

definition init_one :: "'q menv \<Rightarrow> thread_env \<Rightarrow> nat \<Rightarrow> 'q mc \<Rightarrow> 'q mc res" where
  "init_one M T i m =
     (case te_pipe T i of
        None \<Rightarrow> Inl Process_exit
      | Some (rfd, sfd) \<Rightarrow>
          let m = m\<lparr>pipes := (pipes m)(rfd := []), pipe_out := (pipe_out m)(sfd := rfd)\<rparr>;
              m = upd_thread i (\<lambda>th. th\<lparr>th_notify_receive_fd := rfd, th_notify_send_fd := sfd\<rparr>) m
          in rbind (setup_thread M T i m) (\<lambda>m. Inr (m\<lparr>reserved_fds := reserved_fds m + 5\<rparr>)))"

definition create_worker :: "thread_env \<Rightarrow> nat \<Rightarrow> 'q mc \<Rightarrow> 'q mc res" where
  "create_worker T i m = check (te_pthread_create T i = 0) Process_exit (Inr (mlogs (M_pthread_create i) m))"

definition thread_init :: "'q menv \<Rightarrow> thread_env \<Rightarrow> nat \<Rightarrow> 'q mc \<Rightarrow> 'q mc res" where
  "thread_init M T nthreads m =
     rbind (runs (init_one M T) [0..<nthreads] m) (\<lambda>m.
     rbind (runs (create_worker T) [0..<nthreads] m) (\<lambda>m. Inr (mlogs (M_wait_registration nthreads) m)))"

definition worker_libevent :: "nat \<Rightarrow> 'q mc \<Rightarrow> 'q mc" where
  "worker_libevent t m =
     mlogs (M_loop (th_base (threads m t)))
       (mlogs M_register (upd_thread t (\<lambda>th. th\<lparr>th_item_lock_type := ITEM_LOCK_GRANULAR\<rparr>) m))"

section \<open>Handing over connections\<close>

text \<open>\<open>c\<close> is the address of the connection, \<open>added\<close> the result of \<open>event_add\<close>.\<close>

definition conn_new :: "'q menv \<Rightarrow> nat \<Rightarrow> int \<Rightarrow> int \<Rightarrow> conn_states \<Rightarrow> int \<Rightarrow> int \<Rightarrow> network_transport \<Rightarrow> nat
    \<Rightarrow> 'q mc \<Rightarrow> nat option \<times> 'q mc" where
  "conn_new M c added sfd init_state event_flags read_buffer_size transport base m =
     (let m = upd_mconn c (\<lambda>_. (me_conn_setup M sfd init_state read_buffer_size transport)
                \<lparr>c_ev_flags := event_flags\<rparr>) m
      in if added = -1 then (None, m) else (Some c, mlogs (M_event_add sfd event_flags base) m))"

text \<open>\<open>dispatch_conn_new\<close> queues the item of the worker whose turn it is and then writes to the pipe of that
  worker. Other threads can act between the two, so each half has its definition. \<open>alloc\<close> and
  \<open>written\<close> say whether \<open>cqi_new\<close> and the write to the pipe succeed.\<close>

definition dispatch_push :: "'q menv \<Rightarrow> int \<Rightarrow> conn_states \<Rightarrow> int \<Rightarrow> int \<Rightarrow> network_transport \<Rightarrow> 'q mc \<Rightarrow> nat \<times> 'q mc" where
  "dispatch_push M sfd init_state event_flags read_buffer_size transport m =
     (let tid = (last_thread m + 1) mod me_num_threads M;
          t = nat tid;
          m = m\<lparr>last_thread := tid\<rparr>;
          item = \<lparr>it_sfd = sfd, it_init_state = init_state, it_event_flags = event_flags,
            it_read_buffer_size = read_buffer_size, it_transport = transport\<rparr>
      in (t, upd_thread t (\<lambda>th. th\<lparr>th_new_conn_queue := me_cq_push M item (th_new_conn_queue th)\<rparr>) m))"

definition dispatch_notify :: "bool \<Rightarrow> nat \<Rightarrow> 'q mc \<Rightarrow> 'q mc" where
  "dispatch_notify written t m =
     (let rfd = pipe_out m (th_notify_send_fd (threads m t)) in
      if written then m\<lparr>pipes := (pipes m)(rfd := pipes m rfd @ [CHR ''c''])\<rparr> else m)"

definition dispatch_conn_new :: "'q menv \<Rightarrow> bool \<Rightarrow> bool \<Rightarrow> int \<Rightarrow> conn_states \<Rightarrow> int \<Rightarrow> int \<Rightarrow> network_transport
    \<Rightarrow> 'q mc \<Rightarrow> 'q mc" where
  "dispatch_conn_new M alloc written sfd init_state event_flags read_buffer_size transport m =
     (if \<not> alloc then mlogs (M_close sfd) m
      else let (t, m) = dispatch_push M sfd init_state event_flags read_buffer_size transport m
           in dispatch_notify written t m)"

text \<open>\<open>stack\<close> is the byte of \<open>buf\<close> before the call.\<close>

definition read_notify :: "int \<Rightarrow> char \<Rightarrow> 'q mc \<Rightarrow> char \<times> 'q mc" where
  "read_notify fd stack m =
     (case pipes m fd of
        [] \<Rightarrow> (stack, m)
      | b # bs \<Rightarrow> (b, m\<lparr>pipes := (pipes m)(fd := bs)\<rparr>))"

definition take_over :: "'q menv \<Rightarrow> nat \<Rightarrow> int \<Rightarrow> nat \<Rightarrow> cq_item \<Rightarrow> 'q mc \<Rightarrow> 'q mc res" where
  "take_over M c added t item m =
     (let (r, m) = conn_new M c added (it_sfd item) (it_init_state item) (it_event_flags item)
            (it_read_buffer_size item) (it_transport item) (th_base (threads m t)) m in
      rbind (case r of
               None \<Rightarrow> check (\<not> me_is_udp M (it_transport item)) Process_exit (Inr (mlogs (M_close (it_sfd item)) m))
             | Some c \<Rightarrow> Inr (upd_mconn c (\<lambda>co. co\<lparr>c_thread := Some t\<rparr>) m))
        (\<lambda>m. Inr (mlogs (M_cqi_free item) m)))"

text \<open>The read of the notification and the \<open>switch\<close> over the byte that was read are two steps as well.\<close>

definition handle_notify :: "'q menv \<Rightarrow> nat \<Rightarrow> int \<Rightarrow> nat \<Rightarrow> char \<Rightarrow> 'q mc \<Rightarrow> 'q mc res" where
  "handle_notify M c added t b m =
     (if b = CHR ''c''
      then (case me_cq_pop M (th_new_conn_queue (threads m t)) of
              (None, q) \<Rightarrow> Inr (upd_thread t (\<lambda>th. th\<lparr>th_new_conn_queue := q\<rparr>) m)
            | (Some item, q) \<Rightarrow> take_over M c added t item (upd_thread t (\<lambda>th. th\<lparr>th_new_conn_queue := q\<rparr>) m))
      else if b = CHR ''l''
      then Inr (mlogs M_register (upd_thread t (\<lambda>th. th\<lparr>th_item_lock_type := ITEM_LOCK_GRANULAR\<rparr>) m))
      else if b = CHR ''g''
      then Inr (mlogs M_register (upd_thread t (\<lambda>th. th\<lparr>th_item_lock_type := ITEM_LOCK_GLOBAL\<rparr>) m))
      else Inr m)"

definition thread_libevent_process :: "'q menv \<Rightarrow> nat \<Rightarrow> int \<Rightarrow> char \<Rightarrow> nat \<Rightarrow> 'q mc \<Rightarrow> 'q mc res" where
  "thread_libevent_process M c added stack t m =
     (let (b, m) = read_notify (th_notify_receive_fd (threads m t)) stack m in handle_notify M c added t b m)"

section \<open>The state machine of a connection\<close>

datatype try_read_result = READ_NO_DATA_RECEIVED | READ_DATA_RECEIVED | READ_ERROR | READ_MEMORY_ERROR

text \<open>\<open>dr_accept\<close> is \<open>accept\<close> with the handling of its errors that the excerpt leaves out (\<open>None\<close> when that
  ends the case), \<open>dr_omitted\<close> the cases whose code is left out, with whether they set \<open>stop\<close>.\<close>

record 'q drive_env =
  dr_accept :: "nat \<Rightarrow> 'q mc \<Rightarrow> int option \<times> 'q mc"
  dr_dispatch :: "bool \<times> bool"
  dr_set_state :: "nat \<Rightarrow> conn_states \<Rightarrow> 'q mc \<Rightarrow> 'q mc"
  dr_try_read :: "nat \<Rightarrow> 'q mc \<Rightarrow> try_read_result \<times> 'q mc"
  dr_try_command :: "nat \<Rightarrow> 'q mc \<Rightarrow> int \<times> 'q mc"
  dr_reset_cmd :: "nat \<Rightarrow> 'q mc \<Rightarrow> 'q mc"
  dr_update_event :: "nat \<Rightarrow> int \<Rightarrow> 'q mc \<Rightarrow> bool \<times> 'q mc"
  dr_omitted :: "conn_states \<Rightarrow> nat \<Rightarrow> 'q mc \<Rightarrow> bool \<times> 'q mc"

definition dr_listening :: "'q menv \<Rightarrow> 'q drive_env \<Rightarrow> nat \<Rightarrow> 'q mc \<Rightarrow> bool \<times> 'q mc" where
  "dr_listening M D c m =
     (case dr_accept D c m of
        (None, m) \<Rightarrow> (True, m)
      | (Some sfd, m) \<Rightarrow>
          if me_maxconns_fast M \<and> me_maxconns M - 1 \<le> curr_conns m + reserved_fds m
          then let m = mlogs (M_close sfd) (mlogs (M_reply sfd (''ERROR Too many open connections'' @ [CHR 0x0D, CHR 0x0A])) m)
               in (True, m\<lparr>rejected_conns := rejected_conns m + 1\<rparr>)
          else (True, dispatch_conn_new M (fst (dr_dispatch D)) (snd (dr_dispatch D)) sfd conn_new_cmd
                 (EV_READ + EV_PERSIST) (me_data_buffer_size M) tcp_transport m))"

definition dr_read :: "'q drive_env \<Rightarrow> nat \<Rightarrow> 'q mc \<Rightarrow> 'q mc" where
  "dr_read D c m =
     (case dr_try_read D c m of
        (READ_NO_DATA_RECEIVED, m) \<Rightarrow> dr_set_state D c conn_waiting m
      | (READ_DATA_RECEIVED, m) \<Rightarrow> dr_set_state D c conn_parse_cmd m
      | (READ_ERROR, m) \<Rightarrow> dr_set_state D c conn_closing m
      | (READ_MEMORY_ERROR, m) \<Rightarrow> m)"

definition dr_parse :: "'q drive_env \<Rightarrow> nat \<Rightarrow> 'q mc \<Rightarrow> 'q mc" where
  "dr_parse D c m =
     (case dr_try_command D c m of (r, m) \<Rightarrow> if r = 0 then dr_set_state D c conn_waiting m else m)"

definition dr_new_cmd :: "'q drive_env \<Rightarrow> nat \<Rightarrow> int \<Rightarrow> 'q mc \<Rightarrow> (bool \<times> 'q mc) res" where
  "dr_new_cmd D c nreqs m =
     (if 0 \<le> nreqs then Inr (False, dr_reset_cmd D c m)
      else
        case c_thread (mconns m c) of
          None \<Rightarrow> Inl Null_dereference
        | Some t \<Rightarrow>
            let m = upd_thread t (\<lambda>th. th\<lparr>th_conn_yields := th_conn_yields th + 1\<rparr>) m in
            Inr (if 0 < c_rbytes (mconns m c)
                 then (case dr_update_event D c (EV_WRITE + EV_PERSIST) m of
                         (True, m) \<Rightarrow> (True, m)
                       | (False, m) \<Rightarrow> (False, dr_set_state D c conn_closing m))
                 else (True, m)))"

definition dr_closing :: "'q menv \<Rightarrow> nat \<Rightarrow> 'q mc \<Rightarrow> 'q mc" where
  "dr_closing M c m =
     (if me_is_udp M (c_transport (mconns m c)) then mlogs (M_conn_cleanup c) m else mlogs (M_conn_close c) m)"

text \<open>One turn of the loop: the new value of \<open>nreqs\<close>, whether to stop, and the state.\<close>

definition drive_one :: "'q menv \<Rightarrow> 'q drive_env \<Rightarrow> nat \<Rightarrow> int \<Rightarrow> 'q mc \<Rightarrow> (int \<times> bool \<times> 'q mc) res" where
  "drive_one M D c nreqs m =
     (case c_state (mconns m c) of
        conn_listening \<Rightarrow> Inr (nreqs, dr_listening M D c m)
      | conn_read \<Rightarrow> Inr (nreqs, False, dr_read D c m)
      | conn_parse_cmd \<Rightarrow> Inr (nreqs, False, dr_parse D c m)
      | conn_new_cmd \<Rightarrow> rbind (dr_new_cmd D c (nreqs - 1) m) (\<lambda>r. Inr (nreqs - 1, r))
      | conn_closing \<Rightarrow> Inr (nreqs, True, dr_closing M c m)
      | conn_closed \<Rightarrow> Inl Process_exit
      | conn_max_state \<Rightarrow> Inl Assertion_failed
      | s \<Rightarrow> Inr (nreqs, dr_omitted D s c m))"

primrec drive_machine :: "nat \<Rightarrow> 'q menv \<Rightarrow> 'q drive_env \<Rightarrow> nat \<Rightarrow> int \<Rightarrow> conn_states list \<Rightarrow> 'q mc
    \<Rightarrow> (conn_states list \<times> 'q mc) res" where
  "drive_machine 0 M D c nreqs seen m = Inl Out_of_fuel"
| "drive_machine (Suc n) M D c nreqs seen m =
     rbind (drive_one M D c nreqs m) (\<lambda>(nreqs, stop, m').
       let seen = seen @ [c_state (mconns m c)]
       in if stop then Inr (seen, m') else drive_machine n M D c nreqs seen m')"

definition event_handler :: "nat \<Rightarrow> 'q menv \<Rightarrow> 'q drive_env \<Rightarrow> int \<Rightarrow> int \<Rightarrow> int \<Rightarrow> nat \<Rightarrow> 'q mc
    \<Rightarrow> (conn_states list \<times> 'q mc) res" where
  "event_handler n M D nreqs fd which c m =
     (let m = upd_mconn c (\<lambda>co. co\<lparr>c_which := which\<rparr>) m in
      if fd \<noteq> c_sfd (mconns m c) then Inr ([], mlogs (M_conn_close c) m)
      else drive_machine n M D c nreqs [] m)"

section \<open>The main thread\<close>

definition server_socket :: "'q menv \<Rightarrow> nat \<Rightarrow> int \<Rightarrow> int \<Rightarrow> network_transport \<Rightarrow> nat \<Rightarrow> 'q mc \<Rightarrow> 'q mc res" where
  "server_socket M c added sfd transport main_base m =
     (case conn_new M c added sfd conn_listening (EV_READ + EV_PERSIST) 1 transport main_base m of
        (None, m) \<Rightarrow> Inl Process_exit
      | (Some c, m) \<Rightarrow> Inr ((upd_mconn c (\<lambda>co. co\<lparr>c_next := listen_conn m\<rparr>) m)\<lparr>listen_conn := Some c\<rparr>))"

text \<open>What the calls of \<open>main\<close> return: \<open>sg_sockets\<close> are the sockets for which \<open>server_sockets\<close> calls
  \<open>server_socket\<close> (the address of the connection, what \<open>event_add\<close> returns, and the descriptor),
  \<open>sg_sockets_result\<close> its result; \<open>sg_retval\<close> is the value that
  \<open>retval\<close> has before.\<close>

record main_env =
  sg_main_base :: nat
  sg_sigignore :: int
  sg_assoc_thread :: int
  sg_slab_reassign :: bool
  sg_slab_thread :: int
  sg_socketpath :: bool
  sg_unix_socket :: int
  sg_port :: int
  sg_portnumber_filename :: "string option"
  sg_sockets :: "(nat \<times> int \<times> int) list"
  sg_sockets_result :: int
  sg_loop :: int
  sg_retval :: int

definition PATH_MAX :: nat where "PATH_MAX = 4096"

definition main_listen :: "'q menv \<Rightarrow> main_env \<Rightarrow> 'q mc \<Rightarrow> 'q mc res" where
  "main_listen M S m =
     (if sg_socketpath S then check (sg_unix_socket S = 0) Process_exit (Inr m)
      else
        let m = (case sg_portnumber_filename S of
                   None \<Rightarrow> m
                 | Some fn \<Rightarrow> mlogs (M_fopen (take (PATH_MAX - 1) (fn @ ''.lck''))) m)
        in if sg_port S \<noteq> 0
           then rbind (runs (\<lambda>(c, added, sfd). server_socket M c added sfd tcp_transport (sg_main_base S))
                         (sg_sockets S) m)
             (\<lambda>m. check (sg_sockets_result S = 0) Process_exit (Inr m))
           else Inr m)"

definition main :: "'q menv \<Rightarrow> thread_env \<Rightarrow> main_env \<Rightarrow> 'q mc \<Rightarrow> (int \<times> 'q mc) res" where
  "main M T S m =
     (let m = fold mlogs [M_init ''stats'', M_init ''assoc'', M_init ''conn'', M_init ''slabs''] m in
      check (sg_sigignore S \<noteq> -1) Process_exit
        (rbind (thread_init M T (nat (me_num_threads M)) m) (\<lambda>m.
         check (sg_assoc_thread S \<noteq> -1) Process_exit
          (check (\<not> (sg_slab_reassign S \<and> sg_slab_thread S = -1)) Process_exit
            (let m = fold mlogs [M_init ''lru_crawler'', M_init ''clock''] m in
             rbind (main_listen M S m) (\<lambda>m.
             Inr (if sg_loop S \<noteq> 0 then 1 else sg_retval S, mlogs (M_loop (sg_main_base S)) m)))))))"

end
