(* ===== verification/Memcached_Properties.thy ===== *)
theory Memcached_Properties
  imports Memcached
begin

text \<open>
  The correctness of the threads of memcached: connections go to the workers in turn, every
  connection is announced once and taken over once, in order, however the threads are
  interleaved, and one event of a connection does a bounded amount of work.
\<close>

section \<open>The queue of new connections\<close>

text \<open>\<open>cq_ok M items\<close>: the queue operations implement a first-in first-out queue, with contents \<open>items\<close>.\<close>

definition cq_ok :: "'q menv \<Rightarrow> ('q \<Rightarrow> cq_item list) \<Rightarrow> bool" where
  "cq_ok M items \<longleftrightarrow>
     items (me_cq_new M) = [] \<and> (\<forall>x q. items (me_cq_push M x q) = items q @ [x]) \<and>
     (\<forall>q. items q = [] \<longrightarrow> fst (me_cq_pop M q) = None \<and> items (snd (me_cq_pop M q)) = []) \<and>
     (\<forall>q x xs. items q = x # xs \<longrightarrow> fst (me_cq_pop M q) = Some x \<and> items (snd (me_cq_pop M q)) = xs)"

lemma cq_okD:
  assumes "cq_ok M items"
  shows "items (me_cq_new M) = []" "items (me_cq_push M x q) = items q @ [x]"
    "items q = y # ys \<Longrightarrow> \<exists>q'. me_cq_pop M q = (Some y, q') \<and> items q' = ys"
  using assms unfolding cq_ok_def by (auto simp: prod_eq_iff)

abbreviation new_items :: "('q \<Rightarrow> cq_item list) \<Rightarrow> nat \<Rightarrow> 'q mc \<Rightarrow> cq_item list" where
  "new_items items t m \<equiv> items (th_new_conn_queue (threads m t))"

lemma mc_ops [simp]:
  "threads (upd_mconn c f m) = threads m" "pipes (upd_mconn c f m) = pipes m" "pipe_out (upd_mconn c f m) = pipe_out m"
  "last_thread (upd_mconn c f m) = last_thread m"
  "threads (mlogs ev m) = threads m" "pipes (mlogs ev m) = pipes m" "pipe_out (mlogs ev m) = pipe_out m"
  "last_thread (mlogs ev m) = last_thread m"
  "threads (upd_thread t g m) = (threads m)(t := g (threads m t))" "pipes (upd_thread t g m) = pipes m"
  "pipe_out (upd_thread t g m) = pipe_out m" "last_thread (upd_thread t g m) = last_thread m"
  "mconns (upd_thread t g m) = mconns m" "mconns (mlogs ev m) = mconns m"
  "mconns (upd_mconn c f m) = (mconns m)(c := f (mconns m c))"
  by (simp_all add: upd_mconn_def mlogs_def upd_thread_def)

section \<open>Hand-over under any interleaving\<close>

text \<open>The state of a run. Next to the server it has where each thread stands: \<open>ho_main\<close> is the worker for which
  the main thread has queued a connection without having written to its pipe yet, \<open>ho_read\<close> the
  byte that a worker has read without having looked into its queue yet. The histories say what
  was dispatched to a worker, what it has taken from its queue, and how many of the writes to its
  pipe failed.\<close>

record 'q handover =
  ho_mc :: "'q mc"
  ho_main :: "nat option"
  ho_read :: "nat \<Rightarrow> char option"
  ho_dispatched :: "nat \<Rightarrow> cq_item list"
  ho_taken :: "nat \<Rightarrow> cq_item list"
  ho_lost :: "nat \<Rightarrow> nat"

abbreviation ho_pipe :: "nat \<Rightarrow> 'q handover \<Rightarrow> char list" where
  "ho_pipe t h \<equiv> pipes (ho_mc h) (th_notify_receive_fd (threads (ho_mc h) t))"

abbreviation ho_queue :: "('q \<Rightarrow> cq_item list) \<Rightarrow> nat \<Rightarrow> 'q handover \<Rightarrow> cq_item list" where
  "ho_queue items t h \<equiv> new_items items t (ho_mc h)"

inductive mc_step :: "'q menv \<Rightarrow> 'q handover \<Rightarrow> 'q handover \<Rightarrow> bool" for M where
  mc_push: "ho_main h = None \<Longrightarrow> dispatch_push M sfd st fl sz tr (ho_mc h) = (t, m) \<Longrightarrow>
    item = \<lparr>it_sfd = sfd, it_init_state = st, it_event_flags = fl, it_read_buffer_size = sz, it_transport = tr\<rparr> \<Longrightarrow>
    mc_step M h (h\<lparr>ho_mc := m, ho_main := Some t, ho_dispatched := (ho_dispatched h)(t := ho_dispatched h t @ [item])\<rparr>)"
| mc_refuse: "ho_main h = None \<Longrightarrow> mc_step M h (h\<lparr>ho_mc := dispatch_conn_new M False w sfd st fl sz tr (ho_mc h)\<rparr>)"
| mc_notify: "ho_main h = Some t \<Longrightarrow> mc_step M h (h\<lparr>ho_mc := dispatch_notify True t (ho_mc h), ho_main := None\<rparr>)"
| mc_notify_fails: "ho_main h = Some t \<Longrightarrow>
    mc_step M h (h\<lparr>ho_mc := dispatch_notify False t (ho_mc h), ho_main := None, ho_lost := (ho_lost h)(t := Suc (ho_lost h t))\<rparr>)"
| mc_read: "t < nat (me_num_threads M) \<Longrightarrow> ho_read h t = None \<Longrightarrow> ho_pipe t h \<noteq> [] \<Longrightarrow>
    read_notify (th_notify_receive_fd (threads (ho_mc h) t)) stack (ho_mc h) = (b, m) \<Longrightarrow>
    mc_step M h (h\<lparr>ho_mc := m, ho_read := (ho_read h)(t := Some b)\<rparr>)"
| mc_handle: "t < nat (me_num_threads M) \<Longrightarrow> ho_read h t = Some b \<Longrightarrow> handle_notify M c added t b (ho_mc h) = Inr m \<Longrightarrow>
    mc_step M h (h\<lparr>ho_mc := m, ho_read := (ho_read h)(t := None), ho_taken := (ho_taken h)(t := ho_taken h t @
      (case fst (me_cq_pop M (th_new_conn_queue (threads (ho_mc h) t))) of None \<Rightarrow> [] | Some item \<Rightarrow> [item]))\<rparr>)"

definition fds_ok :: "nat \<Rightarrow> 'q mc \<Rightarrow> bool" where
  "fds_ok n m \<longleftrightarrow>
     (\<forall>t<n. pipe_out m (th_notify_send_fd (threads m t)) = th_notify_receive_fd (threads m t)) \<and>
     (\<forall>t<n. \<forall>u<n. t \<noteq> u \<longrightarrow> th_notify_receive_fd (threads m t) \<noteq> th_notify_receive_fd (threads m u))"

text \<open>What holds for worker \<open>t\<close> between any two steps. Every connection in its queue is accounted for: it has a
  byte in the pipe, or it is the one that the main thread is about to announce, or the one that
  the worker is about to take, or its announcement failed.\<close>

definition worker_ok :: "('q \<Rightarrow> cq_item list) \<Rightarrow> nat \<Rightarrow> 'q handover \<Rightarrow> bool" where
  "worker_ok items t h \<longleftrightarrow>
     ho_dispatched h t = ho_taken h t @ ho_queue items t h \<and>
     (\<exists>p. ho_pipe t h = replicate p (CHR ''c'') \<and>
        length (ho_queue items t h) = p + of_bool (ho_main h = Some t) + of_bool (ho_read h t \<noteq> None) + ho_lost h t) \<and>
     ho_read h t \<in> {None, Some (CHR ''c'')}"

definition mc_inv :: "'q menv \<Rightarrow> ('q \<Rightarrow> cq_item list) \<Rightarrow> 'q handover \<Rightarrow> bool" where
  "mc_inv M items h \<longleftrightarrow>
     0 < me_num_threads M \<and> fds_ok (nat (me_num_threads M)) (ho_mc h) \<and>
     (\<forall>t. ho_main h = Some t \<longrightarrow> t < nat (me_num_threads M)) \<and>
     (\<forall>t<nat (me_num_threads M). worker_ok items t h)"

text \<open>The state after \<open>thread_init\<close>, when \<open>pipe\<close> returned descriptors that were not in use.\<close>

definition ho_start :: "'q mc \<Rightarrow> 'q handover" where
  "ho_start m = \<lparr>ho_mc = m, ho_main = None, ho_read = (\<lambda>_. None), ho_dispatched = (\<lambda>_. []), ho_taken = (\<lambda>_. []),
     ho_lost = (\<lambda>_. 0)\<rparr>"

definition mc_start :: "'q menv \<Rightarrow> ('q \<Rightarrow> cq_item list) \<Rightarrow> 'q handover \<Rightarrow> bool" where
  "mc_start M items h \<longleftrightarrow>
     cq_ok M items \<and> 0 < me_num_threads M \<and> last_thread (ho_mc h) = -1 \<and> h = ho_start (ho_mc h) \<and>
     (\<exists>T m0. thread_init M T (nat (me_num_threads M)) m0 = Inr (ho_mc h) \<and>
        (\<forall>i j a b a' b'. i \<noteq> j \<longrightarrow> te_pipe T i = Some (a, b) \<longrightarrow> te_pipe T j = Some (a', b') \<longrightarrow> a \<noteq> a' \<and> b \<noteq> b'))"

lemma mc_invD:
  assumes "mc_inv M items h" and "t < nat (me_num_threads M)"
  shows "worker_ok items t h" "pipe_out (ho_mc h) (th_notify_send_fd (threads (ho_mc h) t)) = th_notify_receive_fd (threads (ho_mc h) t)"
    "u < nat (me_num_threads M) \<Longrightarrow> u \<noteq> t \<Longrightarrow>
      th_notify_receive_fd (threads (ho_mc h) u) \<noteq> th_notify_receive_fd (threads (ho_mc h) t)"
  using assms by (auto simp: mc_inv_def fds_ok_def)

lemma push_inv:
  assumes cq: "cq_ok M items" and inv: "mc_inv M items h" and main: "ho_main h = None"
    and p: "dispatch_push M sfd st fl sz tr (ho_mc h) = (t, m)"
    and item: "item = \<lparr>it_sfd = sfd, it_init_state = st, it_event_flags = fl, it_read_buffer_size = sz, it_transport = tr\<rparr>"
  shows "mc_inv M items (h\<lparr>ho_mc := m, ho_main := Some t, ho_dispatched := (ho_dispatched h)(t := ho_dispatched h t @ [item])\<rparr>)"
    (is "mc_inv M items ?h")
proof -
  let ?n = "nat (me_num_threads M)"
  have n: "0 < me_num_threads M" using inv by (simp add: mc_inv_def)
  have t: "t = nat ((last_thread (ho_mc h) + 1) mod me_num_threads M)" using p by (auto simp: dispatch_push_def Let_def)
  then have tn: "t < ?n" using n by (simp add: nat_less_iff)
  have m: "threads m = (threads (ho_mc h))(t := (threads (ho_mc h) t)\<lparr>th_new_conn_queue :=
        me_cq_push M item (th_new_conn_queue (threads (ho_mc h) t))\<rparr>)"
      "pipes m = pipes (ho_mc h)" "pipe_out m = pipe_out (ho_mc h)"
    using p by (auto simp: dispatch_push_def Let_def item)
  have "worker_ok items u ?h" if "u < ?n" for u
    using mc_invD(1) [OF inv that] main by (auto simp: worker_ok_def m cq_okD(2) [OF cq])
  moreover have "fds_ok ?n m" using inv by (auto simp: mc_inv_def fds_ok_def m)
  ultimately show ?thesis using n tn by (simp add: mc_inv_def)
qed

lemma notify_inv:
  assumes inv: "mc_inv M items h" and main: "ho_main h = Some t"
  shows "mc_inv M items (h\<lparr>ho_mc := dispatch_notify True t (ho_mc h), ho_main := None\<rparr>)" (is "mc_inv M items ?h")
proof -
  let ?n = "nat (me_num_threads M)"
  have tn: "t < ?n" using inv main by (simp add: mc_inv_def)
  have "worker_ok items u ?h" if "u < ?n" for u
  proof (cases "u = t")
    case True
    obtain p where "ho_pipe t h @ ''c'' = replicate (Suc p) (CHR ''c'')"
        "length (ho_queue items t h) = Suc p + of_bool (ho_read h t \<noteq> None) + ho_lost h t"
      using mc_invD(1) [OF inv tn] main by (auto simp: worker_ok_def replicate_append_same)
    then show ?thesis
      using mc_invD(1,2) [OF inv tn] True unfolding worker_ok_def
      by (intro conjI exI [of _ "Suc p"]) (simp_all add: dispatch_notify_def Let_def)
  next
    case False
    then show ?thesis
      using mc_invD(1) [OF inv that] mc_invD(2) [OF inv tn] mc_invD(3) [OF inv tn that] main
      by (simp add: worker_ok_def dispatch_notify_def Let_def)
  qed
  then show ?thesis using inv by (simp add: mc_inv_def fds_ok_def dispatch_notify_def Let_def)
qed

lemma notify_fails_inv:
  assumes inv: "mc_inv M items h" and main: "ho_main h = Some t"
  shows "mc_inv M items (h\<lparr>ho_mc := dispatch_notify False t (ho_mc h), ho_main := None,
    ho_lost := (ho_lost h)(t := Suc (ho_lost h t))\<rparr>)" (is "mc_inv M items ?h")
proof -
  have "worker_ok items u ?h" if "u < nat (me_num_threads M)" for u
    using mc_invD(1) [OF inv that] main by (auto simp: worker_ok_def dispatch_notify_def)
  then show ?thesis using inv by (simp add: mc_inv_def fds_ok_def dispatch_notify_def Let_def)
qed

lemma read_inv:
  assumes inv: "mc_inv M items h" and t: "t < nat (me_num_threads M)" "ho_read h t = None" "ho_pipe t h \<noteq> []"
    and r: "read_notify (th_notify_receive_fd (threads (ho_mc h) t)) stack (ho_mc h) = (b, m)"
  shows "mc_inv M items (h\<lparr>ho_mc := m, ho_read := (ho_read h)(t := Some b)\<rparr>)" (is "mc_inv M items ?h")
proof -
  let ?fd = "th_notify_receive_fd (threads (ho_mc h) t)"
  obtain p where p: "ho_pipe t h = replicate p (CHR ''c'')"
      "length (ho_queue items t h) = p + of_bool (ho_main h = Some t) + ho_lost h t"
    using mc_invD(1) [OF inv t(1)] t(2) by (auto simp: worker_ok_def)
  then obtain q where q: "p = Suc q" using t(3) by (cases p) auto
  then have m: "b = CHR ''c''" "m = (ho_mc h)\<lparr>pipes := (pipes (ho_mc h))(?fd := replicate q (CHR ''c''))\<rparr>"
    using r p(1) by (auto simp: read_notify_def)
  have "worker_ok items u ?h" if "u < nat (me_num_threads M)" for u
  proof (cases "u = t")
    case True
    then show ?thesis using mc_invD(1) [OF inv t(1)] p(2) by (simp add: worker_ok_def m q)
  next
    case False
    then show ?thesis using mc_invD(1,3) [OF inv that] mc_invD(3) [OF inv t(1) that] by (simp add: worker_ok_def m)
  qed
  then show ?thesis using inv by (simp add: mc_inv_def fds_ok_def m)
qed

lemma take_over_frame:
  assumes "take_over M c added t item m = Inr m'"
  shows "threads m' = threads m" "pipes m' = pipes m" "pipe_out m' = pipe_out m" "last_thread m' = last_thread m"
  using assms by (auto simp: take_over_def conn_new_def Let_def split: if_splits option.splits)

lemma read_finds_connection:
  assumes "cq_ok M items" and "worker_ok items t h" and "ho_read h t = Some b"
  shows "b = CHR ''c'' \<and> (\<exists>x q. me_cq_pop M (th_new_conn_queue (threads (ho_mc h) t)) = (Some x, q) \<and>
    ho_queue items t h = x # items q)"
proof -
  have "ho_queue items t h \<noteq> []" "b = CHR ''c''" using assms(2,3) by (auto simp: worker_ok_def)
  then show ?thesis
    using cq_okD(3) [OF assms(1), of "th_new_conn_queue (threads (ho_mc h) t)"] by (cases "ho_queue items t h") fastforce+
qed

lemma handle_inv:
  assumes cq: "cq_ok M items" and inv: "mc_inv M items h" and t: "t < nat (me_num_threads M)"
    and b: "ho_read h t = Some b" and r: "handle_notify M c added t b (ho_mc h) = Inr m"
  shows "mc_inv M items (h\<lparr>ho_mc := m, ho_read := (ho_read h)(t := None), ho_taken := (ho_taken h)(t := ho_taken h t @
    (case fst (me_cq_pop M (th_new_conn_queue (threads (ho_mc h) t))) of None \<Rightarrow> [] | Some item \<Rightarrow> [item]))\<rparr>)"
    (is "mc_inv M items ?h")
proof -
  let ?m1 = "\<lambda>q. upd_thread t (\<lambda>th. th\<lparr>th_new_conn_queue := q\<rparr>) (ho_mc h)"
  obtain x q where x: "b = CHR ''c''" "me_cq_pop M (th_new_conn_queue (threads (ho_mc h) t)) = (Some x, q)"
      "ho_queue items t h = x # items q"
    using read_finds_connection [OF cq mc_invD(1) [OF inv t] b] by blast
  then have "take_over M c added t x (?m1 q) = Inr m" using r by (simp add: handle_notify_def)
  note f = take_over_frame [OF this]
  have "worker_ok items u ?h" if "u < nat (me_num_threads M)" for u
    using mc_invD(1) [OF inv that] x b by (auto simp: worker_ok_def f)
  moreover have "fds_ok (nat (me_num_threads M)) m" using inv by (auto simp: mc_inv_def fds_ok_def f)
  ultimately show ?thesis using inv by (simp add: mc_inv_def)
qed

text \<open>What \<open>thread_init\<close> sets up.\<close>

definition started :: "'q menv \<Rightarrow> thread_env \<Rightarrow> nat \<Rightarrow> 'q mc \<Rightarrow> bool" where
  "started M T n m \<longleftrightarrow> (\<forall>t<n. \<exists>a b. te_pipe T t = Some (a, b) \<and> th_notify_receive_fd (threads m t) = a \<and>
     th_notify_send_fd (threads m t) = b \<and> th_new_conn_queue (threads m t) = me_cq_new M \<and>
     pipe_out m b = a \<and> pipes m a = [])"

lemma setup_thread_effect:
  assumes "setup_thread M T i m = Inr m'"
  shows "pipes m' = pipes m" "pipe_out m' = pipe_out m" "t \<noteq> i \<Longrightarrow> threads m' t = threads m t"
    "th_new_conn_queue (threads m' i) = me_cq_new M"
    "th_notify_receive_fd (threads m' i) = th_notify_receive_fd (threads m i)"
    "th_notify_send_fd (threads m' i) = th_notify_send_fd (threads m i)"
  using assms by (auto simp: setup_thread_def Let_def split: option.splits)

lemma init_one_effect:
  assumes "init_one M T i m = Inr m'"
  shows "\<exists>a b. te_pipe T i = Some (a, b) \<and> pipes m' = (pipes m)(a := []) \<and> pipe_out m' = (pipe_out m)(b := a)
    \<and> (\<forall>t. t \<noteq> i \<longrightarrow> threads m' t = threads m t) \<and> th_notify_receive_fd (threads m' i) = a
    \<and> th_notify_send_fd (threads m' i) = b \<and> th_new_conn_queue (threads m' i) = me_cq_new M"
proof -
  obtain a b where p: "te_pipe T i = Some (a, b)" using assms by (auto simp: init_one_def split: option.splits)
  let ?m = "upd_thread i (\<lambda>th. th\<lparr>th_notify_receive_fd := a, th_notify_send_fd := b\<rparr>)
      (m\<lparr>pipes := (pipes m)(a := []), pipe_out := (pipe_out m)(b := a)\<rparr>)"
  obtain m1 where m1: "setup_thread M T i ?m = Inr m1" "m' = m1\<lparr>reserved_fds := reserved_fds m1 + 5\<rparr>"
    using assms p by (auto simp: init_one_def Let_def)
  note s = setup_thread_effect [OF m1(1)]
  show ?thesis using p s m1(2) by - (rule exI [of _ a], rule exI [of _ b], simp)
qed

lemma thread_init_started:
  assumes d: "\<And>i j a b a' b'. i \<noteq> j \<Longrightarrow> te_pipe T i = Some (a, b) \<Longrightarrow> te_pipe T j = Some (a', b') \<Longrightarrow> a \<noteq> a' \<and> b \<noteq> b'"
  shows "runs (init_one M T) [0..<n] m = Inr m' \<Longrightarrow> started M T n m'"
proof (induction n arbitrary: m')
  case (Suc n)
  then obtain m1 where m1: "runs (init_one M T) [0..<n] m = Inr m1" "init_one M T n m1 = Inr m'"
    by (auto simp: runs_append)
  obtain a b where n: "te_pipe T n = Some (a, b)" "pipes m' = (pipes m1)(a := [])" "pipe_out m' = (pipe_out m1)(b := a)"
      "\<forall>t. t \<noteq> n \<longrightarrow> threads m' t = threads m1 t" "th_notify_receive_fd (threads m' n) = a"
      "th_notify_send_fd (threads m' n) = b" "th_new_conn_queue (threads m' n) = me_cq_new M"
    using init_one_effect [OF m1(2)] by blast
  have s: "started M T n m1" by (rule Suc.IH [OF m1(1)])
  show ?case unfolding started_def
  proof (intro allI impI)
    fix t assume "t < Suc n"
    show "\<exists>a b. te_pipe T t = Some (a, b) \<and> th_notify_receive_fd (threads m' t) = a \<and>
        th_notify_send_fd (threads m' t) = b \<and> th_new_conn_queue (threads m' t) = me_cq_new M \<and>
        pipe_out m' b = a \<and> pipes m' a = []"
    proof (cases "t = n")
      case False
      then obtain a' b' where "te_pipe T t = Some (a', b')" "th_notify_receive_fd (threads m1 t) = a'"
          "th_notify_send_fd (threads m1 t) = b'" "th_new_conn_queue (threads m1 t) = me_cq_new M"
          "pipe_out m1 b' = a'" "pipes m1 a' = []"
        using s \<open>t < Suc n\<close> by (auto simp: started_def less_Suc_eq)
      then show ?thesis using n d [OF False _ n(1)] False by auto
    qed (use n in simp)
  qed
qed (simp add: started_def)

lemma create_workers_frame:
  "runs (create_worker T) is m = Inr m' \<Longrightarrow> threads m' = threads m \<and> pipes m' = pipes m \<and> pipe_out m' = pipe_out m"
  by (induction "is" arbitrary: m) (auto simp: create_worker_def)

lemma start_inv: "mc_start M items h \<Longrightarrow> cq_ok M items \<and> mc_inv M items h"
proof -
  assume st: "mc_start M items h"
  obtain m where m: "ho_mc h = m" by simp
  obtain T m0 where i: "cq_ok M items" "0 < me_num_threads M" "h = ho_start m"
      "thread_init M T (nat (me_num_threads M)) m0 = Inr m"
      "\<forall>i j a b a' b'. i \<noteq> j \<longrightarrow> te_pipe T i = Some (a, b) \<longrightarrow> te_pipe T j = Some (a', b') \<longrightarrow> a \<noteq> a' \<and> b \<noteq> b'"
    using st unfolding mc_start_def m by blast
  let ?n = "nat (me_num_threads M)"
  obtain m1 m2 where m1: "runs (init_one M T) [0..<?n] m0 = Inr m1" "runs (create_worker T) [0..<?n] m1 = Inr m2"
      "m = mlogs (M_wait_registration ?n) m2"
    using i(4) by (auto simp: thread_init_def)
  have "started M T ?n m1" by (rule thread_init_started [OF _ m1(1)]) (use i(5) in blast)
  then have st: "started M T ?n m" using create_workers_frame [OF m1(2)] m1(3) by (simp add: started_def)
  then have "fds_ok ?n m" using i(5) unfolding started_def fds_ok_def by metis
  moreover have "\<forall>t<?n. new_items items t m = [] \<and> pipes m (th_notify_receive_fd (threads m t)) = []"
    using st cq_okD(1) [OF i(1)] by (auto simp: started_def)
  ultimately show ?thesis using i(1,2) by (simp add: mc_inv_def worker_ok_def i(3) ho_start_def)
qed

lemma mc_step_inv: "cq_ok M items \<and> mc_inv M items s \<Longrightarrow> mc_step M s s' \<Longrightarrow> cq_ok M items \<and> mc_inv M items s'"
proof -
  assume i: "cq_ok M items \<and> mc_inv M items s" and st: "mc_step M s s'"
  from st i show ?thesis
    by cases (simp_all add: push_inv notify_inv notify_fails_inv read_inv handle_inv,
        simp add: dispatch_conn_new_def mc_inv_def worker_ok_def fds_ok_def)
qed

interpretation notify: inductive_invariant "mc_start M items" "mc_step M" "\<lambda>s. cq_ok M items \<and> mc_inv M items s"
  for M items
  by unfold_locales (erule start_inv, erule (1) mc_step_inv)

section \<open>Work per event\<close>

definition live_state :: "conn_states \<Rightarrow> bool" where
  "live_state s \<longleftrightarrow> s \<noteq> conn_closed \<and> s \<noteq> conn_max_state"

text \<open>\<open>drive_lib_ok D c left\<close>: what the loop relies on of the functions and cases that the excerpt leaves out.
  \<open>conn_set_state\<close> sets the state and nothing else; none of them moves the connection to another
  worker; \<open>left\<close> is the work left before the next command (bytes to read or to send), which no
  call increases, and a call after which the loop goes on in a state of its own choice decreases it
  or comes to the next command.\<close>

abbreviation same_worker :: "nat \<Rightarrow> 'q mc \<Rightarrow> 'q mc \<Rightarrow> bool" where
  "same_worker c m m' \<equiv> c_thread (mconns m' c) = c_thread (mconns m c)"

definition next_state :: "nat \<Rightarrow> ('q mc \<Rightarrow> nat) \<Rightarrow> 'q mc \<Rightarrow> 'q mc \<Rightarrow> bool" where
  "next_state c left m m' \<longleftrightarrow> live_state (c_state (mconns m' c)) \<and>
     (c_state (mconns m' c) = conn_new_cmd \<or> left m' < left m)"

definition drive_lib_ok :: "'q drive_env \<Rightarrow> nat \<Rightarrow> ('q mc \<Rightarrow> nat) \<Rightarrow> bool" where
  "drive_lib_ok D c left \<longleftrightarrow>
     (\<forall>s m. c_state (mconns (dr_set_state D c s m) c) = s \<and> same_worker c m (dr_set_state D c s m)
        \<and> left (dr_set_state D c s m) = left m) \<and>
     (\<forall>m. live_state (c_state (mconns (dr_reset_cmd D c m) c)) \<and> same_worker c m (dr_reset_cmd D c m)) \<and>
     (\<forall>m r m'. dr_try_read D c m = (r, m') \<longrightarrow> same_worker c m m' \<and> left m' \<le> left m
        \<and> (r = READ_MEMORY_ERROR \<longrightarrow> next_state c left m m')) \<and>
     (\<forall>m r m'. dr_try_command D c m = (r, m') \<longrightarrow> same_worker c m m' \<and> left m' \<le> left m
        \<and> (r \<noteq> 0 \<longrightarrow> next_state c left m m')) \<and>
     (\<forall>s m stop m'. dr_omitted D s c m = (stop, m') \<longrightarrow> \<not> stop \<longrightarrow> same_worker c m m' \<and> next_state c left m m')"

lemma drive_libD:
  assumes "drive_lib_ok D c left"
  shows "c_state (mconns (dr_set_state D c s m) c) = s" "same_worker c m (dr_set_state D c s m)"
    "left (dr_set_state D c s m) = left m"
    "live_state (c_state (mconns (dr_reset_cmd D c m) c))" "same_worker c m (dr_reset_cmd D c m)"
    "dr_try_read D c m = (r, m') \<Longrightarrow> same_worker c m m'" "dr_try_read D c m = (r, m') \<Longrightarrow> left m' \<le> left m"
    "dr_try_read D c m = (READ_MEMORY_ERROR, m') \<Longrightarrow> next_state c left m m'"
    "dr_try_command D c m = (r', m') \<Longrightarrow> same_worker c m m'" "dr_try_command D c m = (r', m') \<Longrightarrow> left m' \<le> left m"
    "dr_try_command D c m = (r', m') \<Longrightarrow> r' \<noteq> 0 \<Longrightarrow> next_state c left m m'"
    "dr_omitted D s c m = (False, m') \<Longrightarrow> same_worker c m m' \<and> next_state c left m m'"
  using assms unfolding drive_lib_ok_def by blast+

text \<open>A connection that an event can be for: a listening one, or one that a worker has taken over.\<close>

definition drivable :: "mconn \<Rightarrow> bool" where
  "drivable co \<longleftrightarrow> live_state (c_state co) \<and> (c_state co = conn_listening \<or> c_thread co \<noteq> None)"

text \<open>The turns up to the next command: the work left, then the position in read, parse, the rest.\<close>

definition turn_rank :: "nat \<Rightarrow> ('q mc \<Rightarrow> nat) \<Rightarrow> 'q mc \<Rightarrow> nat" where
  "turn_rank c left m = 3 * left m +
     (case c_state (mconns m c) of conn_read \<Rightarrow> 2 | conn_parse_cmd \<Rightarrow> 1 | _ \<Rightarrow> 0)"

lemma turn_rank_less:
  "left m' < left m \<Longrightarrow> turn_rank c left m' < turn_rank c left m"
  unfolding turn_rank_def by (simp split: conn_states.split)

lemma next_state_rank:
  "next_state c left m m' \<Longrightarrow> live_state (c_state (mconns m' c))
    \<and> (c_state (mconns m' c) = conn_new_cmd \<or> turn_rank c left m' < turn_rank c left m)"
  using turn_rank_less unfolding next_state_def by blast

lemma drive_one_runs:
  "drivable (mconns m c) \<Longrightarrow> \<exists>nreqs' stop m'. drive_one M D c nreqs m = Inr (nreqs', stop, m')
    \<and> nreqs' = (if c_state (mconns m c) = conn_new_cmd then nreqs - 1 else nreqs)"
  by (cases "c_state (mconns m c)")
    (auto simp: drive_one_def drivable_def live_state_def dr_new_cmd_def Let_def prod_eq_iff split: prod.splits)

lemma read_turn:
  assumes "drive_lib_ok D c left" and "c_state (mconns m c) = conn_read"
  shows "same_worker c m (dr_read D c m) \<and> live_state (c_state (mconns (dr_read D c m) c))
    \<and> (c_state (mconns (dr_read D c m) c) = conn_new_cmd \<or> turn_rank c left (dr_read D c m) < turn_rank c left m)"
proof -
  obtain r m1 where t: "dr_try_read D c m = (r, m1)" by force
  note lib = drive_libD [OF assms(1)]
  show ?thesis
    using t lib(6,7) [OF t] lib(8) [of m m1] next_state_rank [of c left m m1]
    by (cases r) (auto simp: dr_read_def lib(1-3) turn_rank_def assms(2) live_state_def)
qed

lemma parse_turn:
  assumes "drive_lib_ok D c left" and "c_state (mconns m c) = conn_parse_cmd"
  shows "same_worker c m (dr_parse D c m) \<and> live_state (c_state (mconns (dr_parse D c m) c))
    \<and> (c_state (mconns (dr_parse D c m) c) = conn_new_cmd \<or> turn_rank c left (dr_parse D c m) < turn_rank c left m)"
proof -
  obtain r m1 where t: "dr_try_command D c m = (r, m1)" by force
  note lib = drive_libD [OF assms(1)]
  show ?thesis
    using t lib(9,10) [OF t] lib(11) [OF t] next_state_rank [of c left m m1]
    by (cases "r = 0") (auto simp: dr_parse_def lib(1-3) turn_rank_def assms(2) live_state_def)
qed

lemma omitted_turn:
  assumes "drive_lib_ok D c left" and "drivable (mconns m c)" and "c_state (mconns m c) \<noteq> conn_listening"
    and "dr_omitted D s c m = (False, m')"
  shows "drivable (mconns m' c) \<and> (c_state (mconns m' c) = conn_new_cmd \<or> turn_rank c left m' < turn_rank c left m)"
  using drive_libD(12) [OF assms(1,4)] next_state_rank [of c left m m'] assms(2,3) by (simp add: drivable_def)

lemma drive_one_progress:
  assumes lib: "drive_lib_ok D c left" and d: "drivable (mconns m c)"
    and o: "drive_one M D c nreqs m = Inr (nreqs', stop, m')"
    and n: "c_state (mconns m c) \<noteq> conn_new_cmd" "\<not> stop"
  shows "drivable (mconns m' c) \<and> (c_state (mconns m' c) = conn_new_cmd \<or> turn_rank c left m' < turn_rank c left m)"
proof (cases "c_state (mconns m c)")
  case conn_read
  then show ?thesis using read_turn [OF lib conn_read] o d by (auto simp: drive_one_def drivable_def)
next
  case conn_parse_cmd
  then show ?thesis using parse_turn [OF lib conn_parse_cmd] o d by (auto simp: drive_one_def drivable_def)
next
  case conn_listening
  then show ?thesis
    using o n by (auto simp: drive_one_def dr_listening_def Let_def split: prod.splits option.splits if_splits)
qed (use o n omitted_turn [OF lib d, where m' = m'] in \<open>(simp add: drive_one_def; blast)+\<close>)

text \<open>\<open>returns f seen k\<close>: with enough fuel the loop returns, and has seen \<open>conn_new_cmd\<close> at most \<open>k\<close> times.\<close>

definition returns :: "(nat \<Rightarrow> (conn_states list \<times> 'q mc) res) \<Rightarrow> conn_states list \<Rightarrow> nat \<Rightarrow> bool" where
  "returns f seen k \<longleftrightarrow> (\<exists>n0 seen' m'. (\<forall>n\<ge>n0. f n = Inr (seen @ seen', m')) \<and> count_list seen' conn_new_cmd \<le> k)"

lemma returns_turn:
  assumes "drive_one M D c nreqs m = Inr (nreqs', stop, m')"
    and "\<not> stop \<Longrightarrow> returns (\<lambda>n. drive_machine n M D c nreqs' (seen @ [c_state (mconns m c)]) m') (seen @ [c_state (mconns m c)]) k'"
    and "(if c_state (mconns m c) = conn_new_cmd then 1 else 0) + (if stop then 0 else k') \<le> k"
  shows "returns (\<lambda>n. drive_machine n M D c nreqs seen m) seen k"
proof (cases stop)
  case True
  have "drive_machine n M D c nreqs seen m = Inr (seen @ [c_state (mconns m c)], m')" if "Suc 0 \<le> n" for n
    using that assms(1) True by (cases n) auto
  then show ?thesis using assms(3) True unfolding returns_def
    by (intro exI [of _ "Suc 0"] exI [of _ "[c_state (mconns m c)]"] exI [of _ m']) auto
next
  case False
  then obtain n0 s2 m2 where r: "\<forall>n\<ge>n0. drive_machine n M D c nreqs' (seen @ [c_state (mconns m c)]) m' =
      Inr ((seen @ [c_state (mconns m c)]) @ s2, m2)" "count_list s2 conn_new_cmd \<le> k'"
    using assms(2) by (auto simp: returns_def)
  have "drive_machine n M D c nreqs seen m = Inr (seen @ c_state (mconns m c) # s2, m2)" if "Suc n0 \<le> n" for n
    using that assms(1) False r(1) by (cases n) auto
  then show ?thesis using assms(3) False r(2) unfolding returns_def
    by (intro exI [of _ "Suc n0"] exI [of _ "c_state (mconns m c) # s2"] exI [of _ m2]) (auto split: if_splits)
qed

lemma drive_returns:
  assumes lib: "drive_lib_ok D c left"
  shows "drivable (mconns m c) \<Longrightarrow> returns (\<lambda>n. drive_machine n M D c (int k) seen m) seen (k + 1)"
proof (induction "(k, if c_state (mconns m c) = conn_new_cmd then 0 else 1 + turn_rank c left m)" arbitrary: k m seen
    rule: wf_induct_rule [OF wf_lex_prod [OF wf_less_than wf_less_than]])
  case 1
  let ?seen = "seen @ [c_state (mconns m c)]"
  obtain nr stop m' where o: "drive_one M D c (int k) m = Inr (nr, stop, m')"
      "nr = (if c_state (mconns m c) = conn_new_cmd then int k - 1 else int k)"
    using drive_one_runs [OF 1(2)] by blast
  show ?case
  proof (cases "c_state (mconns m c) = conn_new_cmd")
    case False
    have "returns (\<lambda>n. drive_machine n M D c nr ?seen m') ?seen (k + 1)" if "\<not> stop"
      using drive_one_progress [OF lib 1(2) o(1) False that] 1(1) [of k m'] False o(2) by auto
    then show ?thesis using o(1) False by (rule_tac returns_turn [where k' = "k + 1"]) auto
  next
    case new: True
    show ?thesis
    proof (cases k)
      case (Suc j)
      then have m': "m' = dr_reset_cmd D c m" using o new by (auto simp: drive_one_def dr_new_cmd_def)
      then have "drivable (mconns m' c)"
        using drive_libD(4,5) [OF lib, of m] 1(2) new by (simp add: drivable_def)
      then have "returns (\<lambda>n. drive_machine n M D c nr ?seen m') ?seen (j + 1)"
        using 1(1) [of j m'] Suc o(2) new by auto
      then show ?thesis using o(1) new Suc by (rule_tac returns_turn [where k' = "j + 1"]) auto
    next
      case 0
      have cl: "c_state (mconns m' c) = conn_closing" if "\<not> stop"
        using o new 0 that drive_libD(1) [OF lib]
        by (auto simp: drive_one_def dr_new_cmd_def Let_def split: if_splits option.splits prod.splits bool.splits)
      have "returns (\<lambda>n. drive_machine n M D c nr s m') s 0" if "\<not> stop" for s
        by (rule returns_turn [where k' = 0 and stop = True]) (use cl [OF that] in \<open>auto simp: drive_one_def\<close>)
      then show ?thesis using o(1) new 0 by (rule_tac returns_turn [where k' = 0]) auto
    qed
  qed
qed

section \<open>Connections in turn\<close>

text \<open>The dispatch of a list of connections.\<close>

definition dispatch_all :: "'q menv \<Rightarrow> (int \<times> network_transport) list \<Rightarrow> 'q mc \<Rightarrow> 'q mc" where
  "dispatch_all M = fold (\<lambda>(sfd, tr). dispatch_conn_new M True True sfd conn_new_cmd (EV_READ + EV_PERSIST)
     (me_data_buffer_size M) tr)"

lemmas dispatch_defs = dispatch_conn_new_def dispatch_push_def dispatch_notify_def Let_def

lemma dispatch_queue:
  assumes "cq_ok M items" and "0 < me_num_threads M"
  shows "map it_sfd (new_items items t (dispatch_conn_new M True True sfd st fl sz tr m)) =
      map it_sfd (new_items items t m) @ (if int t = (last_thread m + 1) mod me_num_threads M then [sfd] else [])"
    "last_thread (dispatch_conn_new M True True sfd st fl sz tr m) = (last_thread m + 1) mod me_num_threads M"
proof -
  have "0 \<le> (last_thread m + 1) mod me_num_threads M" using assms(2) by simp
  then show "map it_sfd (new_items items t (dispatch_conn_new M True True sfd st fl sz tr m)) =
      map it_sfd (new_items items t m) @ (if int t = (last_thread m + 1) mod me_num_threads M then [sfd] else [])"
    using cq_okD(2) [OF assms(1)] by (auto simp: dispatch_defs)
  show "last_thread (dispatch_conn_new M True True sfd st fl sz tr m) = (last_thread m + 1) mod me_num_threads M"
    by (simp add: dispatch_defs)
qed

section \<open>A sample server\<close>

text \<open>Two workers; readers that fail, so that a connection is closed after its first command.\<close>

definition sample_menv :: "cq_item list menv" where
  "sample_menv = \<lparr>me_cq_new = [], me_cq_push = (\<lambda>x q. q @ [x]),
     me_cq_pop = (\<lambda>q. case q of [] \<Rightarrow> (None, []) | x # xs \<Rightarrow> (Some x, xs)), me_num_threads = 2,
     me_maxconns_fast = True, me_maxconns = 100, me_data_buffer_size = 2048, me_is_udp = (\<lambda>tr. tr \<noteq> tcp_transport),
     me_conn_setup = (\<lambda>sfd st sz tr. \<lparr>c_sfd = sfd, c_state = st, c_which = 0, c_ev_flags = 0, c_transport = tr,
       c_rbytes = 0, c_thread = None, c_next = None\<rparr>)\<rparr>"

definition sample_threads :: thread_env where
  "sample_threads = \<lparr>te_pipe = (\<lambda>i. Some (int (2 * i), int (2 * i + 1))), te_event_init = (\<lambda>i. Some i),
     te_event_add = (\<lambda>_. 0), te_malloc = (\<lambda>_. True), te_mutex_init = (\<lambda>_. 0), te_cache = (\<lambda>_. True),
     te_pthread_create = (\<lambda>_. 0)\<rparr>"

definition sample_mc :: "cq_item list mc" where
  "sample_mc = \<lparr>threads = (\<lambda>_. \<lparr>th_base = 0, th_notify_receive_fd = 0, th_notify_send_fd = 0, th_new_conn_queue = [],
       th_item_lock_type = ITEM_LOCK_GRANULAR, th_conn_yields = 0\<rparr>), pipes = (\<lambda>_. []), pipe_out = (\<lambda>_. 0),
     mconns = (\<lambda>_. (me_conn_setup sample_menv 7 conn_new_cmd 1 tcp_transport)\<lparr>c_thread := Some 0\<rparr>), last_thread = -1, reserved_fds = 0,
     curr_conns = 0, rejected_conns = 0, listen_conn = None, mlog = []\<rparr>"

definition sample_drive :: "cq_item list drive_env" where
  "sample_drive = \<lparr>dr_accept = (\<lambda>c m. (None, m)), dr_dispatch = (True, True),
     dr_set_state = (\<lambda>c s. upd_mconn c (\<lambda>co. co\<lparr>c_state := s\<rparr>)), dr_try_read = (\<lambda>c m. (READ_ERROR, m)),
     dr_try_command = (\<lambda>c m. (0, m)), dr_reset_cmd = (\<lambda>c. upd_mconn c (\<lambda>co. co\<lparr>c_state := conn_read\<rparr>)),
     dr_update_event = (\<lambda>c f m. (True, m)), dr_omitted = (\<lambda>s c m. (True, m))\<rparr>"

lemma sample_cq_ok: "cq_ok sample_menv (\<lambda>q. q)"
  by (auto simp: cq_ok_def sample_menv_def split: list.split)

lemma sample_start: "\<exists>m. mc_start sample_menv (\<lambda>q. q) (ho_start m) \<and> last_thread m = -1"
proof -
  obtain m where m: "thread_init sample_menv sample_threads 2 sample_mc = Inr m" "last_thread m = -1"
    by (simp add: thread_init_def init_one_def setup_thread_def create_worker_def sample_threads_def Let_def
        upt_rec [of 0 2] upt_rec [of "Suc 0" 2] sample_mc_def)
  moreover have "nat (me_num_threads sample_menv) = 2" "0 < me_num_threads sample_menv" by (simp_all add: sample_menv_def)
  moreover have "\<forall>i j a b a' b'. i \<noteq> j \<longrightarrow> te_pipe sample_threads i = Some (a, b) \<longrightarrow>
      te_pipe sample_threads j = Some (a', b') \<longrightarrow> a \<noteq> a' \<and> b \<noteq> b'" by (auto simp: sample_threads_def)
  ultimately have "mc_start sample_menv (\<lambda>q. q) (ho_start m)"
    using sample_cq_ok unfolding mc_start_def ho_start_def handover.select_convs by metis
  then show ?thesis using m(2) by blast
qed

abbreviation sample_reach :: "cq_item list handover \<Rightarrow> bool" where
  "sample_reach \<equiv> reach (mc_start sample_menv (\<lambda>q. q)) (mc_step sample_menv)"

lemma sample_push:
  assumes "sample_reach h" and "ho_main h = None" and "last_thread (ho_mc h) = l"
  shows "\<exists>h'. sample_reach h' \<and> ho_main h' = Some (nat ((l + 1) mod 2)) \<and> last_thread (ho_mc h') = (l + 1) mod 2
    \<and> (\<forall>t. ho_read h' t = ho_read h t \<and> ho_pipe t h' = ho_pipe t h \<and> map it_sfd (ho_dispatched h' t) =
        map it_sfd (ho_dispatched h t) @ (if t = nat ((l + 1) mod 2) then [sfd] else [])
      \<and> (t \<noteq> nat ((l + 1) mod 2) \<longrightarrow> ho_dispatched h' t = ho_dispatched h t))"
proof -
  obtain m where m: "dispatch_push sample_menv sfd conn_new_cmd 18 1 tcp_transport (ho_mc h) = (nat ((l + 1) mod 2), m)"
      "last_thread m = (l + 1) mod 2" "pipes m = pipes (ho_mc h)"
      "\<And>t. th_notify_receive_fd (threads m t) = th_notify_receive_fd (threads (ho_mc h) t)"
    by (simp add: dispatch_push_def assms(3) Let_def sample_menv_def)
  show ?thesis
    by (rule exI, rule conjI, rule reach_step [OF assms(1)], rule mc_push [OF assms(2) m(1) refl]) (simp add: m)
qed

lemma sample_notify:
  assumes "sample_reach h" and "ho_main h = Some t" and "t < nat (me_num_threads sample_menv)"
  shows "\<exists>h'. sample_reach h' \<and> ho_main h' = None \<and> last_thread (ho_mc h') = last_thread (ho_mc h) \<and> ho_pipe t h' \<noteq> []
    \<and> ho_dispatched h' = ho_dispatched h \<and> ho_read h' = ho_read h"
proof -
  have "mc_inv sample_menv (\<lambda>q. q) h" using notify.reach_inv [OF assms(1)] by simp
  note f = mc_invD(2) [OF this assms(3)]
  show ?thesis
    by (rule exI, rule conjI, rule reach_step [OF assms(1)], rule mc_notify [OF assms(2)])
      (simp add: dispatch_notify_def f Let_def)
qed

lemma sample_drive_ok: "drive_lib_ok sample_drive 3 (\<lambda>_. 0)"
  by (simp add: drive_lib_ok_def sample_drive_def live_state_def upd_mconn_def)

section \<open>Properties\<close>

text \<open>\<open>dispatch_conn_new\<close> serves the workers in turn: of the connections \<open>xs\<close>, worker \<open>t\<close> gets, behind what
  it already has and in order, exactly those whose number plus \<open>last_thread + 1\<close> is \<open>t\<close> modulo the
  number of workers.\<close>

lemma workers_in_turn:
  assumes "cq_ok M items" and "0 < me_num_threads M"
  shows "map it_sfd (items (th_new_conn_queue (threads (dispatch_all M xs m) t))) =
    map it_sfd (items (th_new_conn_queue (threads m t))) @
    [fst (xs ! i). i \<leftarrow> [0..<length xs], (last_thread m + 1 + int i) mod me_num_threads M = int t]"
proof (induction xs arbitrary: m)
  case (Cons x xs)
  obtain sfd tr where x: "x = (sfd, tr)" by force
  let ?m = "dispatch_conn_new M True True sfd conn_new_cmd (EV_READ + EV_PERSIST) (me_data_buffer_size M) tr m"
  have a: "dispatch_all M (x # xs) m = dispatch_all M xs ?m" by (simp add: dispatch_all_def x)
  have s: "((last_thread m + 1) mod me_num_threads M + 1 + int i) mod me_num_threads M =
      (last_thread m + 1 + int (Suc i)) mod me_num_threads M" for i
    by (simp add: mod_add_left_eq add.assoc)
  have u: "[0..<length (x # xs)] = 0 # map Suc [0..<length xs]"
    by (simp add: upt_conv_Cons map_Suc_upt del: upt_Suc)
  have c: "[fst ((x # xs) ! i). i \<leftarrow> [0..<length (x # xs)], P i] =
      (if P 0 then [sfd] else []) @ [fst (xs ! i). i \<leftarrow> [0..<length xs], P (Suc i)]" for P
    unfolding u by (simp add: x comp_def cong: if_cong)
  have q: "map it_sfd (items (th_new_conn_queue (threads ?m t))) = map it_sfd (items (th_new_conn_queue (threads m t))) @
      (if (last_thread m + 1 + int 0) mod me_num_threads M = int t then [sfd] else [])"
    using dispatch_queue(1) [OF assms, where t = t] by auto
  show ?case unfolding a Cons.IH c q dispatch_queue(2) [OF assms] s by simp
qed (simp add: dispatch_all_def)

lemma workers_in_turn_witness:
  "map it_sfd (th_new_conn_queue (threads (dispatch_all sample_menv
      [(21, tcp_transport), (22, tcp_transport), (23, tcp_transport)] sample_mc) 0)) = [21, 23]"
  using workers_in_turn [OF sample_cq_ok, of "[(21, tcp_transport), (22, tcp_transport), (23, tcp_transport)]" sample_mc 0]
  by (simp add: sample_menv_def sample_mc_def upt_rec)

text \<open>C10. Every connection is handed over once and in order, under any interleaving of the main thread and
  the workers, where each thread can be stopped between its access to the queue and its access to
  the pipe. What was dispatched to a worker is what it has taken so far followed by its queue.
  The connections in the queue are as many as the bytes in the pipe, plus one if the main thread
  is about to announce one, plus one if the worker has read a byte and not yet looked into the
  queue, plus the announcements that failed. A worker that has read a byte finds a
  connection: \<open>cq_pop\<close> does not return \<open>NULL\<close> to it.\<close>

theorem each_connection_once:
  assumes "reach (mc_start M items) (mc_step M) h" and "t < nat (me_num_threads M)"
  shows "ho_dispatched h t = ho_taken h t @ items (th_new_conn_queue (threads (ho_mc h) t))
    \<and> (\<exists>p. pipes (ho_mc h) (th_notify_receive_fd (threads (ho_mc h) t)) = replicate p (CHR ''c'')
      \<and> length (items (th_new_conn_queue (threads (ho_mc h) t))) =
        p + of_bool (ho_main h = Some t) + of_bool (ho_read h t \<noteq> None) + ho_lost h t)
    \<and> (\<forall>b. ho_read h t = Some b \<longrightarrow> b = CHR ''c'' \<and> fst (me_cq_pop M (th_new_conn_queue (threads (ho_mc h) t))) \<noteq> None)"
proof -
  have "cq_ok M items" and w: "worker_ok items t h"
    using notify.reach_inv [OF assms(1)] assms(2) by (auto simp: mc_inv_def)
  then have "b = CHR ''c'' \<and> fst (me_cq_pop M (th_new_conn_queue (threads (ho_mc h) t))) \<noteq> None"
    if "ho_read h t = Some b" for b
    using read_finds_connection [OF _ _ that] by fastforce
  then show ?thesis using w unfolding worker_ok_def by blast
qed

text \<open>The main thread has announced connection 21 to worker 0 and queued connection 22 for worker 1; worker 0
  has read its byte.\<close>

theorem each_connection_once_witness:
  "\<exists>h. reach (mc_start sample_menv (\<lambda>q. q)) (mc_step sample_menv) h \<and> ho_main h = Some 1 \<and> ho_read h 0 = Some (CHR ''c'')
    \<and> map it_sfd (ho_dispatched h 0) = [21] \<and> fst (me_cq_pop sample_menv (th_new_conn_queue (threads (ho_mc h) 0))) \<noteq> None"
proof -
  obtain m where m: "mc_start sample_menv (\<lambda>q. q) (ho_start m)" "last_thread m = -1" using sample_start by blast
  have n: "0 < nat (me_num_threads sample_menv)" by (simp add: sample_menv_def)
  have "sample_reach (ho_start m)" using m(1) by (rule reach_init)
  then obtain h1 where h1: "sample_reach h1" "ho_main h1 = Some 0" "last_thread (ho_mc h1) = 0"
      "map it_sfd (ho_dispatched h1 0) = [21]" "ho_read h1 0 = None"
    using sample_push [of "ho_start m" "-1" 21] m(2) by (auto simp: ho_start_def)
  then obtain h2 where h2: "sample_reach h2" "ho_main h2 = None" "last_thread (ho_mc h2) = 0" "ho_pipe 0 h2 \<noteq> []"
      "ho_dispatched h2 = ho_dispatched h1" "ho_read h2 = ho_read h1"
    using sample_notify [of h1 0] n by auto
  then obtain h3 where h3: "sample_reach h3" "ho_main h3 = Some 1" "ho_dispatched h3 0 = ho_dispatched h1 0"
      "ho_read h3 0 = None" "ho_pipe 0 h3 \<noteq> []"
    using sample_push [of h2 0 22] h1(5) by (auto simp: h1)
  obtain b m4 where r: "read_notify (th_notify_receive_fd (threads (ho_mc h3) 0)) CHR ''x'' (ho_mc h3) = (b, m4)" by force
  have h4: "sample_reach (h3\<lparr>ho_mc := m4, ho_read := (ho_read h3)(0 := Some b)\<rparr>)" (is "sample_reach ?h")
    by (rule reach_step [OF h3(1)], rule mc_read [OF n h3(4,5) r])
  note e = each_connection_once [OF h4 n]
  have "b = CHR ''c''" using e by simp
  then show ?thesis using h4 e h3 h1(4) by (intro exI [of _ ?h]) simp
qed



section \<open>Notifications that go wrong\<close>

text \<open>When the write to the pipe fails, \<open>dispatch_conn_new\<close> only prints an error: the connection stays in
  the queue of the worker with no byte to announce it, and is neither closed nor served.\<close>

lemma unannounced_connection:
  assumes "cq_ok M items" and "0 < me_num_threads M" and "t = nat ((last_thread m + 1) mod me_num_threads M)"
  shows "let m' = dispatch_conn_new M True False sfd st fl sz tr m in
    pipes m' = pipes m \<and> mlog m' = mlog m \<and> map it_sfd (new_items items t m') = map it_sfd (new_items items t m) @ [sfd]"
  using assms(3) by (simp add: dispatch_defs cq_okD [OF assms(1)] upd_thread_def)

text \<open>When the read from the pipe fails, \<open>thread_libevent_process\<close> goes on with the uninitialised byte of \<open>buf\<close>:
  what it does depends on what the stack happens to hold.\<close>

lemma unread_notification:
  assumes "pipes m (th_notify_receive_fd (threads m t)) = []"
  shows "thread_libevent_process M c added (CHR ''g'') t m =
      Inr (mlogs M_register (upd_thread t (\<lambda>th. th\<lparr>th_item_lock_type := ITEM_LOCK_GLOBAL\<rparr>) m))"
    "thread_libevent_process M c added (CHR ''x'') t m = Inr m"
  by (simp_all add: thread_libevent_process_def read_notify_def handle_notify_def assms)

end
