(* ===== verification/Reactor_Channel.thy ===== *)
theory Reactor_Channel
  imports Prelude
begin

unbundle bit_operations_syntax

text \<open>
  The class \<open>Channel\<close> (\<open>Channel.h\<close>, \<open>Channel.cc\<close>) as far as it concerns one channel
  object alone: its members, the constructor, the queries and the changes of the interest
  mask \<open>events_\<close>. What a channel asks of its loop (\<open>update\<close>, \<open>remove\<close>,
  \<open>handleEvent\<close>) is in \<open>Reactor_Loop\<close>.

  A callback is a \<open>boost::bind\<close> closure. The closures that the program stores are a
  datatype, \<open>chan_cb\<close>; what they do is given by the component that owns the method.
  Pointers to event loops, connections and channels are numbers.
\<close>

section \<open>Members\<close>

datatype chan_cb =
    Cb_loop_handleRead nat
  | Cb_timer_handleRead nat
  | Cb_acceptor_handleRead nat
  | Cb_conn_handleRead nat
  | Cb_conn_handleWrite nat
  | Cb_conn_handleClose nat
  | Cb_conn_handleError nat
  | Cb_user nat

record channel =
  ch_loop :: nat
  ch_fd :: int
  ch_events :: "32 word"
  ch_revents :: "32 word"
  ch_index :: int
  ch_logHup :: bool
  ch_tie :: "nat option"
  ch_tied :: bool
  ch_eventHandling :: bool
  ch_addedToLoop :: bool
  ch_readCallback :: "chan_cb option"
  ch_writeCallback :: "chan_cb option"
  ch_closeCallback :: "chan_cb option"
  ch_errorCallback :: "chan_cb option"

definition kNoneEvent :: "32 word" where "kNoneEvent = 0"
definition kReadEvent :: "32 word" where "kReadEvent = POLLIN OR POLLPRI"
definition kWriteEvent :: "32 word" where "kWriteEvent = POLLOUT"

definition new_channel :: "nat \<Rightarrow> int \<Rightarrow> channel" where
  "new_channel loop fd =
     \<lparr>ch_loop = loop, ch_fd = fd, ch_events = 0, ch_revents = 0, ch_index = -1,
      ch_logHup = True, ch_tie = None, ch_tied = False, ch_eventHandling = False,
      ch_addedToLoop = False, ch_readCallback = None, ch_writeCallback = None,
      ch_closeCallback = None, ch_errorCallback = None\<rparr>"

definition ch_tie_to :: "nat \<Rightarrow> channel \<Rightarrow> channel" where
  "ch_tie_to obj ch = ch\<lparr>ch_tie := Some obj, ch_tied := True\<rparr>"

definition setReadCallback :: "chan_cb \<Rightarrow> channel \<Rightarrow> channel" where
  "setReadCallback cb ch = ch\<lparr>ch_readCallback := Some cb\<rparr>"

definition setWriteCallback :: "chan_cb \<Rightarrow> channel \<Rightarrow> channel" where
  "setWriteCallback cb ch = ch\<lparr>ch_writeCallback := Some cb\<rparr>"

definition setCloseCallback_ch :: "chan_cb \<Rightarrow> channel \<Rightarrow> channel" where
  "setCloseCallback_ch cb ch = ch\<lparr>ch_closeCallback := Some cb\<rparr>"

definition setErrorCallback :: "chan_cb \<Rightarrow> channel \<Rightarrow> channel" where
  "setErrorCallback cb ch = ch\<lparr>ch_errorCallback := Some cb\<rparr>"

definition set_index :: "int \<Rightarrow> channel \<Rightarrow> channel" where
  "set_index idx ch = ch\<lparr>ch_index := idx\<rparr>"

declare setReadCallback_def [simp] setWriteCallback_def [simp] setCloseCallback_ch_def [simp]
  setErrorCallback_def [simp]

definition doNotLogHup :: "channel \<Rightarrow> channel" where
  "doNotLogHup ch = ch\<lparr>ch_logHup := False\<rparr>"

section \<open>The interest mask\<close>

definition isNoneEvent :: "channel \<Rightarrow> bool" where
  "isNoneEvent ch \<longleftrightarrow> ch_events ch = kNoneEvent"

definition isWriting :: "channel \<Rightarrow> bool" where
  "isWriting ch \<longleftrightarrow> ch_events ch AND kWriteEvent \<noteq> 0"

definition isReading :: "channel \<Rightarrow> bool" where
  "isReading ch \<longleftrightarrow> ch_events ch AND kReadEvent \<noteq> 0"

definition set_reading :: "channel \<Rightarrow> channel" where
  "set_reading ch = ch\<lparr>ch_events := ch_events ch OR kReadEvent\<rparr>"

definition clear_reading :: "channel \<Rightarrow> channel" where
  "clear_reading ch = ch\<lparr>ch_events := ch_events ch AND NOT kReadEvent\<rparr>"

definition set_writing :: "channel \<Rightarrow> channel" where
  "set_writing ch = ch\<lparr>ch_events := ch_events ch OR kWriteEvent\<rparr>"

definition clear_writing :: "channel \<Rightarrow> channel" where
  "clear_writing ch = ch\<lparr>ch_events := ch_events ch AND NOT kWriteEvent\<rparr>"

definition clear_all :: "channel \<Rightarrow> channel" where
  "clear_all ch = ch\<lparr>ch_events := kNoneEvent\<rparr>"

section \<open>Printing of event masks\<close>

definition event_names :: "(32 word \<times> string) list" where
  "event_names =
     [(POLLIN, ''IN ''), (POLLPRI, ''PRI ''), (POLLOUT, ''OUT ''), (POLLHUP, ''HUP ''),
      (POLLRDHUP, ''RDHUP ''), (POLLERR, ''ERR ''), (POLLNVAL, ''NVAL '')]"

definition eventsToString :: "int \<Rightarrow> 32 word \<Rightarrow> string" where
  "eventsToString fd ev =
     show_int fd @ '': '' @
     concat (map (\<lambda>(b, s). if ev AND b \<noteq> 0 then s else []) event_names)"

definition reventsToString :: "channel \<Rightarrow> string" where
  "reventsToString ch = eventsToString (ch_fd ch) (ch_revents ch)"

definition interestToString :: "channel \<Rightarrow> string" where
  "interestToString ch = eventsToString (ch_fd ch) (ch_events ch)"

section \<open>The mask operations are independent of one another\<close>

lemmas event_masks = kNoneEvent_def kReadEvent_def kWriteEvent_def
lemmas mask_ops = set_reading_def clear_reading_def set_writing_def clear_writing_def clear_all_def

lemma read_write_disjoint [simp]: "kReadEvent AND kWriteEvent = 0" "kWriteEvent AND kReadEvent = 0"
  by (simp_all add: event_masks poll_bits)

lemma masks_nonzero [simp]: "kReadEvent \<noteq> 0" "kWriteEvent \<noteq> 0"
  by (simp_all add: event_masks poll_bits)

lemma and_not_and_disjoint:
  fixes x m n :: "'a::len word"
  assumes "m AND n = 0"
  shows "(x AND NOT m) AND n = x AND n"
proof (rule bit_word_eqI)
  fix k assume "k < LENGTH('a)"
  moreover have "\<not> (bit m k \<and> bit n k)"
    using assms by (metis bit_0_eq bit_and_iff bot_apply bot_bool_def)
  ultimately show "bit ((x AND NOT m) AND n) k = bit (x AND n) k"
    by (auto simp: bit_simps)
qed

lemma or_and_disjoint:
  fixes x m n :: "'a::len word"
  assumes "m AND n = 0"
  shows "(x OR m) AND n = x AND n"
  using assms by (simp add: bit.conj_disj_distrib2)

lemma or_and_same:
  fixes x m :: "'a::len word"
  shows "(x OR m) AND m = m"
  by (rule bit_word_eqI) (auto simp: bit_simps)

lemma and_not_and_same:
  fixes x m :: "'a::len word"
  shows "(x AND NOT m) AND m = 0"
  by (rule bit_word_eqI) (auto simp: bit_simps)

lemma isWriting_ops [simp]:
  "isWriting (set_writing ch)"
  "\<not> isWriting (clear_writing ch)"
  "isWriting (set_reading ch) = isWriting ch"
  "isWriting (clear_reading ch) = isWriting ch"
  "\<not> isWriting (clear_all ch)"
  by (simp_all add: isWriting_def mask_ops or_and_same and_not_and_same or_and_disjoint
      and_not_and_disjoint, simp add: kNoneEvent_def)

lemma isReading_ops [simp]:
  "isReading (set_reading ch)"
  "\<not> isReading (clear_reading ch)"
  "isReading (set_writing ch) = isReading ch"
  "isReading (clear_writing ch) = isReading ch"
  "\<not> isReading (clear_all ch)"
  by (simp_all add: isReading_def mask_ops or_and_same and_not_and_same or_and_disjoint
      and_not_and_disjoint, simp add: kNoneEvent_def)

lemma isNoneEvent_clear_all [simp]: "isNoneEvent (clear_all ch)"
  by (simp add: isNoneEvent_def clear_all_def)

lemma isNoneEvent_queries: "isNoneEvent ch \<Longrightarrow> \<not> isWriting ch \<and> \<not> isReading ch"
  by (simp add: isNoneEvent_def isWriting_def isReading_def kNoneEvent_def)

lemma new_channel_queries [simp]:
  "isNoneEvent (new_channel l fd)" "\<not> isWriting (new_channel l fd)" "\<not> isReading (new_channel l fd)"
  by (simp_all add: new_channel_def isNoneEvent_def isWriting_def isReading_def kNoneEvent_def)

text \<open>The events a channel can have asked for through its methods are made of the read mask
  and the write mask only; over those the two queries determine the mask.\<close>

definition mask_wf :: "channel \<Rightarrow> bool" where
  "mask_wf ch \<longleftrightarrow>
     ch_events ch = (if isReading ch then kReadEvent else 0) OR (if isWriting ch then kWriteEvent else 0)"

lemma and_not_self_word [simp]: "(x :: 'a::len word) AND NOT x = 0"
  by (rule bit_word_eqI) (auto simp: bit_simps)

lemma mask_wf_ops [simp]:
  "mask_wf (new_channel l fd)"
  "mask_wf ch \<Longrightarrow> mask_wf (set_reading ch)"
  "mask_wf ch \<Longrightarrow> mask_wf (clear_reading ch)"
  "mask_wf ch \<Longrightarrow> mask_wf (set_writing ch)"
  "mask_wf ch \<Longrightarrow> mask_wf (clear_writing ch)"
  "mask_wf (clear_all ch)"
proof -
  show "mask_wf (new_channel l fd)"
    by (simp add: mask_wf_def) (simp add: new_channel_def)
  show "mask_wf (clear_all ch)"
    by (simp add: mask_wf_def) (simp add: clear_all_def kNoneEvent_def)
  assume wf: "mask_wf ch"
  have *: "(kReadEvent OR kWriteEvent) AND NOT kReadEvent = kWriteEvent"
    "(kReadEvent OR kWriteEvent) AND NOT kWriteEvent = kReadEvent"
    "kWriteEvent AND NOT kReadEvent = kWriteEvent" "kReadEvent AND NOT kWriteEvent = kReadEvent"
    by (simp_all add: event_masks poll_bits)
  have e: "ch_events ch =
      (if isReading ch then kReadEvent else 0) OR (if isWriting ch then kWriteEvent else 0)"
    using wf by (simp add: mask_wf_def)
  show "mask_wf (set_reading ch)"
    by (simp only: mask_wf_def isReading_ops isWriting_ops simp_thms if_True if_False) (simp add: set_reading_def e or.assoc or.commute or.left_commute)
  show "mask_wf (set_writing ch)"
    by (simp only: mask_wf_def isReading_ops isWriting_ops simp_thms if_True if_False) (simp add: set_writing_def e or.assoc)
  show "mask_wf (clear_reading ch)"
    by (simp only: mask_wf_def isReading_ops isWriting_ops simp_thms if_True if_False) (simp add: clear_reading_def e *)
  show "mask_wf (clear_writing ch)"
    by (simp only: mask_wf_def isReading_ops isWriting_ops simp_thms if_True if_False) (simp add: clear_writing_def e *)
qed

end
