(* ===== verification/Reactor_Loop.thy ===== *)
theory Reactor_Loop
  imports Reactor_Channel
begin

unbundle bit_operations_syntax

text \<open>
  The classes \<open>EventLoop\<close> (\<open>EventLoop.h\<close>, \<open>EventLoop.cc\<close>) and \<open>Poller\<close>
  (\<open>Poller.h\<close>, \<open>Poller.cc\<close>) and the methods of \<open>Channel\<close> that go through them.

  \<open>world\<close> is the memory the reactor shares: the event loops and the channels by address,
  the thread-local pointer to the loop of a thread, which owners of channels are still
  alive, and the system calls and user callbacks made so far. The components above extend this record. The
  caller's thread, \<open>CurrentThread::tid()\<close>, is the argument \<open>tid\<close>.

  The concrete pollers are not part of the sources; \<open>poller_ops\<close> is their interface and
  \<open>poller_ok\<close> what the comments of \<open>Poller.h\<close> promise of them. What a callback and a
  queued functor do is given by the arguments \<open>run\<close> and \<open>exec\<close>.
\<close>

section \<open>State\<close>

datatype Functor =
    F_addTimerInLoop addr
  | F_cancelInLoop "addr \<times> int"
  | F_sendInLoop nat "byte list"
  | F_shutdownInLoop nat
  | F_forceCloseInLoop nat
  | F_startReadInLoop nat
  | F_stopReadInLoop nat
  | F_connectEstablished nat
  | F_connectDestroyed nat
  | F_writeComplete nat nat
  | F_highWaterMark nat nat nat
  | F_removeConnectionInLoop nat nat
  | F_acceptorListen nat
  | F_user nat

datatype sysev =
    Ev_socket nat
  | Ev_bind int
  | Ev_listen int
  | Ev_accept int
  | Ev_connect int
  | Ev_open
  | Ev_fcntl int
  | Ev_setsockopt int string bool
  | Ev_getsockopt int
  | Ev_read int
  | Ev_readv int "byte list"
  | Ev_write int "byte list"
  | Ev_shutdown_write int
  | Ev_close int
  | Ev_settime int "int \<times> int"
  | Ev_connection nat bool
  | Ev_message nat

record event_loop =
  el_looping :: bool
  el_quit :: bool
  el_eventHandling :: bool
  el_callingPendingFunctors :: bool
  el_iteration :: int
  el_threadId :: nat
  el_pollReturnTime :: timestamp
  el_wakeupFd :: int
  el_wakeupChannel :: nat
  el_context :: "nat option"
  el_activeChannels :: "nat list"
  el_currentActiveChannel :: "nat option"
  el_pendingFunctors :: "Functor list"
  el_channels :: "int \<Rightarrow> nat option"
  el_wakeups :: nat

record world =
  loops :: "nat \<Rightarrow> event_loop"
  chans :: "nat \<Rightarrow> channel"
  threadLoop :: "nat \<Rightarrow> nat option"
  live :: "nat \<Rightarrow> bool"
  sys :: "sysev list"

definition upd_loop :: "nat \<Rightarrow> (event_loop \<Rightarrow> event_loop) \<Rightarrow> 'm world_scheme \<Rightarrow> 'm world_scheme" where
  "upd_loop l f w = w\<lparr>loops := (loops w)(l := f (loops w l))\<rparr>"

definition upd_chan :: "nat \<Rightarrow> (channel \<Rightarrow> channel) \<Rightarrow> 'm world_scheme \<Rightarrow> 'm world_scheme" where
  "upd_chan c f w = w\<lparr>chans := (chans w)(c := f (chans w c))\<rparr>"

definition log_sys :: "sysev \<Rightarrow> 'm world_scheme \<Rightarrow> 'm world_scheme" where
  "log_sys e w = w\<lparr>sys := sys w @ [e]\<rparr>"

type_synonym chan_map = "int \<Rightarrow> nat option"

record poller_ops =
  pl_updateChannel :: "nat \<Rightarrow> channel \<Rightarrow> chan_map \<Rightarrow> channel \<times> chan_map"
  pl_removeChannel :: "nat \<Rightarrow> channel \<Rightarrow> chan_map \<Rightarrow> channel \<times> chan_map"

text \<open>\<open>updateChannel\<close> registers the channel under its descriptor, \<open>removeChannel\<close> takes it
  out; both may use the member \<open>index_\<close> and change nothing else of the channel.\<close>

definition poller_ok :: "poller_ops \<Rightarrow> bool" where
  "poller_ok P \<longleftrightarrow>
     (\<forall>c ch m. \<exists>i. pl_updateChannel P c ch m = (ch\<lparr>ch_index := i\<rparr>, m(ch_fd ch \<mapsto> c))) \<and>
     (\<forall>c ch m. \<exists>i. pl_removeChannel P c ch m = (ch\<lparr>ch_index := i\<rparr>, m(ch_fd ch := None)))"

section \<open>The owning thread\<close>

definition isInLoopThread :: "nat \<Rightarrow> nat \<Rightarrow> 'm world_scheme \<Rightarrow> bool" where
  "isInLoopThread tid l w \<longleftrightarrow> el_threadId (loops w l) = tid"

definition assertInLoopThread :: "nat \<Rightarrow> nat \<Rightarrow> 'm world_scheme \<Rightarrow> 'a res \<Rightarrow> 'a res" where
  "assertInLoopThread tid l w k = check (isInLoopThread tid l w) Not_in_loop_thread k"

section \<open>Poller\<close>

definition pl_hasChannel :: "nat \<Rightarrow> nat \<Rightarrow> nat \<Rightarrow> 'm world_scheme \<Rightarrow> bool res" where
  "pl_hasChannel tid l c w =
     assertInLoopThread tid l w
       (Inr (el_channels (loops w l) (ch_fd (chans w c)) = Some c))"

section \<open>Registration of channels\<close>

definition updateChannel :: "poller_ops \<Rightarrow> nat \<Rightarrow> nat \<Rightarrow> nat \<Rightarrow> 'm world_scheme \<Rightarrow> 'm world_scheme res" where
  "updateChannel P tid l c w =
     check (ch_loop (chans w c) = l) Assertion_failed
       (assertInLoopThread tid l w
         (let (ch, m) = pl_updateChannel P c (chans w c) (el_channels (loops w l))
          in Inr (upd_loop l (\<lambda>el. el\<lparr>el_channels := m\<rparr>) (upd_chan c (\<lambda>_. ch) w))))"

definition removeChannel :: "poller_ops \<Rightarrow> nat \<Rightarrow> nat \<Rightarrow> nat \<Rightarrow> 'm world_scheme \<Rightarrow> 'm world_scheme res" where
  "removeChannel P tid l c w =
     check (ch_loop (chans w c) = l) Assertion_failed
       (assertInLoopThread tid l w
         (check (el_eventHandling (loops w l) \<longrightarrow>
                   el_currentActiveChannel (loops w l) = Some c \<or>
                   c \<notin> set (el_activeChannels (loops w l))) Assertion_failed
           (let (ch, m) = pl_removeChannel P c (chans w c) (el_channels (loops w l))
            in Inr (upd_loop l (\<lambda>el. el\<lparr>el_channels := m\<rparr>) (upd_chan c (\<lambda>_. ch) w)))))"

definition hasChannel :: "nat \<Rightarrow> nat \<Rightarrow> nat \<Rightarrow> 'm world_scheme \<Rightarrow> bool res" where
  "hasChannel tid l c w =
     check (ch_loop (chans w c) = l) Assertion_failed
       (assertInLoopThread tid l w (pl_hasChannel tid l c w))"

definition ch_update :: "poller_ops \<Rightarrow> nat \<Rightarrow> nat \<Rightarrow> 'm world_scheme \<Rightarrow> 'm world_scheme res" where
  "ch_update P tid c w =
     (let w = upd_chan c (\<lambda>ch. ch\<lparr>ch_addedToLoop := True\<rparr>) w
      in updateChannel P tid (ch_loop (chans w c)) c w)"

definition ch_remove :: "poller_ops \<Rightarrow> nat \<Rightarrow> nat \<Rightarrow> 'm world_scheme \<Rightarrow> 'm world_scheme res" where
  "ch_remove P tid c w =
     check (isNoneEvent (chans w c)) Assertion_failed
       (let w = upd_chan c (\<lambda>ch. ch\<lparr>ch_addedToLoop := False\<rparr>) w
        in removeChannel P tid (ch_loop (chans w c)) c w)"

definition enableReading :: "poller_ops \<Rightarrow> nat \<Rightarrow> nat \<Rightarrow> 'm world_scheme \<Rightarrow> 'm world_scheme res" where
  "enableReading P tid c w = ch_update P tid c (upd_chan c set_reading w)"

definition disableReading :: "poller_ops \<Rightarrow> nat \<Rightarrow> nat \<Rightarrow> 'm world_scheme \<Rightarrow> 'm world_scheme res" where
  "disableReading P tid c w = ch_update P tid c (upd_chan c clear_reading w)"

definition enableWriting :: "poller_ops \<Rightarrow> nat \<Rightarrow> nat \<Rightarrow> 'm world_scheme \<Rightarrow> 'm world_scheme res" where
  "enableWriting P tid c w = ch_update P tid c (upd_chan c set_writing w)"

definition disableWriting :: "poller_ops \<Rightarrow> nat \<Rightarrow> nat \<Rightarrow> 'm world_scheme \<Rightarrow> 'm world_scheme res" where
  "disableWriting P tid c w = ch_update P tid c (upd_chan c clear_writing w)"

definition disableAll :: "poller_ops \<Rightarrow> nat \<Rightarrow> nat \<Rightarrow> 'm world_scheme \<Rightarrow> 'm world_scheme res" where
  "disableAll P tid c w = ch_update P tid c (upd_chan c clear_all w)"

text \<open>The destructor's three assertions.\<close>

definition destroy_channel :: "nat \<Rightarrow> nat \<Rightarrow> 'm world_scheme \<Rightarrow> unit res" where
  "destroy_channel tid c w =
     check (\<not> ch_eventHandling (chans w c)) Assertion_failed
       (check (\<not> ch_addedToLoop (chans w c)) Assertion_failed
         (if isInLoopThread tid (ch_loop (chans w c)) w
          then rbind (hasChannel tid (ch_loop (chans w c)) c w)
                 (\<lambda>b. check (\<not> b) Assertion_failed (Inr ()))
          else Inr ()))"

section \<open>Queueing of functors\<close>

text \<open>An eventfd adds what is written to a counter, up to \<open>2\<^sup>6\<^sup>4 - 2\<close>, and gives back and
  clears the counter when it is read; it is readable while the counter is not zero.\<close>

definition el_wakeup :: "event_loop \<Rightarrow> event_loop" where
  "el_wakeup el = el\<lparr>el_wakeups := min (el_wakeups el + 1) (2 ^ 64 - 2)\<rparr>"

definition el_handleRead :: "event_loop \<Rightarrow> event_loop" where
  "el_handleRead el = el\<lparr>el_wakeups := 0\<rparr>"

definition el_push :: "Functor \<Rightarrow> event_loop \<Rightarrow> event_loop" where
  "el_push cb el = el\<lparr>el_pendingFunctors := el_pendingFunctors el @ [cb]\<rparr>"

definition el_needs_wakeup :: "nat \<Rightarrow> event_loop \<Rightarrow> bool" where
  "el_needs_wakeup tid el \<longleftrightarrow> el_threadId el \<noteq> tid \<or> el_callingPendingFunctors el"

definition el_queueInLoop :: "nat \<Rightarrow> Functor \<Rightarrow> event_loop \<Rightarrow> event_loop" where
  "el_queueInLoop tid cb el =
     (let el = el_push cb el in if el_needs_wakeup tid el then el_wakeup el else el)"

definition el_request_quit :: "event_loop \<Rightarrow> event_loop" where
  "el_request_quit el = el\<lparr>el_quit := True\<rparr>"

definition el_quit_op :: "nat \<Rightarrow> event_loop \<Rightarrow> event_loop" where
  "el_quit_op tid el =
     (let el = el_request_quit el in if el_threadId el \<noteq> tid then el_wakeup el else el)"

definition queueInLoop :: "nat \<Rightarrow> nat \<Rightarrow> Functor \<Rightarrow> 'm world_scheme \<Rightarrow> 'm world_scheme" where
  "queueInLoop tid l cb w = upd_loop l (el_queueInLoop tid cb) w"

text \<open>\<open>runInLoop\<close> gets the functor twice: as the closure that is queued and as the call
  itself.\<close>

definition runInLoop :: "nat \<Rightarrow> nat \<Rightarrow> Functor \<Rightarrow> ('m world_scheme \<Rightarrow> 'm world_scheme res)
    \<Rightarrow> 'm world_scheme \<Rightarrow> 'm world_scheme res" where
  "runInLoop tid l cb call w =
     (if isInLoopThread tid l w then call w else Inr (queueInLoop tid l cb w))"

text \<open>The overloads for rvalues, which move the functor, are written out a second time in the source.\<close>

definition queueInLoop_rvalue :: "nat \<Rightarrow> nat \<Rightarrow> Functor \<Rightarrow> 'm world_scheme \<Rightarrow> 'm world_scheme" where
  "queueInLoop_rvalue tid l cb w =
     (let w = upd_loop l (el_push cb) w
      in if \<not> isInLoopThread tid l w \<or> el_callingPendingFunctors (loops w l) then upd_loop l el_wakeup w else w)"

definition runInLoop_rvalue :: "nat \<Rightarrow> nat \<Rightarrow> Functor \<Rightarrow> ('m world_scheme \<Rightarrow> 'm world_scheme res)
    \<Rightarrow> 'm world_scheme \<Rightarrow> 'm world_scheme res" where
  "runInLoop_rvalue tid l cb call w =
     (if isInLoopThread tid l w then call w else Inr (queueInLoop_rvalue tid l cb w))"

definition queueSize :: "nat \<Rightarrow> 'm world_scheme \<Rightarrow> nat" where
  "queueSize l w = length (el_pendingFunctors (loops w l))"

definition quit :: "nat \<Rightarrow> nat \<Rightarrow> 'm world_scheme \<Rightarrow> 'm world_scheme" where
  "quit tid l w = upd_loop l (el_quit_op tid) w"

section \<open>Event dispatch\<close>

definition call_opt :: "('cb \<Rightarrow> 's \<Rightarrow> 's res) \<Rightarrow> 'cb option \<Rightarrow> 's \<Rightarrow> 's res" where
  "call_opt run cb s = (case cb of None \<Rightarrow> Inr s | Some f \<Rightarrow> run f s)"

definition handleEventWithGuard :: "(chan_cb \<Rightarrow> timestamp \<Rightarrow> 'm world_scheme \<Rightarrow> 'm world_scheme res)
    \<Rightarrow> nat \<Rightarrow> timestamp \<Rightarrow> 'm world_scheme \<Rightarrow> 'm world_scheme res" where
  "handleEventWithGuard run c t w =
     rbind (Inr (upd_chan c (\<lambda>ch. ch\<lparr>ch_eventHandling := True\<rparr>) w)) (\<lambda>w.
     rbind (if ch_revents (chans w c) AND POLLHUP \<noteq> 0 \<and> ch_revents (chans w c) AND POLLIN = 0
            then call_opt (\<lambda>f. run f t) (ch_closeCallback (chans w c)) w else Inr w) (\<lambda>w.
     rbind (if ch_revents (chans w c) AND (POLLERR OR POLLNVAL) \<noteq> 0
            then call_opt (\<lambda>f. run f t) (ch_errorCallback (chans w c)) w else Inr w) (\<lambda>w.
     rbind (if ch_revents (chans w c) AND (POLLIN OR POLLPRI OR POLLRDHUP) \<noteq> 0
            then call_opt (\<lambda>f. run f t) (ch_readCallback (chans w c)) w else Inr w) (\<lambda>w.
     rbind (if ch_revents (chans w c) AND POLLOUT \<noteq> 0
            then call_opt (\<lambda>f. run f t) (ch_writeCallback (chans w c)) w else Inr w) (\<lambda>w.
     Inr (upd_chan c (\<lambda>ch. ch\<lparr>ch_eventHandling := False\<rparr>) w))))))"

definition handleEvent :: "(chan_cb \<Rightarrow> timestamp \<Rightarrow> 'm world_scheme \<Rightarrow> 'm world_scheme res)
    \<Rightarrow> nat \<Rightarrow> timestamp \<Rightarrow> 'm world_scheme \<Rightarrow> 'm world_scheme res" where
  "handleEvent run c t w =
     (if ch_tied (chans w c)
      then (case ch_tie (chans w c) of
              None \<Rightarrow> Inr w
            | Some obj \<Rightarrow> if live w obj then handleEventWithGuard run c t w else Inr w)
      else handleEventWithGuard run c t w)"

section \<open>The loop\<close>

definition doPendingFunctors :: "(Functor \<Rightarrow> 'm world_scheme \<Rightarrow> 'm world_scheme res)
    \<Rightarrow> nat \<Rightarrow> 'm world_scheme \<Rightarrow> 'm world_scheme res" where
  "doPendingFunctors exec l w =
     (let w = upd_loop l (\<lambda>el. el\<lparr>el_callingPendingFunctors := True\<rparr>) w;
          functors = el_pendingFunctors (loops w l);
          w = upd_loop l (\<lambda>el. el\<lparr>el_pendingFunctors := []\<rparr>) w
      in rbind (runs exec functors w)
           (\<lambda>w. Inr (upd_loop l (\<lambda>el. el\<lparr>el_callingPendingFunctors := False\<rparr>) w)))"

text \<open>What \<open>poll\<close> gives back: its return time and the active channels with their events.\<close>

type_synonym poll_result = "timestamp \<times> (nat \<times> 32 word) list"

definition set_revents :: "nat \<times> 32 word \<Rightarrow> 'm world_scheme \<Rightarrow> 'm world_scheme" where
  "set_revents = (\<lambda>(c, r). upd_chan c (\<lambda>ch. ch\<lparr>ch_revents := r\<rparr>))"

definition loop_body :: "(chan_cb \<Rightarrow> timestamp \<Rightarrow> 'm world_scheme \<Rightarrow> 'm world_scheme res)
    \<Rightarrow> (Functor \<Rightarrow> 'm world_scheme \<Rightarrow> 'm world_scheme res)
    \<Rightarrow> nat \<Rightarrow> poll_result \<Rightarrow> 'm world_scheme \<Rightarrow> 'm world_scheme res" where
  "loop_body run exec l = (\<lambda>(t, act) w.
     let w = fold set_revents act w;
         w = upd_loop l (\<lambda>el. el\<lparr>el_activeChannels := map fst act, el_pollReturnTime := t,
               el_iteration := el_iteration el + 1, el_eventHandling := True\<rparr>) w
     in rbind (runs (\<lambda>c w. handleEvent run c (el_pollReturnTime (loops w l))
                 (upd_loop l (\<lambda>el. el\<lparr>el_currentActiveChannel := Some c\<rparr>) w)) (map fst act) w) (\<lambda>w.
        let w = upd_loop l (\<lambda>el. el\<lparr>el_currentActiveChannel := None, el_eventHandling := False\<rparr>) w
        in doPendingFunctors exec l w))"

text \<open>The \<open>while\<close> loop over the successive results of \<open>poll\<close>: it ends when \<open>quit_\<close> is set
  and is blocked in \<open>poll\<close> when there is no further result.\<close>

datatype 's outcome = Finished 's | Blocked 's

fun loop_while :: "(chan_cb \<Rightarrow> timestamp \<Rightarrow> 'm world_scheme \<Rightarrow> 'm world_scheme res)
    \<Rightarrow> (Functor \<Rightarrow> 'm world_scheme \<Rightarrow> 'm world_scheme res)
    \<Rightarrow> nat \<Rightarrow> poll_result list \<Rightarrow> 'm world_scheme \<Rightarrow> ('m world_scheme) outcome res" where
  "loop_while run exec l [] w =
     Inr (if el_quit (loops w l) then Finished w else Blocked w)"
| "loop_while run exec l (p # ps) w =
     (if el_quit (loops w l) then Inr (Finished w)
      else rbind (loop_body run exec l p w) (loop_while run exec l ps))"

definition loop :: "(chan_cb \<Rightarrow> timestamp \<Rightarrow> 'm world_scheme \<Rightarrow> 'm world_scheme res)
    \<Rightarrow> (Functor \<Rightarrow> 'm world_scheme \<Rightarrow> 'm world_scheme res)
    \<Rightarrow> nat \<Rightarrow> nat \<Rightarrow> poll_result list \<Rightarrow> 'm world_scheme \<Rightarrow> ('m world_scheme) outcome res" where
  "loop run exec tid l ps w =
     check (\<not> el_looping (loops w l)) Assertion_failed
       (assertInLoopThread tid l w
         (rbind (loop_while run exec l ps
                   (upd_loop l (\<lambda>el. el\<lparr>el_looping := True, el_quit := False\<rparr>) w))
            (\<lambda>r. Inr (case r of
                Finished w \<Rightarrow> Finished (upd_loop l (\<lambda>el. el\<lparr>el_looping := False\<rparr>) w)
              | Blocked w \<Rightarrow> Blocked w))))"

section \<open>Construction and destruction\<close>

definition fresh_event_loop :: "nat \<Rightarrow> event_loop" where
  "fresh_event_loop tid =
     \<lparr>el_looping = False, el_quit = False, el_eventHandling = False,
      el_callingPendingFunctors = False, el_iteration = 0, el_threadId = tid,
      el_pollReturnTime = 0, el_wakeupFd = -1, el_wakeupChannel = 0, el_context = None,
      el_activeChannels = [], el_currentActiveChannel = None, el_pendingFunctors = [],
      el_channels = (\<lambda>_. None), el_wakeups = 0\<rparr>"

definition setContext :: "nat \<Rightarrow> nat option \<Rightarrow> 'm world_scheme \<Rightarrow> 'm world_scheme" where
  "setContext l context = upd_loop l (\<lambda>el. el\<lparr>el_context := context\<rparr>)"

definition createEventfd :: "int \<Rightarrow> int res" where
  "createEventfd evtfd = check (0 \<le> evtfd) Process_exit (Inr evtfd)"

text \<open>\<open>evtfd\<close> is what \<open>eventfd\<close> returned, \<open>c\<close> the address of the new channel and
  \<open>mk_timers\<close> the constructor of the timer queue.\<close>

definition new_event_loop :: "poller_ops \<Rightarrow> ('m world_scheme \<Rightarrow> 'm world_scheme res)
    \<Rightarrow> nat \<Rightarrow> nat \<Rightarrow> int \<Rightarrow> nat \<Rightarrow> 'm world_scheme \<Rightarrow> 'm world_scheme res" where
  "new_event_loop P mk_timers tid l evtfd c w =
     rbind (mk_timers (upd_loop l (\<lambda>_. fresh_event_loop tid) w)) (\<lambda>w.
     rbind (createEventfd evtfd) (\<lambda>evtfd.
      (let w = upd_chan c (\<lambda>_. new_channel l evtfd) w;
           w = upd_loop l (\<lambda>el. el\<lparr>el_wakeupFd := evtfd, el_wakeupChannel := c\<rparr>) w
       in check (threadLoop w tid = None) Log_fatal
            (let w = w\<lparr>threadLoop := (threadLoop w)(tid := Some l)\<rparr>;
                 w = upd_chan c (setReadCallback (Cb_loop_handleRead l)) w
             in enableReading P tid c w))))"

definition destroy_event_loop :: "poller_ops \<Rightarrow> nat \<Rightarrow> nat \<Rightarrow> 'm world_scheme \<Rightarrow> 'm world_scheme res" where
  "destroy_event_loop P tid l w =
     (let c = el_wakeupChannel (loops w l) in
      rbind (disableAll P tid c w) (\<lambda>w.
      rbind (ch_remove P tid c w) (\<lambda>w.
      let w = log_sys (Ev_close (el_wakeupFd (loops w l))) w
      in Inr (w\<lparr>threadLoop := (threadLoop w)(tid := None)\<rparr>))))"

definition getEventLoopOfCurrentThread :: "nat \<Rightarrow> 'm world_scheme \<Rightarrow> nat option" where
  "getEventLoopOfCurrentThread tid w = threadLoop w tid"

section \<open>Reading the state after an update\<close>

lemmas world_ops = upd_loop_def upd_chan_def log_sys_def

lemma upd_loop_fields [simp]:
  "loops (upd_loop l f w) = (loops w)(l := f (loops w l))"
  "chans (upd_loop l f w) = chans w"
  "threadLoop (upd_loop l f w) = threadLoop w"
  "live (upd_loop l f w) = live w"
  "sys (upd_loop l f w) = sys w"
  by (simp_all add: upd_loop_def)

lemma upd_chan_fields [simp]:
  "chans (upd_chan c f w) = (chans w)(c := f (chans w c))"
  "loops (upd_chan c f w) = loops w"
  "threadLoop (upd_chan c f w) = threadLoop w"
  "live (upd_chan c f w) = live w"
  "sys (upd_chan c f w) = sys w"
  by (simp_all add: upd_chan_def)

lemma log_sys_fields [simp]:
  "sys (log_sys e w) = sys w @ [e]"
  "loops (log_sys e w) = loops w"
  "chans (log_sys e w) = chans w"
  "threadLoop (log_sys e w) = threadLoop w"
  "live (log_sys e w) = live w"
  by (simp_all add: log_sys_def)

lemma el_wakeups_wakeup [simp]: "0 < el_wakeups (el_wakeup el)"
  by (simp add: el_wakeup_def)

lemma el_wakeup_frame [simp]:
  "el_pendingFunctors (el_wakeup el) = el_pendingFunctors el"
  "el_callingPendingFunctors (el_wakeup el) = el_callingPendingFunctors el"
  "el_threadId (el_wakeup el) = el_threadId el"
  "el_quit (el_wakeup el) = el_quit el"
  by (simp_all add: el_wakeup_def)

lemma el_push_frame [simp]:
  "el_pendingFunctors (el_push cb el) = el_pendingFunctors el @ [cb]"
  "el_callingPendingFunctors (el_push cb el) = el_callingPendingFunctors el"
  "el_threadId (el_push cb el) = el_threadId el"
  "el_quit (el_push cb el) = el_quit el"
  "el_wakeups (el_push cb el) = el_wakeups el"
  by (simp_all add: el_push_def)

lemma el_queueInLoop_fields [simp]:
  "el_pendingFunctors (el_queueInLoop tid cb el) = el_pendingFunctors el @ [cb]"
  "el_callingPendingFunctors (el_queueInLoop tid cb el) = el_callingPendingFunctors el"
  "el_threadId (el_queueInLoop tid cb el) = el_threadId el"
  "el_quit (el_queueInLoop tid cb el) = el_quit el"
  by (simp_all add: el_queueInLoop_def Let_def)

lemma el_queueInLoop_wakes:
  "el_needs_wakeup tid el \<Longrightarrow> 0 < el_wakeups (el_queueInLoop tid cb el)"
  by (simp add: el_queueInLoop_def el_needs_wakeup_def Let_def)

lemma queueInLoop_fields [simp]:
  "chans (queueInLoop tid l cb w) = chans w"
  "threadLoop (queueInLoop tid l cb w) = threadLoop w"
  "live (queueInLoop tid l cb w) = live w"
  "sys (queueInLoop tid l cb w) = sys w"
  "loops (queueInLoop tid l cb w) = (loops w)(l := el_queueInLoop tid cb (loops w l))"
  by (simp_all add: queueInLoop_def)

lemma rvalue_overloads:
  "queueInLoop_rvalue tid l cb w = queueInLoop tid l cb w"
  "runInLoop_rvalue tid l cb call w = runInLoop tid l cb call w"
proof -
  show q: "queueInLoop_rvalue tid l cb w = queueInLoop tid l cb w"
    by (simp add: queueInLoop_rvalue_def queueInLoop_def el_queueInLoop_def el_needs_wakeup_def isInLoopThread_def
        upd_loop_def Let_def)
  show "runInLoop_rvalue tid l cb call w = runInLoop tid l cb call w"
    by (simp add: runInLoop_rvalue_def runInLoop_def q)
qed

lemma isInLoopThread_upd [simp]:
  "isInLoopThread tid l (upd_chan c f w) = isInLoopThread tid l w"
  "isInLoopThread tid l (log_sys e w) = isInLoopThread tid l w"
  "isInLoopThread tid l (queueInLoop t m cb w) = isInLoopThread tid l w"
  by (simp_all add: isInLoopThread_def)

section \<open>Registration goes through the loop thread\<close>

text \<open>The state after a successful \<open>update\<close> and \<open>remove\<close> of a channel.\<close>

definition registered :: "int \<Rightarrow> nat \<Rightarrow> 'm world_scheme \<Rightarrow> 'm world_scheme" where
  "registered i c w =
     upd_loop (ch_loop (chans w c)) (\<lambda>el. el\<lparr>el_channels := (el_channels el)(ch_fd (chans w c) \<mapsto> c)\<rparr>)
       (upd_chan c (\<lambda>ch. ch\<lparr>ch_addedToLoop := True, ch_index := i\<rparr>) w)"

definition unregistered :: "int \<Rightarrow> nat \<Rightarrow> 'm world_scheme \<Rightarrow> 'm world_scheme" where
  "unregistered i c w =
     upd_loop (ch_loop (chans w c)) (\<lambda>el. el\<lparr>el_channels := (el_channels el)(ch_fd (chans w c) := None)\<rparr>)
       (upd_chan c (\<lambda>ch. ch\<lparr>ch_addedToLoop := False, ch_index := i\<rparr>) w)"

lemma poller_okD:
  "poller_ok P \<Longrightarrow> \<exists>i. pl_updateChannel P c ch m = (ch\<lparr>ch_index := i\<rparr>, m(ch_fd ch \<mapsto> c))"
  "poller_ok P \<Longrightarrow> \<exists>i. pl_removeChannel P c ch m = (ch\<lparr>ch_index := i\<rparr>, m(ch_fd ch := None))"
  by (simp_all add: poller_ok_def)

lemma ch_update_eq:
  assumes "poller_ok P"
  shows "\<exists>i. ch_update P tid c w =
    check (isInLoopThread tid (ch_loop (chans w c)) w) Not_in_loop_thread (Inr (registered i c w))"
proof -
  obtain i where "pl_updateChannel P c ((chans w c)\<lparr>ch_addedToLoop := True\<rparr>)
      (el_channels (loops w (ch_loop (chans w c)))) =
    ((chans w c)\<lparr>ch_addedToLoop := True\<rparr>\<lparr>ch_index := i\<rparr>,
     (el_channels (loops w (ch_loop (chans w c))))(ch_fd (chans w c) \<mapsto> c))"
    using poller_okD(1) [OF assms, of c "(chans w c)\<lparr>ch_addedToLoop := True\<rparr>"
        "el_channels (loops w (ch_loop (chans w c)))"] by auto
  then have "ch_update P tid c w =
    check (isInLoopThread tid (ch_loop (chans w c)) w) Not_in_loop_thread (Inr (registered i c w))"
    by (simp add: ch_update_def updateChannel_def assertInLoopThread_def Let_def registered_def
        world_ops isInLoopThread_def)
  then show ?thesis by blast
qed

definition may_remove :: "nat \<Rightarrow> 'm world_scheme \<Rightarrow> bool" where
  "may_remove c w \<longleftrightarrow>
     (let el = loops w (ch_loop (chans w c)) in
      el_eventHandling el \<longrightarrow>
        el_currentActiveChannel el = Some c \<or> c \<notin> set (el_activeChannels el))"

lemma ch_remove_eq:
  assumes "poller_ok P"
  shows "\<exists>i. ch_remove P tid c w =
    check (isNoneEvent (chans w c)) Assertion_failed
     (check (isInLoopThread tid (ch_loop (chans w c)) w) Not_in_loop_thread
       (check (may_remove c w) Assertion_failed (Inr (unregistered i c w))))"
proof -
  obtain i where "pl_removeChannel P c ((chans w c)\<lparr>ch_addedToLoop := False\<rparr>)
      (el_channels (loops w (ch_loop (chans w c)))) =
    ((chans w c)\<lparr>ch_addedToLoop := False\<rparr>\<lparr>ch_index := i\<rparr>,
     (el_channels (loops w (ch_loop (chans w c))))(ch_fd (chans w c) := None))"
    using poller_okD(2) [OF assms, of c "(chans w c)\<lparr>ch_addedToLoop := False\<rparr>"
        "el_channels (loops w (ch_loop (chans w c)))"] by auto
  then have "ch_remove P tid c w =
    check (isNoneEvent (chans w c)) Assertion_failed
     (check (isInLoopThread tid (ch_loop (chans w c)) w) Not_in_loop_thread
       (check (may_remove c w) Assertion_failed (Inr (unregistered i c w))))"
    by (simp add: ch_remove_def removeChannel_def assertInLoopThread_def Let_def unregistered_def
        may_remove_def world_ops isInLoopThread_def)
  then show ?thesis by blast
qed

text \<open>The contract the methods named \<open>...InLoop\<close> share: called on a foreign thread they stop
  the process, so every caller outside reaches them through \<open>runInLoop\<close>.\<close>

locale in_loop_op =
  fixes run_op :: "nat \<Rightarrow> 'm world_scheme \<Rightarrow> 'm world_scheme res"
    and home :: "'m world_scheme \<Rightarrow> nat"
  assumes guard: "\<not> isInLoopThread tid (home w) w \<Longrightarrow> run_op tid w = Inl Not_in_loop_thread"
begin

lemma in_thread: "run_op tid w = Inr w' \<Longrightarrow> isInLoopThread tid (home w) w"
  using guard by fastforce

lemma runInLoop_cases:
  assumes "runInLoop tid (home w) cb (run_op tid) w = Inr w'"
  obtains (called) "isInLoopThread tid (home w) w" "run_op tid w = Inr w'"
  | (queued) "\<not> isInLoopThread tid (home w) w" "w' = queueInLoop tid (home w) cb w"
  using assms by (auto simp: runInLoop_def split: if_splits)

lemma off_thread:
  assumes "\<not> isInLoopThread tid (home w) w"
  shows "\<exists>w'. runInLoop tid (home w) cb (run_op tid) w = Inr w' \<and>
    chans w' = chans w \<and> sys w' = sys w \<and>
    el_pendingFunctors (loops w' (home w)) = el_pendingFunctors (loops w (home w)) @ [cb] \<and>
    0 < el_wakeups (loops w' (home w))"
  using assms
  by (simp add: runInLoop_def isInLoopThread_def el_queueInLoop_wakes el_needs_wakeup_def)

end

lemma enableReading_guard:
  "\<not> isInLoopThread tid (ch_loop (chans w c)) w \<Longrightarrow> enableReading P tid c w = Inl Not_in_loop_thread"
  by (simp add: enableReading_def ch_update_def updateChannel_def assertInLoopThread_def Let_def
      set_reading_def)

section \<open>Dispatch\<close>

text \<open>The callbacks that the returned events select, in the order in which they run.\<close>

definition selected_callbacks :: "channel \<Rightarrow> chan_cb list" where
  "selected_callbacks ch =
     concat (map (\<lambda>(b, cb). if b then (case cb of None \<Rightarrow> [] | Some f \<Rightarrow> [f]) else [])
       [(ch_revents ch AND POLLHUP \<noteq> 0 \<and> ch_revents ch AND POLLIN = 0, ch_closeCallback ch),
        (ch_revents ch AND (POLLERR OR POLLNVAL) \<noteq> 0, ch_errorCallback ch),
        (ch_revents ch AND (POLLIN OR POLLPRI OR POLLRDHUP) \<noteq> 0, ch_readCallback ch),
        (ch_revents ch AND POLLOUT \<noteq> 0, ch_writeCallback ch)])"

definition same_dispatch :: "nat \<Rightarrow> 'm world_scheme \<Rightarrow> 'm world_scheme \<Rightarrow> bool" where
  "same_dispatch c w w' \<longleftrightarrow>
     ch_revents (chans w' c) = ch_revents (chans w c) \<and>
     ch_closeCallback (chans w' c) = ch_closeCallback (chans w c) \<and>
     ch_errorCallback (chans w' c) = ch_errorCallback (chans w c) \<and>
     ch_readCallback (chans w' c) = ch_readCallback (chans w c) \<and>
     ch_writeCallback (chans w' c) = ch_writeCallback (chans w c)"

text \<open>Callbacks that leave the returned events and the registered callbacks of the channel
  alone: only the poller writes the former and only the owner's constructor the latter.\<close>

definition keeps_dispatch :: "('cb \<Rightarrow> 'm world_scheme \<Rightarrow> 'm world_scheme res) \<Rightarrow> nat \<Rightarrow> bool" where
  "keeps_dispatch run c \<longleftrightarrow> (\<forall>cb v v'. run cb v = Inr v' \<longrightarrow> same_dispatch c v v')"

lemma call_opt_runs:
  "call_opt run cb s = runs run (case cb of None \<Rightarrow> [] | Some f \<Rightarrow> [f]) s"
  by (cases cb; cases "run (the cb) s") (simp_all add: call_opt_def)

lemma runs_if: "(if b then runs f xs s else Inr s) = runs f (if b then xs else []) s"
  by simp

lemma rbind_cong_Inr: "(\<And>x. m = Inr x \<Longrightarrow> f x = g x) \<Longrightarrow> rbind m f = rbind m g"
  by (cases m) auto

lemma same_dispatch_refl [simp]: "same_dispatch c w w"
  by (simp add: same_dispatch_def)

lemma same_dispatch_trans: "same_dispatch c u v \<Longrightarrow> same_dispatch c v w \<Longrightarrow> same_dispatch c u w"
  by (simp add: same_dispatch_def)

lemma runs_same_dispatch:
  assumes "keeps_dispatch run c"
  shows "runs run fs v = Inr v' \<Longrightarrow> same_dispatch c v v'"
proof (induction fs arbitrary: v)
  case Nil
  then show ?case by simp
next
  case (Cons f fs)
  then obtain u where "run f v = Inr u" and "runs run fs u = Inr v'" by auto
  then show ?case using assms Cons.IH same_dispatch_trans unfolding keeps_dispatch_def by blast
qed

text \<open>One test of \<open>handleEventWithGuard\<close>, with the continuation.\<close>

lemma dispatch_stage:
  assumes keep: "keeps_dispatch run c"
    and same: "same_dispatch c w0 w"
    and B: "b \<longleftrightarrow> b0" and C: "cb = cb0"
    and K: "\<And>v. same_dispatch c w0 v \<Longrightarrow> k v = rbind (runs run fs v) fin"
  shows "rbind (if b then call_opt run cb w else Inr w) k =
    rbind (runs run ((if b0 then (case cb0 of None \<Rightarrow> [] | Some f \<Rightarrow> [f]) else []) @ fs) w) fin"
proof -
  let ?gs = "if b0 then (case cb0 of None \<Rightarrow> [] | Some f \<Rightarrow> [f]) else []"
  have "rbind (if b then call_opt run cb w else Inr w) k = rbind (runs run ?gs w) k"
    by (simp add: B C call_opt_runs)
  also have "\<dots> = rbind (runs run ?gs w) (\<lambda>v. rbind (runs run fs v) fin)"
  proof (rule rbind_cong_Inr)
    fix v assume "runs run ?gs w = Inr v"
    then have "same_dispatch c w v" by (rule runs_same_dispatch [OF keep])
    then show "k v = rbind (runs run fs v) fin" by (intro K same_dispatch_trans [OF same])
  qed
  also have "\<dots> = rbind (runs run (?gs @ fs) w) fin"
    by (simp add: runs_append rbind_assoc)
  finally show ?thesis .
qed

lemma handleEventWithGuard_runs:
  assumes keep: "keeps_dispatch (\<lambda>cb. run cb t) c"
  shows "handleEventWithGuard run c t w =
    rbind (runs (\<lambda>cb. run cb t) (selected_callbacks (chans w c))
             (upd_chan c (\<lambda>ch. ch\<lparr>ch_eventHandling := True\<rparr>) w))
      (\<lambda>w. Inr (upd_chan c (\<lambda>ch. ch\<lparr>ch_eventHandling := False\<rparr>) w))"
proof -
  let ?w = "upd_chan c (\<lambda>ch. ch\<lparr>ch_eventHandling := True\<rparr>) w"
  have sd: "same_dispatch c w ?w" by (simp add: same_dispatch_def)
  note stage = dispatch_stage [OF keep, of w]
  show ?thesis
    unfolding handleEventWithGuard_def selected_callbacks_def rbind_simps list.map concat.simps
      prod.case
    apply (rule stage [OF sd])
      apply (simp_all add: same_dispatch_def)[2]
    apply (rule stage, assumption)
      apply (simp_all add: same_dispatch_def)[2]
    apply (rule stage, assumption)
      apply (simp_all add: same_dispatch_def)[2]
    apply (rule stage, assumption)
      apply (simp_all add: same_dispatch_def)[2]
    apply simp
    done
qed


text \<open>The wakeup channel of a loop with two unread wakeups, readable and hung up at once: the
  read callback empties the eventfd and the close callback is not run.\<close>

definition sample_run :: "chan_cb \<Rightarrow> timestamp \<Rightarrow> world \<Rightarrow> world res" where
  "sample_run cb t w =
     (case cb of Cb_loop_handleRead l \<Rightarrow> Inr (upd_loop l el_handleRead w) | _ \<Rightarrow> Inl Assertion_failed)"

definition sample_dispatch :: world where
  "sample_dispatch =
     \<lparr>loops = (\<lambda>_. (fresh_event_loop 1)\<lparr>el_wakeups := 2\<rparr>),
      chans = (\<lambda>_. setCloseCallback_ch (Cb_user 0) (setReadCallback (Cb_loop_handleRead 0)
                 ((new_channel 0 5)\<lparr>ch_revents := POLLIN OR POLLHUP\<rparr>))),
      threadLoop = (\<lambda>_. None), live = (\<lambda>_. True), sys = []\<rparr>"

lemma sample_run_keeps: "keeps_dispatch (\<lambda>cb. sample_run cb 7) 3"
  by (auto simp: keeps_dispatch_def sample_run_def same_dispatch_def split: chan_cb.splits)


end
