(* ===== verification/Reactor_Wakeup.thy ===== *)
theory Reactor_Wakeup
  imports Reactor_Loop
begin

text \<open>
  The event loop under concurrency: the loop's own thread runs \<open>EventLoop::loop\<close> while other
  threads call \<open>queueInLoop\<close> and \<open>quit\<close> at any moment. A step is one access to the shared
  state (the functor queue under its mutex, the eventfd, the flags); the calls of other threads
  are cut between the access to the queue or the flag and the write to the eventfd.
  The pieces of the steps are the ones \<open>queueInLoop\<close>, \<open>quit\<close>, \<open>handleRead\<close>
  and \<open>doPendingFunctors\<close> of \<open>Reactor_Loop\<close> are made of.

  \<open>c_pushed\<close> and \<open>c_done\<close> record which functors were queued and which were started.
\<close>

section \<open>The interleaving\<close>

text \<open>Where the loop's thread is: outside \<open>loop()\<close>; at the test of \<open>while (!quit_)\<close>; in
  \<open>poll\<close>; in the event callbacks, with the flag whether the wakeup channel is still to be
  served; in \<open>doPendingFunctors\<close>, with the functors of the local vector still to be run.\<close>

datatype pc = Outside | Head | Polling | Handling bool | Draining "Functor list"

record conc =
  c_pc :: pc
  c_loop :: event_loop
  c_callers :: "nat list"
  c_quitters :: "nat list"
  c_early :: bool
  c_pushed :: "Functor list"
  c_done :: "Functor list"

definition conc_init :: "nat \<Rightarrow> conc" where
  "conc_init tid =
     \<lparr>c_pc = Outside, c_loop = fresh_event_loop tid, c_callers = [], c_quitters = [],
      c_early = False, c_pushed = [], c_done = []\<rparr>"

definition enter_loop :: "event_loop \<Rightarrow> event_loop" where
  "enter_loop el = el\<lparr>el_looping := True, el_quit := False\<rparr>"

definition leave_loop :: "event_loop \<Rightarrow> event_loop" where
  "leave_loop el = el\<lparr>el_looping := False\<rparr>"

definition swap_functors :: "event_loop \<Rightarrow> event_loop" where
  "swap_functors el = el\<lparr>el_callingPendingFunctors := True, el_pendingFunctors := []\<rparr>"

definition end_functors :: "event_loop \<Rightarrow> event_loop" where
  "end_functors el = el\<lparr>el_callingPendingFunctors := False\<rparr>"

definition finish_queueInLoop :: "nat \<Rightarrow> event_loop \<Rightarrow> event_loop" where
  "finish_queueInLoop tid el = (if el_needs_wakeup tid el then el_wakeup el else el)"

definition finish_quit :: "nat \<Rightarrow> event_loop \<Rightarrow> event_loop" where
  "finish_quit tid el = (if el_threadId el \<noteq> tid then el_wakeup el else el)"

text \<open>The moves of the loop's thread.\<close>

inductive loop_step :: "conc \<Rightarrow> conc \<Rightarrow> bool" where
  enter: "c_pc s = Outside \<Longrightarrow>
     loop_step s (s\<lparr>c_pc := Head, c_loop := enter_loop (c_loop s)\<rparr>)"
| head_exit: "c_pc s = Head \<Longrightarrow> el_quit (c_loop s) \<Longrightarrow>
     loop_step s (s\<lparr>c_pc := Outside, c_loop := leave_loop (c_loop s)\<rparr>)"
| head_poll: "c_pc s = Head \<Longrightarrow> \<not> el_quit (c_loop s) \<Longrightarrow> loop_step s (s\<lparr>c_pc := Polling\<rparr>)"
| poll_return: "c_pc s = Polling \<Longrightarrow>
     loop_step s (s\<lparr>c_pc := Handling (0 < el_wakeups (c_loop s))\<rparr>)"
| serve_wakeup: "c_pc s = Handling True \<Longrightarrow>
     loop_step s (s\<lparr>c_pc := Handling False, c_loop := el_handleRead (c_loop s)\<rparr>)"
| swap: "c_pc s = Handling False \<Longrightarrow>
     loop_step s (s\<lparr>c_pc := Draining (el_pendingFunctors (c_loop s)),
       c_loop := swap_functors (c_loop s), c_early := False\<rparr>)"
| exec: "c_pc s = Draining (f # fs) \<Longrightarrow>
     loop_step s (s\<lparr>c_pc := Draining fs, c_done := c_done s @ [f]\<rparr>)"
| drained: "c_pc s = Draining [] \<Longrightarrow>
     loop_step s (s\<lparr>c_pc := Head, c_loop := end_functors (c_loop s)\<rparr>)"

text \<open>Calls that callbacks and functors make on the loop's own thread.\<close>

inductive local_step :: "conc \<Rightarrow> conc \<Rightarrow> bool" where
  local_queue: "c_pc s = Handling b \<or> c_pc s = Draining fs \<Longrightarrow>
     local_step s (s\<lparr>c_loop := el_queueInLoop (el_threadId (c_loop s)) f (c_loop s),
       c_pushed := c_pushed s @ [f]\<rparr>)"
| early_queue: "c_pc s = Outside \<Longrightarrow>
     local_step s (s\<lparr>c_loop := el_queueInLoop (el_threadId (c_loop s)) f (c_loop s),
       c_early := True, c_pushed := c_pushed s @ [f]\<rparr>)"
| local_quit: "c_pc s = Handling b \<or> c_pc s = Draining fs \<or> c_pc s = Outside \<Longrightarrow>
     local_step s (s\<lparr>c_loop := el_quit_op (el_threadId (c_loop s)) (c_loop s)\<rparr>)"

text \<open>Calls on other threads, in two steps each.\<close>

inductive foreign_step :: "conc \<Rightarrow> conc \<Rightarrow> bool" where
  push: "t \<noteq> el_threadId (c_loop s) \<Longrightarrow>
     foreign_step s (s\<lparr>c_loop := el_push f (c_loop s), c_callers := t # c_callers s,
       c_pushed := c_pushed s @ [f]\<rparr>)"
| wake: "t \<in> set (c_callers s) \<Longrightarrow>
     foreign_step s (s\<lparr>c_loop := finish_queueInLoop t (c_loop s),
       c_callers := remove1 t (c_callers s)\<rparr>)"
| set_quit: "t \<noteq> el_threadId (c_loop s) \<Longrightarrow>
     foreign_step s (s\<lparr>c_loop := el_request_quit (c_loop s), c_quitters := t # c_quitters s\<rparr>)"
| quit_wake: "t \<in> set (c_quitters s) \<Longrightarrow>
     foreign_step s (s\<lparr>c_loop := finish_quit t (c_loop s),
       c_quitters := remove1 t (c_quitters s)\<rparr>)"

definition conc_step :: "conc \<Rightarrow> conc \<Rightarrow> bool" where
  "conc_step s t \<longleftrightarrow> loop_step s t \<or> local_step s t \<or> foreign_step s t"

definition conc_reach :: "nat \<Rightarrow> conc \<Rightarrow> bool" where
  "conc_reach tid = reach (\<lambda>s. s = conc_init tid) conc_step"

lemma split_queueInLoop:
  "el_queueInLoop tid cb el = finish_queueInLoop tid (el_push cb el)"
  by (simp add: el_queueInLoop_def finish_queueInLoop_def Let_def)

lemma split_quit: "el_quit_op tid el = finish_quit tid (el_request_quit el)"
  by (simp add: el_quit_op_def finish_quit_def el_request_quit_def Let_def)

section \<open>The invariant\<close>

fun running :: "pc \<Rightarrow> Functor list" where
  "running (Draining fs) = fs"
| "running _ = []"

fun is_handling :: "pc \<Rightarrow> bool" where
  "is_handling (Handling b) = True"
| "is_handling _ = False"

fun is_draining :: "pc \<Rightarrow> bool" where
  "is_draining (Draining fs) = True"
| "is_draining _ = False"

definition wake_inv :: "conc \<Rightarrow> bool" where
  "wake_inv s \<longleftrightarrow>
     el_threadId (c_loop s) \<notin> set (c_callers s) \<and>
     el_threadId (c_loop s) \<notin> set (c_quitters s) \<and>
     (el_callingPendingFunctors (c_loop s) \<longleftrightarrow> is_draining (c_pc s)) \<and>
     (is_handling (c_pc s) \<or> c_early s \<or> el_pendingFunctors (c_loop s) = [] \<or>
       c_callers s \<noteq> [] \<or> 0 < el_wakeups (c_loop s)) \<and>
     (c_pc s \<noteq> Polling \<or> \<not> el_quit (c_loop s) \<or> c_quitters s \<noteq> [] \<or> 0 < el_wakeups (c_loop s)) \<and>
     c_pushed s = c_done s @ running (c_pc s) @ el_pendingFunctors (c_loop s)"

lemmas conc_ops = enter_loop_def leave_loop_def swap_functors_def end_functors_def
  el_handleRead_def el_request_quit_def finish_quit_def finish_queueInLoop_def

lemma wake_inv_init: "wake_inv (conc_init tid)"
  by (simp add: wake_inv_def conc_init_def fresh_event_loop_def)

lemma loop_step_inv: "loop_step s t \<Longrightarrow> wake_inv s \<Longrightarrow> wake_inv t"
  by (induction rule: loop_step.induct) (auto simp: wake_inv_def conc_ops)

lemma local_step_inv: "local_step s t \<Longrightarrow> wake_inv s \<Longrightarrow> wake_inv t"
proof (induction rule: local_step.induct)
  case (local_queue s b fs f)
  have "0 < el_wakeups (el_queueInLoop (el_threadId (c_loop s)) f (c_loop s))"
    if "el_callingPendingFunctors (c_loop s)"
    by (rule el_queueInLoop_wakes) (simp add: el_needs_wakeup_def that)
  with local_queue show ?case by (auto simp: wake_inv_def)
next
  case (early_queue s f)
  then show ?case by (auto simp: wake_inv_def)
next
  case (local_quit s b fs)
  then show ?case by (auto simp: wake_inv_def el_quit_op_def el_request_quit_def Let_def)
qed

lemma foreign_step_inv: "foreign_step s t \<Longrightarrow> wake_inv s \<Longrightarrow> wake_inv t"
proof (induction rule: foreign_step.induct)
  case (push t s f)
  then show ?case by (auto simp: wake_inv_def)
next
  case (wake t s)
  then have "el_threadId (c_loop s) \<noteq> t" by (auto simp: wake_inv_def)
  with wake show ?case
    by (auto simp: wake_inv_def finish_queueInLoop_def el_needs_wakeup_def dest: notin_set_remove1)
next
  case (set_quit t s)
  then show ?case by (auto simp: wake_inv_def el_request_quit_def)
next
  case (quit_wake t s)
  then have "el_threadId (c_loop s) \<noteq> t" by (auto simp: wake_inv_def)
  with quit_wake show ?case
    by (auto simp: wake_inv_def finish_quit_def dest: notin_set_remove1)
qed

interpretation wakeup: inductive_invariant "\<lambda>s. s = conc_init tid" conc_step wake_inv
  by unfold_locales
    (auto simp: conc_step_def wake_inv_init loop_step_inv local_step_inv foreign_step_inv)

lemma conc_reach_inv: "conc_reach tid s \<Longrightarrow> wake_inv s"
  unfolding conc_reach_def by (rule wakeup.reach_inv)

lemmas conc_reach_intros =
  reach.reach_init [where init = "\<lambda>s. s = conc_init tid" and step = conc_step, folded conc_reach_def]
  reach.reach_step [where init = "\<lambda>s. s = conc_init tid" and step = conc_step, folded conc_reach_def]
  for tid

section \<open>Executions\<close>

lemma conc_reach_start: "conc_reach tid (conc_init tid)"
  by (simp add: conc_reach_intros)

lemma conc_reach_loop: "conc_reach tid s \<Longrightarrow> loop_step s t \<Longrightarrow> conc_reach tid t"
  by (auto intro: conc_reach_intros(2) simp: conc_step_def)

lemma conc_reach_local: "conc_reach tid s \<Longrightarrow> local_step s t \<Longrightarrow> conc_reach tid t"
  by (auto intro: conc_reach_intros(2) simp: conc_step_def)

lemma conc_reach_foreign: "conc_reach tid s \<Longrightarrow> foreign_step s t \<Longrightarrow> conc_reach tid t"
  by (auto intro: conc_reach_intros(2) simp: conc_step_def)

text \<open>From outside, \<open>loop()\<close> goes to its first \<open>poll\<close>.\<close>

lemma conc_reach_first_poll:
  assumes "conc_reach tid s" and "c_pc s = Outside"
  shows "conc_reach tid (s\<lparr>c_loop := enter_loop (c_loop s), c_pc := Polling\<rparr>)"
proof -
  let ?s1 = "s\<lparr>c_pc := Head, c_loop := enter_loop (c_loop s)\<rparr>"
  have "conc_reach tid ?s1"
    using assms by (intro conc_reach_loop [OF assms(1)] loop_step.enter)
  moreover have "loop_step ?s1 (?s1\<lparr>c_pc := Polling\<rparr>)"
    by (rule loop_step.head_poll) (simp_all add: enter_loop_def)
  ultimately have "conc_reach tid (?s1\<lparr>c_pc := Polling\<rparr>)"
    by (rule conc_reach_loop)
  then show ?thesis by simp
qed

lemma conc_reach_foreign_queue:
  assumes "conc_reach tid s" and "t \<noteq> el_threadId (c_loop s)"
  shows "conc_reach tid (s\<lparr>c_pushed := c_pushed s @ [f], c_loop := el_queueInLoop t f (c_loop s)\<rparr>)"
proof -
  let ?s1 = "s\<lparr>c_loop := el_push f (c_loop s), c_callers := t # c_callers s,
    c_pushed := c_pushed s @ [f]\<rparr>"
  have "conc_reach tid ?s1"
    using assms by (intro conc_reach_foreign [OF assms(1)] foreign_step.push)
  moreover have "foreign_step ?s1 (?s1\<lparr>c_loop := finish_queueInLoop t (c_loop ?s1),
      c_callers := remove1 t (c_callers ?s1)\<rparr>)"
    by (rule foreign_step.wake) simp
  ultimately have "conc_reach tid (?s1\<lparr>c_loop := finish_queueInLoop t (c_loop ?s1),
      c_callers := remove1 t (c_callers ?s1)\<rparr>)"
    by (rule conc_reach_foreign)
  then show ?thesis by (simp add: split_queueInLoop)
qed

lemma drain_all:
  "c_pc s = Draining fs \<Longrightarrow> loop_step\<^sup>*\<^sup>* s (s\<lparr>c_pc := Draining [], c_done := c_done s @ fs\<rparr>)"
proof (induction fs arbitrary: s)
  case Nil
  then have "s\<lparr>c_pc := Draining [], c_done := c_done s @ []\<rparr> = s" by simp
  then show ?case by (metis rtranclp.rtrancl_refl)
next
  case (Cons f fs)
  let ?s1 = "s\<lparr>c_pc := Draining fs, c_done := c_done s @ [f]\<rparr>"
  have "loop_step s ?s1" using Cons.prems by (rule loop_step.exec)
  moreover have "loop_step\<^sup>*\<^sup>* ?s1 (?s1\<lparr>c_pc := Draining [], c_done := c_done ?s1 @ fs\<rparr>)"
    by (rule Cons.IH) simp
  ultimately show ?case by (simp add: converse_rtranclp_into_rtranclp)
qed

lemma serve_all:
  assumes "c_pc s = Handling b"
  shows "\<exists>u. loop_step\<^sup>*\<^sup>* s u \<and> c_pc u = Handling False \<and> c_done u = c_done s \<and>
    c_pushed u = c_pushed s \<and> el_pendingFunctors (c_loop u) = el_pendingFunctors (c_loop s)"
proof (cases b)
  case True
  let ?u = "s\<lparr>c_pc := Handling False, c_loop := el_handleRead (c_loop s)\<rparr>"
  have "loop_step s ?u" using assms True by (intro loop_step.serve_wakeup) simp
  then show ?thesis by (intro exI [of _ ?u]) (auto simp: el_handleRead_def)
next
  case False
  with assms show ?thesis by auto
qed

section \<open>Properties\<close>



text \<open>C2. Every functor is run exactly once and in the order of the calls: at any moment the
  functors queued so far are those already started, then those of the current batch, then the
  pending ones.\<close>

theorem functors_once_in_order:
  assumes "conc_reach tid s"
  shows "c_pushed s = c_done s @ running (c_pc s) @ el_pendingFunctors (c_loop s)"
  using conc_reach_inv [OF assms] by (simp add: wake_inv_def)

theorem functors_once_in_order_witness:
  "\<exists>s. conc_reach 1 s \<and> c_pushed s = [F_user 7] \<and>
     [F_user 7] = c_done s @ running (c_pc s) @ el_pendingFunctors (c_loop s)"
proof -
  let ?s = "(conc_init 1)\<lparr>c_pushed := c_pushed (conc_init 1) @ [F_user 7],
    c_loop := el_queueInLoop 2 (F_user 7) (c_loop (conc_init 1))\<rparr>"
  have r: "conc_reach 1 ?s"
    by (rule conc_reach_foreign_queue [OF conc_reach_start])
      (simp add: conc_init_def fresh_event_loop_def)
  have p: "c_pushed ?s = [F_user 7]" by (simp add: conc_init_def)
  from functors_once_in_order [OF r] have
    "[F_user 7] = c_done ?s @ running (c_pc ?s) @ el_pendingFunctors (c_loop ?s)"
    by (simp only: p)
  with r p show ?thesis by blast
qed

text \<open>C20. A \<open>quit()\<close> of another thread is not lost either: when the loop is in \<open>poll\<close> with
  \<open>quit_\<close> set and no other thread is inside \<open>quit()\<close>, the eventfd is readable.\<close>

theorem quit_not_lost:
  assumes "conc_reach tid s" and "c_pc s = Polling" and "el_quit (c_loop s)" and "c_quitters s = []"
  shows "0 < el_wakeups (c_loop s)"
  using conc_reach_inv [OF assms(1)] assms(2-4) by (simp add: wake_inv_def)

theorem quit_not_lost_witness:
  "\<exists>s. conc_reach 1 s \<and> c_pc s = Polling \<and> el_quit (c_loop s) \<and> c_quitters s = [] \<and>
     0 < el_wakeups (c_loop s)"
proof -
  let ?i = "(conc_init 1)\<lparr>c_loop := enter_loop (c_loop (conc_init 1)), c_pc := Polling\<rparr>"
  let ?s1 = "?i\<lparr>c_loop := el_request_quit (c_loop ?i), c_quitters := 2 # c_quitters ?i\<rparr>"
  let ?s = "?s1\<lparr>c_loop := finish_quit 2 (c_loop ?s1), c_quitters := remove1 2 (c_quitters ?s1)\<rparr>"
  have "conc_reach 1 ?i"
    by (rule conc_reach_first_poll [OF conc_reach_start]) (simp add: conc_init_def)
  then have "conc_reach 1 ?s1"
    by (rule conc_reach_foreign)
      (rule foreign_step.set_quit, simp add: conc_init_def enter_loop_def fresh_event_loop_def)
  then have r: "conc_reach 1 ?s"
    by (rule conc_reach_foreign) (rule foreign_step.quit_wake, simp)
  have h: "c_pc ?s = Polling" "el_quit (c_loop ?s)" "c_quitters ?s = []"
    by (simp_all add: conc_init_def enter_loop_def fresh_event_loop_def el_request_quit_def
        finish_quit_def)
  show ?thesis using r h quit_not_lost [OF r h] by blast
qed

text \<open>C21. Progress: once \<open>poll\<close> returns, the loop's own steps lead to the next test of
  \<open>while (!quit_)\<close> with every functor run that had been queued so far; functors never wait
  for a second pass.\<close>

theorem pending_run_in_one_pass:
  assumes "conc_reach tid s" and "c_pc s = Polling"
  shows "\<exists>t. loop_step\<^sup>*\<^sup>* s t \<and> c_pc t = Head \<and> c_done t = c_pushed s \<and>
    el_pendingFunctors (c_loop t) = []"
proof -
  let ?s1 = "s\<lparr>c_pc := Handling (0 < el_wakeups (c_loop s))\<rparr>"
  have a: "loop_step s ?s1" using assms(2) by (rule loop_step.poll_return)
  obtain u where b: "loop_step\<^sup>*\<^sup>* ?s1 u" and u: "c_pc u = Handling False" "c_done u = c_done s"
    "el_pendingFunctors (c_loop u) = el_pendingFunctors (c_loop s)"
    using serve_all [of ?s1] by auto
  let ?v = "u\<lparr>c_pc := Draining (el_pendingFunctors (c_loop u)),
    c_loop := swap_functors (c_loop u), c_early := False\<rparr>"
  let ?x = "?v\<lparr>c_pc := Draining [], c_done := c_done ?v @ el_pendingFunctors (c_loop u)\<rparr>"
  let ?t = "?x\<lparr>c_pc := Head, c_loop := end_functors (c_loop ?x)\<rparr>"
  have c: "loop_step u ?v" using u(1) by (rule loop_step.swap)
  have d: "loop_step\<^sup>*\<^sup>* ?v ?x" by (rule drain_all) simp
  have e: "loop_step ?x ?t" by (rule loop_step.drained) simp
  have "loop_step\<^sup>*\<^sup>* s ?t"
    using a b c d e by (meson rtranclp.rtrancl_into_rtrancl converse_rtranclp_into_rtranclp rtranclp_trans)
  moreover have "c_done ?t = c_pushed s"
    using conc_reach_inv [OF assms(1)] assms(2) u by (simp add: wake_inv_def)
  moreover have "el_pendingFunctors (c_loop ?t) = []"
    by (simp add: end_functors_def swap_functors_def)
  ultimately show ?thesis by (intro exI [of _ ?t]) simp
qed

theorem pending_run_in_one_pass_witness:
  "\<exists>s t. conc_reach 1 s \<and> c_pc s = Polling \<and> loop_step\<^sup>*\<^sup>* s t \<and> c_pc t = Head \<and>
     c_done t = [F_user 7] \<and> el_pendingFunctors (c_loop t) = []"
proof -
  let ?i = "(conc_init 1)\<lparr>c_loop := enter_loop (c_loop (conc_init 1)), c_pc := Polling\<rparr>"
  let ?s = "?i\<lparr>c_pushed := c_pushed ?i @ [F_user 7], c_loop := el_queueInLoop 2 (F_user 7) (c_loop ?i)\<rparr>"
  have "conc_reach 1 ?i"
    by (rule conc_reach_first_poll [OF conc_reach_start]) (simp add: conc_init_def)
  then have r: "conc_reach 1 ?s"
    by (rule conc_reach_foreign_queue)
      (simp add: conc_init_def enter_loop_def fresh_event_loop_def)
  have h: "c_pc ?s = Polling" "c_pushed ?s = [F_user 7]" by (simp_all add: conc_init_def)
  show ?thesis using r h pending_run_in_one_pass [OF r h(1)] by (simp only: h(2)) blast
qed

text \<open>C22. The exception is real: a functor that the loop's own thread queues before it calls
  \<open>loop()\<close> is not announced, and the loop can block in its first \<open>poll\<close> (for up to
  \<open>kPollTimeMs\<close>) with the functor pending and the eventfd not readable.\<close>

theorem early_functor_waits:
  "\<exists>s. conc_reach tid s \<and> c_pc s = Polling \<and> el_pendingFunctors (c_loop s) = [f] \<and>
     c_callers s = [] \<and> el_wakeups (c_loop s) = 0"
proof -
  let ?i = "conc_init tid"
  let ?s1 = "?i\<lparr>c_loop := el_queueInLoop (el_threadId (c_loop ?i)) f (c_loop ?i),
       c_early := True, c_pushed := c_pushed ?i @ [f]\<rparr>"
  let ?s = "?s1\<lparr>c_loop := enter_loop (c_loop ?s1), c_pc := Polling\<rparr>"
  have "conc_reach tid ?s1"
    by (rule conc_reach_local [OF conc_reach_start])
      (rule local_step.early_queue, simp add: conc_init_def)
  then have "conc_reach tid ?s"
    by (rule conc_reach_first_poll) (simp add: conc_init_def)
  moreover have "el_pendingFunctors (c_loop ?s) = [f]" "c_callers ?s = []" "el_wakeups (c_loop ?s) = 0"
    by (simp_all add: conc_init_def enter_loop_def fresh_event_loop_def el_queueInLoop_def
        el_needs_wakeup_def Let_def)
  ultimately show ?thesis by (intro exI [of _ ?s]) simp
qed

end
