(* ===== verification/Timer_Queue.thy ===== *)
theory Timer_Queue
  imports Complex_Main Reactor_Loop
begin

text \<open>
  \<open>Timer\<close>, \<open>TimerId\<close> and \<open>TimerQueue\<close> (\<open>Timer.h\<close>, \<open>Timer.cc\<close>,
  \<open>TimerId.h\<close>, \<open>TimerQueue.h\<close>, \<open>TimerQueue.cc\<close>) and the timer methods of
  \<open>EventLoop\<close>.

  Timers are objects on a heap, \<open>theap\<close>, addressed by 64-bit pointers; \<open>new\<close> is the
  argument \<open>alloc\<close>, \<open>delete\<close> removes the object, and reading through a pointer to a
  deleted timer is the fault \<open>Use_after_free\<close>. The two sets \<open>timers_\<close> and
  \<open>activeTimers_\<close> are ordered lists (\<open>Prelude\<close>).

  \<open>Timestamp\<close> is not part of the sources: a time stamp is its number of microseconds, and
  \<open>ts_api\<close> holds the operations that the code calls. \<open>Timestamp::now()\<close> reads the field
  \<open>clock\<close>. What a user's timer callback does is the argument \<open>run\<close>.
\<close>

section \<open>State\<close>

datatype tcallback = TC_forceClose nat | TC_user nat

record timer =
  tm_callback :: tcallback
  tm_expiration :: timestamp
  tm_interval :: real
  tm_repeat :: bool
  tm_sequence :: int

type_synonym timerId = "addr \<times> int"

record timer_queue =
  tq_timerfd :: int
  tq_channel :: nat
  tq_timers :: "(timestamp \<times> addr) list"
  tq_activeTimers :: "(addr \<times> int) list"
  tq_callingExpiredTimers :: bool
  tq_cancelingTimers :: "(addr \<times> int) list"
  tq_armed :: "timestamp option"

record tworld = world +
  tqs :: "nat \<Rightarrow> timer_queue"
  theap :: "addr \<Rightarrow> timer option"
  numCreated :: int
  clock :: timestamp

record ts_api =
  ts_default :: timestamp
  ts_invalid :: timestamp
  ts_valid :: "timestamp \<Rightarrow> bool"
  ts_addTime :: "timestamp \<Rightarrow> real \<Rightarrow> timestamp"
  ts_usPerSecond :: int

definition UINTPTR_MAX :: addr where
  "UINTPTR_MAX = -1"

definition upd_tq :: "nat \<Rightarrow> (timer_queue \<Rightarrow> timer_queue) \<Rightarrow> 'm tworld_scheme \<Rightarrow> 'm tworld_scheme" where
  "upd_tq l f w = w\<lparr>tqs := (tqs w)(l := f (tqs w l))\<rparr>"

text \<open>A read through a timer pointer.\<close>

definition deref :: "addr \<Rightarrow> 'm tworld_scheme \<Rightarrow> (timer \<Rightarrow> 'a res) \<Rightarrow> 'a res" where
  "deref a w k = (case theap w a of None \<Rightarrow> Inl Use_after_free | Some tm \<Rightarrow> k tm)"

section \<open>Timer\<close>

definition new_timer :: "tcallback \<Rightarrow> timestamp \<Rightarrow> real \<Rightarrow> int \<Rightarrow> timer" where
  "new_timer cb when interval n =
     \<lparr>tm_callback = cb, tm_expiration = when, tm_interval = interval,
      tm_repeat = (interval > 0), tm_sequence = n\<rparr>"

definition restart :: "ts_api \<Rightarrow> timestamp \<Rightarrow> timer \<Rightarrow> timer" where
  "restart TS now tm =
     (if tm_repeat tm
      then tm\<lparr>tm_expiration := ts_addTime TS now (tm_interval tm)\<rparr>
      else tm\<lparr>tm_expiration := ts_invalid TS\<rparr>)"

definition null_timerId :: timerId where
  "null_timerId = (0, 0)"

section \<open>The timerfd\<close>

definition howMuchTimeFromNow :: "ts_api \<Rightarrow> timestamp \<Rightarrow> timestamp \<Rightarrow> int \<times> int" where
  "howMuchTimeFromNow TS now when =
     (let microseconds = when - now;
          microseconds = (if microseconds < 100 then 100 else microseconds)
      in (microseconds div ts_usPerSecond TS, (microseconds mod ts_usPerSecond TS) * 1000))"

definition readTimerfd :: "nat \<Rightarrow> 'm tworld_scheme \<Rightarrow> 'm tworld_scheme" where
  "readTimerfd l w = log_sys (Ev_read (tq_timerfd (tqs w l))) w"

definition resetTimerfd :: "ts_api \<Rightarrow> nat \<Rightarrow> timestamp \<Rightarrow> 'm tworld_scheme \<Rightarrow> 'm tworld_scheme" where
  "resetTimerfd TS l expiration w =
     log_sys (Ev_settime (tq_timerfd (tqs w l)) (howMuchTimeFromNow TS (clock w) expiration))
       (upd_tq l (\<lambda>q. q\<lparr>tq_armed := Some expiration\<rparr>) w)"

section \<open>The queue\<close>

definition tq_insert :: "nat \<Rightarrow> nat \<Rightarrow> addr \<Rightarrow> 'm tworld_scheme \<Rightarrow> (bool \<times> 'm tworld_scheme) res" where
  "tq_insert tid l a w =
     assertInLoopThread tid l w
      (check (length (tq_timers (tqs w l)) = length (tq_activeTimers (tqs w l))) Assertion_failed
        (deref a w (\<lambda>tm.
          let when = tm_expiration tm;
              earliestChanged =
                (case tq_timers (tqs w l) of [] \<Rightarrow> True | e # _ \<Rightarrow> when < fst e);
              (timers, new1) = set_insert (when, a) (tq_timers (tqs w l))
          in check new1 Assertion_failed
              (let (active, new2) = set_insert (a, tm_sequence tm) (tq_activeTimers (tqs w l))
               in check new2 Assertion_failed
                   (check (length timers = length active) Assertion_failed
                     (Inr (earliestChanged,
                       upd_tq l (\<lambda>q. q\<lparr>tq_timers := timers, tq_activeTimers := active\<rparr>) w)))))))"

definition addTimerInLoop :: "ts_api \<Rightarrow> nat \<Rightarrow> nat \<Rightarrow> addr \<Rightarrow> 'm tworld_scheme \<Rightarrow> 'm tworld_scheme res" where
  "addTimerInLoop TS tid l a w =
     assertInLoopThread tid l w
      (rbind (tq_insert tid l a w) (\<lambda>(earliestChanged, w).
        if earliestChanged then deref a w (\<lambda>tm. Inr (resetTimerfd TS l (tm_expiration tm) w))
        else Inr w))"

definition cancelInLoop :: "nat \<Rightarrow> nat \<Rightarrow> timerId \<Rightarrow> 'm tworld_scheme \<Rightarrow> 'm tworld_scheme res" where
  "cancelInLoop tid l timer w =
     assertInLoopThread tid l w
      (check (length (tq_timers (tqs w l)) = length (tq_activeTimers (tqs w l))) Assertion_failed
        (rbind
          (if timer \<in> set (tq_activeTimers (tqs w l))
           then deref (fst timer) w (\<lambda>tm.
             let (timers, n) = set_erase (tm_expiration tm, fst timer) (tq_timers (tqs w l))
             in check (n = 1) Assertion_failed
                 (Inr (upd_tq l (\<lambda>q. q\<lparr>tq_timers := timers,
                         tq_activeTimers := fst (set_erase timer (tq_activeTimers q))\<rparr>)
                       (w\<lparr>theap := (theap w)(fst timer := None)\<rparr>))))
           else if tq_callingExpiredTimers (tqs w l)
           then Inr (upd_tq l (\<lambda>q. q\<lparr>tq_cancelingTimers :=
                       fst (set_insert timer (tq_cancelingTimers q))\<rparr>) w)
           else Inr w)
          (\<lambda>w. check (length (tq_timers (tqs w l)) = length (tq_activeTimers (tqs w l)))
                 Assertion_failed (Inr w))))"

text \<open>The erasures from \<open>activeTimers_\<close> at the end of \<open>getExpired\<close>.\<close>

definition erase_active :: "nat \<Rightarrow> timestamp \<times> addr \<Rightarrow> 'm tworld_scheme \<Rightarrow> 'm tworld_scheme res" where
  "erase_active l e w =
     deref (snd e) w (\<lambda>tm.
       let (active, n) = set_erase (snd e, tm_sequence tm) (tq_activeTimers (tqs w l))
       in check (n = 1) Assertion_failed
            (Inr (upd_tq l (\<lambda>q. q\<lparr>tq_activeTimers := active\<rparr>) w)))"

definition getExpired :: "nat \<Rightarrow> timestamp \<Rightarrow> 'm tworld_scheme
    \<Rightarrow> ((timestamp \<times> addr) list \<times> 'm tworld_scheme) res" where
  "getExpired l now w =
     check (length (tq_timers (tqs w l)) = length (tq_activeTimers (tqs w l))) Assertion_failed
      (let (expired, rest) = set_lower (now, UINTPTR_MAX) (tq_timers (tqs w l))
       in check (case rest of [] \<Rightarrow> True | e # _ \<Rightarrow> now < fst e) Assertion_failed
           (rbind (runs (erase_active l) expired (upd_tq l (\<lambda>q. q\<lparr>tq_timers := rest\<rparr>) w)) (\<lambda>w.
             check (length (tq_timers (tqs w l)) = length (tq_activeTimers (tqs w l)))
               Assertion_failed (Inr (expired, w)))))"

definition reset_one :: "ts_api \<Rightarrow> nat \<Rightarrow> nat \<Rightarrow> timestamp \<Rightarrow> timestamp \<times> addr
    \<Rightarrow> 'm tworld_scheme \<Rightarrow> 'm tworld_scheme res" where
  "reset_one TS tid l now e w =
     deref (snd e) w (\<lambda>tm.
       if tm_repeat tm \<and> (snd e, tm_sequence tm) \<notin> set (tq_cancelingTimers (tqs w l))
       then rbind (tq_insert tid l (snd e) (w\<lparr>theap := (theap w)(snd e \<mapsto> restart TS now tm)\<rparr>))
              (\<lambda>(_, w). Inr w)
       else Inr (w\<lparr>theap := (theap w)(snd e := None)\<rparr>))"

definition tq_reset :: "ts_api \<Rightarrow> nat \<Rightarrow> nat \<Rightarrow> (timestamp \<times> addr) list \<Rightarrow> timestamp
    \<Rightarrow> 'm tworld_scheme \<Rightarrow> 'm tworld_scheme res" where
  "tq_reset TS tid l expired now w =
     rbind (runs (reset_one TS tid l now) expired w) (\<lambda>w.
     rbind (case tq_timers (tqs w l) of
              [] \<Rightarrow> Inr (ts_default TS)
            | e # _ \<Rightarrow> deref (snd e) w (\<lambda>tm. Inr (tm_expiration tm))) (\<lambda>nextExpire.
     if ts_valid TS nextExpire then Inr (resetTimerfd TS l nextExpire w) else Inr w))"

definition run_timer :: "(tcallback \<Rightarrow> 'm tworld_scheme \<Rightarrow> 'm tworld_scheme res)
    \<Rightarrow> timestamp \<times> addr \<Rightarrow> 'm tworld_scheme \<Rightarrow> 'm tworld_scheme res" where
  "run_timer run e w = deref (snd e) w (\<lambda>tm. run (tm_callback tm) w)"

definition tq_handleRead :: "ts_api \<Rightarrow> (tcallback \<Rightarrow> 'm tworld_scheme \<Rightarrow> 'm tworld_scheme res)
    \<Rightarrow> nat \<Rightarrow> nat \<Rightarrow> 'm tworld_scheme \<Rightarrow> 'm tworld_scheme res" where
  "tq_handleRead TS run tid l w =
     assertInLoopThread tid l w
      (let now = clock w; w = readTimerfd l w in
       rbind (getExpired l now w) (\<lambda>(expired, w).
       let w = upd_tq l (\<lambda>q. q\<lparr>tq_callingExpiredTimers := True, tq_cancelingTimers := []\<rparr>) w in
       rbind (runs (run_timer run) expired w) (\<lambda>w.
       let w = upd_tq l (\<lambda>q. q\<lparr>tq_callingExpiredTimers := False\<rparr>) w in
       tq_reset TS tid l expired now w)))"

section \<open>The thread-safe interface\<close>

definition addTimer :: "ts_api \<Rightarrow> ((addr \<Rightarrow> timer option) \<Rightarrow> addr option) \<Rightarrow> nat \<Rightarrow> nat \<Rightarrow> tcallback
    \<Rightarrow> timestamp \<Rightarrow> real \<Rightarrow> 'm tworld_scheme \<Rightarrow> (timerId \<times> 'm tworld_scheme) res" where
  "addTimer TS alloc tid l cb when interval w =
     (case alloc (theap w) of
        None \<Rightarrow> Inl Bad_alloc
      | Some a \<Rightarrow>
         (let n = numCreated w + 1;
              w = w\<lparr>numCreated := n, theap := (theap w)(a \<mapsto> new_timer cb when interval n)\<rparr>
          in rbind (runInLoop tid l (F_addTimerInLoop a) (addTimerInLoop TS tid l a) w)
               (\<lambda>w. deref a w (\<lambda>tm. Inr ((a, tm_sequence tm), w)))))"

definition tq_cancel :: "nat \<Rightarrow> nat \<Rightarrow> timerId \<Rightarrow> 'm tworld_scheme \<Rightarrow> 'm tworld_scheme res" where
  "tq_cancel tid l timer w = runInLoop tid l (F_cancelInLoop timer) (cancelInLoop tid l timer) w"

definition loop_cancel :: "nat \<Rightarrow> nat \<Rightarrow> timerId \<Rightarrow> 'm tworld_scheme \<Rightarrow> 'm tworld_scheme res" where
  "loop_cancel tid l timerId w = tq_cancel tid l timerId w"

definition runAt :: "ts_api \<Rightarrow> ((addr \<Rightarrow> timer option) \<Rightarrow> addr option) \<Rightarrow> nat \<Rightarrow> nat \<Rightarrow> timestamp
    \<Rightarrow> tcallback \<Rightarrow> 'm tworld_scheme \<Rightarrow> (timerId \<times> 'm tworld_scheme) res" where
  "runAt TS alloc tid l time cb w = addTimer TS alloc tid l cb time 0 w"

definition runAfter :: "ts_api \<Rightarrow> ((addr \<Rightarrow> timer option) \<Rightarrow> addr option) \<Rightarrow> nat \<Rightarrow> nat \<Rightarrow> real
    \<Rightarrow> tcallback \<Rightarrow> 'm tworld_scheme \<Rightarrow> (timerId \<times> 'm tworld_scheme) res" where
  "runAfter TS alloc tid l delay cb w =
     runAt TS alloc tid l (ts_addTime TS (clock w) delay) cb w"

definition runEvery :: "ts_api \<Rightarrow> ((addr \<Rightarrow> timer option) \<Rightarrow> addr option) \<Rightarrow> nat \<Rightarrow> nat \<Rightarrow> real
    \<Rightarrow> tcallback \<Rightarrow> 'm tworld_scheme \<Rightarrow> (timerId \<times> 'm tworld_scheme) res" where
  "runEvery TS alloc tid l interval cb w =
     addTimer TS alloc tid l cb (ts_addTime TS (clock w) interval) interval w"

text \<open>The overloads for rvalues; \<open>addTimer\<close> stands for both of its own overloads.\<close>

definition runAt_rvalue :: "ts_api \<Rightarrow> ((addr \<Rightarrow> timer option) \<Rightarrow> addr option) \<Rightarrow> nat \<Rightarrow> nat \<Rightarrow> timestamp
    \<Rightarrow> tcallback \<Rightarrow> 'm tworld_scheme \<Rightarrow> (timerId \<times> 'm tworld_scheme) res" where
  "runAt_rvalue TS alloc tid l time cb w = addTimer TS alloc tid l cb time 0 w"

definition runAfter_rvalue :: "ts_api \<Rightarrow> ((addr \<Rightarrow> timer option) \<Rightarrow> addr option) \<Rightarrow> nat \<Rightarrow> nat \<Rightarrow> real
    \<Rightarrow> tcallback \<Rightarrow> 'm tworld_scheme \<Rightarrow> (timerId \<times> 'm tworld_scheme) res" where
  "runAfter_rvalue TS alloc tid l delay cb w =
     runAt_rvalue TS alloc tid l (ts_addTime TS (clock w) delay) cb w"

definition runEvery_rvalue :: "ts_api \<Rightarrow> ((addr \<Rightarrow> timer option) \<Rightarrow> addr option) \<Rightarrow> nat \<Rightarrow> nat \<Rightarrow> real
    \<Rightarrow> tcallback \<Rightarrow> 'm tworld_scheme \<Rightarrow> (timerId \<times> 'm tworld_scheme) res" where
  "runEvery_rvalue TS alloc tid l interval cb w =
     addTimer TS alloc tid l cb (ts_addTime TS (clock w) interval) interval w"

section \<open>Construction and destruction\<close>

definition createTimerfd :: "int \<Rightarrow> int res" where
  "createTimerfd timerfd = check (0 \<le> timerfd) Log_fatal (Inr timerfd)"

definition new_timer_queue :: "poller_ops \<Rightarrow> nat \<Rightarrow> nat \<Rightarrow> int \<Rightarrow> nat \<Rightarrow> 'm tworld_scheme \<Rightarrow> 'm tworld_scheme res" where
  "new_timer_queue P tid l timerfd c w =
     rbind (createTimerfd timerfd) (\<lambda>timerfd.
      (let w = upd_chan c (\<lambda>_. new_channel l timerfd) w;
           w = upd_tq l (\<lambda>_. \<lparr>tq_timerfd = timerfd, tq_channel = c, tq_timers = [],
                 tq_activeTimers = [], tq_callingExpiredTimers = False,
                 tq_cancelingTimers = [], tq_armed = None\<rparr>) w;
           w = upd_chan c (setReadCallback (Cb_timer_handleRead l)) w
       in enableReading P tid c w))"

definition delete_timer :: "timestamp \<times> addr \<Rightarrow> 'm tworld_scheme \<Rightarrow> 'm tworld_scheme" where
  "delete_timer e w = w\<lparr>theap := (theap w)(snd e := None)\<rparr>"

definition destroy_timer_queue :: "poller_ops \<Rightarrow> nat \<Rightarrow> nat \<Rightarrow> 'm tworld_scheme \<Rightarrow> 'm tworld_scheme res" where
  "destroy_timer_queue P tid l w =
     rbind (disableAll P tid (tq_channel (tqs w l)) w) (\<lambda>w.
     rbind (ch_remove P tid (tq_channel (tqs w l)) w) (\<lambda>w.
     let w = log_sys (Ev_close (tq_timerfd (tqs w l))) w
     in Inr (fold delete_timer (tq_timers (tqs w l)) w)))"

section \<open>The invariant of the two sets\<close>

definition seq_of :: "'m tworld_scheme \<Rightarrow> addr \<Rightarrow> int" where
  "seq_of w a = tm_sequence (the (theap w a))"

definition entry_id :: "'m tworld_scheme \<Rightarrow> timestamp \<times> addr \<Rightarrow> timerId" where
  "entry_id w e = (snd e, seq_of w (snd e))"

text \<open>An entry of \<open>timers_\<close> points to a live timer and carries its expiration; the sentry
  address of \<open>getExpired\<close> is not that of a timer.\<close>

definition entry_ok :: "'m tworld_scheme \<Rightarrow> timestamp \<times> addr \<Rightarrow> bool" where
  "entry_ok w e \<longleftrightarrow>
     snd e \<noteq> UINTPTR_MAX \<and> (\<exists>tm. theap w (snd e) = Some tm \<and> tm_expiration tm = fst e)"

definition tq_ok :: "nat \<Rightarrow> 'm tworld_scheme \<Rightarrow> bool" where
  "tq_ok l w \<longleftrightarrow>
     set_ok (tq_timers (tqs w l)) \<and> set_ok (tq_activeTimers (tqs w l)) \<and>
     (\<forall>e\<in>set (tq_timers (tqs w l)). entry_ok w e) \<and>
     set (tq_activeTimers (tqs w l)) = entry_id w ` set (tq_timers (tqs w l))"

text \<open>The expired timers that \<open>handleRead\<close> holds in its local vector: alive, and not in the
  queue.\<close>

definition held_ok :: "nat \<Rightarrow> (timestamp \<times> addr) list \<Rightarrow> 'm tworld_scheme \<Rightarrow> bool" where
  "held_ok l E w \<longleftrightarrow>
     distinct (map snd E) \<and> (\<forall>e\<in>set E. entry_ok w e) \<and>
     snd ` set E \<inter> snd ` set (tq_timers (tqs w l)) = {}"

definition tq_inv :: "nat \<Rightarrow> nat \<Rightarrow> bool \<Rightarrow> (timestamp \<times> addr) list \<Rightarrow> 'm tworld_scheme \<Rightarrow> bool" where
  "tq_inv tid l b E w \<longleftrightarrow>
     tq_ok l w \<and> held_ok l E w \<and> isInLoopThread tid l w \<and> tq_callingExpiredTimers (tqs w l) = b"

lemma upd_tq_fields [simp]:
  "tqs (upd_tq l f w) = (tqs w)(l := f (tqs w l))"
  "theap (upd_tq l f w) = theap w"
  "clock (upd_tq l f w) = clock w"
  "numCreated (upd_tq l f w) = numCreated w"
  "loops (upd_tq l f w) = loops w"
  "chans (upd_tq l f w) = chans w"
  "sys (upd_tq l f w) = sys w"
  by (simp_all add: upd_tq_def)

lemma upd_tq_twice [simp]: "upd_tq l f (upd_tq l g w) = upd_tq l (\<lambda>q. f (g q)) w"
  by (simp add: upd_tq_def)

lemma log_sys_tfields [simp]:
  "tqs (log_sys e w) = tqs w"
  "theap (log_sys e w) = theap w"
  "clock (log_sys e w) = clock w"
  "numCreated (log_sys e w) = numCreated w"
  by (simp_all add: log_sys_def)

lemma queueInLoop_tfields [simp]:
  "tqs (queueInLoop tid l cb w) = tqs w"
  "theap (queueInLoop tid l cb w) = theap w"
  "clock (queueInLoop tid l cb w) = clock w"
  by (simp_all add: queueInLoop_def upd_loop_def)

lemma isInLoopThread_tq [simp]:
  "isInLoopThread tid l (upd_tq m f w) = isInLoopThread tid l w"
  "isInLoopThread tid l (w\<lparr>theap := h\<rparr>) = isInLoopThread tid l w"
  "isInLoopThread tid l (w\<lparr>numCreated := n\<rparr>) = isInLoopThread tid l w"
  by (simp_all add: isInLoopThread_def)

lemma resetTimerfd_fields [simp]:
  "tq_timers (tqs (resetTimerfd TS l x w) m) = tq_timers (tqs w m)"
  "tq_activeTimers (tqs (resetTimerfd TS l x w) m) = tq_activeTimers (tqs w m)"
  "tq_callingExpiredTimers (tqs (resetTimerfd TS l x w) m) = tq_callingExpiredTimers (tqs w m)"
  "tq_cancelingTimers (tqs (resetTimerfd TS l x w) m) = tq_cancelingTimers (tqs w m)"
  "tq_armed (tqs (resetTimerfd TS l x w) l) = Some x"
  "theap (resetTimerfd TS l x w) = theap w"
  "clock (resetTimerfd TS l x w) = clock w"
  "numCreated (resetTimerfd TS l x w) = numCreated w"
  "isInLoopThread tid k (resetTimerfd TS l x w) = isInLoopThread tid k w"
  by (simp_all add: resetTimerfd_def)

lemma entry_cong:
  "theap w' = theap w \<Longrightarrow> entry_ok w' e = entry_ok w e"
  "theap w' = theap w \<Longrightarrow> entry_id w' e = entry_id w e"
  by (simp_all add: entry_ok_def entry_id_def seq_of_def)

lemma entry_upd_tq [simp]:
  "entry_ok (upd_tq l f w) = entry_ok w"
  "entry_id (upd_tq l f w) = entry_id w"
  by (simp_all add: fun_eq_iff entry_cong [of "upd_tq l f w" w])

lemma entry_heap_other:
  "snd e \<noteq> a \<Longrightarrow> entry_ok (w\<lparr>theap := (theap w)(a := x)\<rparr>) e = entry_ok w e"
  "snd e \<noteq> a \<Longrightarrow> entry_id (w\<lparr>theap := (theap w)(a := x)\<rparr>) e = entry_id w e"
  by (simp_all add: entry_ok_def entry_id_def seq_of_def)

lemma tq_ok_cong:
  assumes "theap w' = theap w" and "tq_timers (tqs w' l) = tq_timers (tqs w l)"
    and "tq_activeTimers (tqs w' l) = tq_activeTimers (tqs w l)"
  shows "tq_ok l w' = tq_ok l w" "held_ok l E w' = held_ok l E w"
  using assms by (simp_all add: tq_ok_def held_ok_def entry_cong [OF assms(1)] cong: image_cong)

lemma resetTimerfd_ok [simp]:
  "tq_ok l (resetTimerfd TS m x w) = tq_ok l w"
  "held_ok l E (resetTimerfd TS m x w) = held_ok l E w"
  by (rule tq_ok_cong; simp)+

lemma entry_id_inj:
  assumes "\<forall>e\<in>A. entry_ok w e"
  shows "inj_on (entry_id w) A"
proof (rule inj_onI)
  fix e d assume "e \<in> A" "d \<in> A" and eq: "entry_id w e = entry_id w d"
  then have "entry_ok w e" "entry_ok w d" using assms by auto
  moreover have "snd e = snd d" using eq by (simp add: entry_id_def)
  ultimately have "fst e = fst d" by (auto simp: entry_ok_def)
  with \<open>snd e = snd d\<close> show "e = d" by (simp add: prod_eq_iff)
qed

lemma tq_ok_length: "tq_ok l w \<Longrightarrow> length (tq_timers (tqs w l)) = length (tq_activeTimers (tqs w l))"
  unfolding tq_ok_def by (rule std_sets.same_len [where f = "entry_id w"]) (auto intro: entry_id_inj)

lemma active_iff:
  assumes "tq_ok l w"
  shows "(a, s) \<in> set (tq_activeTimers (tqs w l)) \<longleftrightarrow>
    (\<exists>tm. theap w a = Some tm \<and> tm_sequence tm = s \<and>
       (tm_expiration tm, a) \<in> set (tq_timers (tqs w l)))"
proof
  assume "(a, s) \<in> set (tq_activeTimers (tqs w l))"
  then obtain e where e: "e \<in> set (tq_timers (tqs w l))" "(a, s) = entry_id w e"
    using assms by (auto simp: tq_ok_def)
  then have "entry_ok w e" using assms by (simp add: tq_ok_def)
  with e show "\<exists>tm. theap w a = Some tm \<and> tm_sequence tm = s \<and>
       (tm_expiration tm, a) \<in> set (tq_timers (tqs w l))"
    by (auto simp: entry_ok_def entry_id_def seq_of_def)
next
  assume "\<exists>tm. theap w a = Some tm \<and> tm_sequence tm = s \<and>
       (tm_expiration tm, a) \<in> set (tq_timers (tqs w l))"
  then obtain tm where tm: "theap w a = Some tm" "tm_sequence tm = s"
    "(tm_expiration tm, a) \<in> set (tq_timers (tqs w l))" by blast
  then have "entry_id w (tm_expiration tm, a) = (a, s)" by (simp add: entry_id_def seq_of_def)
  with tm(3) assms show "(a, s) \<in> set (tq_activeTimers (tqs w l))"
    unfolding tq_ok_def by force
qed

section \<open>Insertion\<close>

definition inserted :: "nat \<Rightarrow> addr \<Rightarrow> timer \<Rightarrow> 'm tworld_scheme \<Rightarrow> 'm tworld_scheme" where
  "inserted l a tm w =
     upd_tq l (\<lambda>q. q\<lparr>tq_timers := fst (set_insert (tm_expiration tm, a) (tq_timers q)),
       tq_activeTimers := fst (set_insert (a, tm_sequence tm) (tq_activeTimers q))\<rparr>) w"

lemma inserted_fields [simp]:
  "theap (inserted l a tm w) = theap w"
  "clock (inserted l a tm w) = clock w"
  "numCreated (inserted l a tm w) = numCreated w"
  "sys (inserted l a tm w) = sys w"
  "isInLoopThread tid k (inserted l a tm w) = isInLoopThread tid k w"
  "tq_timers (tqs (inserted l a tm w) l) = fst (set_insert (tm_expiration tm, a) (tq_timers (tqs w l)))"
  "tq_activeTimers (tqs (inserted l a tm w) l) =
     fst (set_insert (a, tm_sequence tm) (tq_activeTimers (tqs w l)))"
  "tq_callingExpiredTimers (tqs (inserted l a tm w) l) = tq_callingExpiredTimers (tqs w l)"
  "tq_cancelingTimers (tqs (inserted l a tm w) l) = tq_cancelingTimers (tqs w l)"
  "tq_armed (tqs (inserted l a tm w) l) = tq_armed (tqs w l)"
  by (simp_all add: inserted_def)

definition free_addr :: "nat \<Rightarrow> addr \<Rightarrow> 'm tworld_scheme \<Rightarrow> bool" where
  "free_addr l a w \<longleftrightarrow> a \<noteq> UINTPTR_MAX \<and> a \<notin> snd ` set (tq_timers (tqs w l))"

lemma inserted_ok:
  assumes ok: "tq_ok l w" and tm: "theap w a = Some tm" and fr: "free_addr l a w"
  shows "tq_ok l (inserted l a tm w)"
proof -
  have e: "entry_id w (tm_expiration tm, a) = (a, tm_sequence tm)"
    using tm by (simp add: entry_id_def seq_of_def)
  have "entry_ok w (tm_expiration tm, a)"
    using tm fr by (simp add: entry_ok_def free_addr_def)
  moreover have "entry_id (inserted l a tm w) = entry_id w"
    by (rule ext) (rule entry_cong, simp)
  moreover have "set (fst (set_insert (a, tm_sequence tm) (tq_activeTimers (tqs w l)))) =
      entry_id w ` set (fst (set_insert (tm_expiration tm, a) (tq_timers (tqs w l))))"
    using ok e std_sets.indexed_ins [of "tq_timers (tqs w l)" "tq_activeTimers (tqs w l)"
        "entry_id w" "(tm_expiration tm, a)"]
    by (simp add: tq_ok_def)
  ultimately show ?thesis
    using ok by (auto simp: tq_ok_def set_insert_ok entry_cong [of "inserted l a tm w" w])
qed

definition earliest_changes :: "nat \<Rightarrow> timestamp \<Rightarrow> 'm tworld_scheme \<Rightarrow> bool" where
  "earliest_changes l when w =
     (case tq_timers (tqs w l) of [] \<Rightarrow> True | e # _ \<Rightarrow> when < fst e)"

lemma tq_insert_eq:
  assumes ok: "tq_ok l w" and tm: "theap w a = Some tm" and fr: "free_addr l a w"
    and th: "isInLoopThread tid l w"
  shows "tq_insert tid l a w = Inr (earliest_changes l (tm_expiration tm) w, inserted l a tm w)"
proof -
  have 1: "snd (set_insert (tm_expiration tm, a) (tq_timers (tqs w l)))"
    using ok fr by (auto simp: tq_ok_def free_addr_def set_insert_new image_iff)
  have "(a, tm_sequence tm) \<notin> set (tq_activeTimers (tqs w l))"
    using active_iff [OF ok] fr tm by (auto simp: free_addr_def image_iff)
  then have 2: "snd (set_insert (a, tm_sequence tm) (tq_activeTimers (tqs w l)))"
    using ok by (simp add: tq_ok_def set_insert_new)
  have 3: "length (fst (set_insert (tm_expiration tm, a) (tq_timers (tqs w l)))) =
      length (fst (set_insert (a, tm_sequence tm) (tq_activeTimers (tqs w l))))"
    using tq_ok_length [OF inserted_ok [OF ok tm fr]] by simp
  show ?thesis
    using th tq_ok_length [OF ok] tm 1 2 3
    by (simp add: tq_insert_def assertInLoopThread_def deref_def Let_def case_prod_beta
        earliest_changes_def inserted_def upd_tq_def)
qed

section \<open>Cancellation\<close>

definition erased :: "nat \<Rightarrow> addr \<Rightarrow> timer \<Rightarrow> 'm tworld_scheme \<Rightarrow> 'm tworld_scheme" where
  "erased l a tm w =
     upd_tq l (\<lambda>q. q\<lparr>tq_timers := fst (set_erase (tm_expiration tm, a) (tq_timers q)),
       tq_activeTimers := fst (set_erase (a, tm_sequence tm) (tq_activeTimers q))\<rparr>)
       (w\<lparr>theap := (theap w)(a := None)\<rparr>)"

lemma erased_fields [simp]:
  "theap (erased l a tm w) = (theap w)(a := None)"
  "clock (erased l a tm w) = clock w"
  "sys (erased l a tm w) = sys w"
  "isInLoopThread tid k (erased l a tm w) = isInLoopThread tid k w"
  "tq_timers (tqs (erased l a tm w) l) = fst (set_erase (tm_expiration tm, a) (tq_timers (tqs w l)))"
  "tq_activeTimers (tqs (erased l a tm w) l) =
     fst (set_erase (a, tm_sequence tm) (tq_activeTimers (tqs w l)))"
  "tq_callingExpiredTimers (tqs (erased l a tm w) l) = tq_callingExpiredTimers (tqs w l)"
  "tq_cancelingTimers (tqs (erased l a tm w) l) = tq_cancelingTimers (tqs w l)"
  "tq_armed (tqs (erased l a tm w) l) = tq_armed (tqs w l)"
  by (simp_all add: erased_def)

lemma entry_unique:
  assumes "entry_ok w e" and "theap w a = Some tm" and "e \<noteq> (tm_expiration tm, a)"
  shows "snd e \<noteq> a"
  using assms by (cases e) (auto simp: entry_ok_def)

lemma erased_ok:
  assumes ok: "tq_ok l w" and tm: "theap w a = Some tm"
    and mem: "(tm_expiration tm, a) \<in> set (tq_timers (tqs w l))"
  shows "tq_ok l (erased l a tm w)"
proof -
  let ?T = "tq_timers (tqs w l)" and ?A = "tq_activeTimers (tqs w l)"
  let ?e = "(tm_expiration tm, a)"
  have T: "set_ok ?T" "set_ok ?A" "\<forall>e\<in>set ?T. entry_ok w e" "set ?A = entry_id w ` set ?T"
    using ok by (simp_all add: tq_ok_def)
  have ne: "snd e \<noteq> a" if "e \<in> set ?T - {?e}" for e
    using that T(3) entry_unique [OF _ tm] by blast
  have id: "entry_id w ?e = (a, tm_sequence tm)" using tm by (simp add: entry_id_def seq_of_def)
  have same: "entry_ok (erased l a tm w) e = entry_ok w e" "entry_id (erased l a tm w) e = entry_id w e"
    if "e \<in> set ?T - {?e}" for e
    using ne [OF that] by (simp_all add: entry_ok_def entry_id_def seq_of_def)
  have "set (fst (set_erase (entry_id w ?e) ?A)) = entry_id w ` set (fst (set_erase ?e ?T))"
    by (rule std_sets.indexed_era [OF T(1,2,4) entry_id_inj [OF T(3)] mem])
  also have "\<dots> = entry_id (erased l a tm w) ` (set ?T - {?e})"
    by (rule image_cong) (simp_all add: set_erase_elems [OF T(1)] same)
  finally show ?thesis
    using T(1-3) same(1) by (auto simp: tq_ok_def id set_erase_ok set_erase_elems)
qed

definition cancel_noted :: "nat \<Rightarrow> timerId \<Rightarrow> 'm tworld_scheme \<Rightarrow> 'm tworld_scheme" where
  "cancel_noted l timer w =
     upd_tq l (\<lambda>q. q\<lparr>tq_cancelingTimers := fst (set_insert timer (tq_cancelingTimers q))\<rparr>) w"

lemma cancel_noted_ok [simp]:
  "tq_ok l (cancel_noted l timer w) = tq_ok l w"
  "held_ok l E (cancel_noted l timer w) = held_ok l E w"
  by (rule tq_ok_cong; simp add: cancel_noted_def)+

definition cancelled :: "nat \<Rightarrow> timerId \<Rightarrow> 'm tworld_scheme \<Rightarrow> 'm tworld_scheme" where
  "cancelled l timer w =
     (if timer \<in> set (tq_activeTimers (tqs w l))
      then erased l (fst timer) (the (theap w (fst timer))) w
      else if tq_callingExpiredTimers (tqs w l) then cancel_noted l timer w else w)"

lemma cancelled_ok:
  assumes "tq_ok l w"
  shows "tq_ok l (cancelled l timer w)"
proof (cases "timer \<in> set (tq_activeTimers (tqs w l))")
  case True
  then obtain tm where "theap w (fst timer) = Some tm"
      "(tm_expiration tm, fst timer) \<in> set (tq_timers (tqs w l))"
    using active_iff [OF assms, of "fst timer" "snd timer"] by auto
  with True show ?thesis using erased_ok [OF assms] by (simp add: cancelled_def)
next
  case False
  then show ?thesis using assms by (simp add: cancelled_def cancel_noted_ok)
qed

lemma cancelInLoop_eq:
  assumes ok: "tq_ok l w" and th: "isInLoopThread tid l w"
  shows "cancelInLoop tid l timer w = Inr (cancelled l timer w)"
proof (cases "timer \<in> set (tq_activeTimers (tqs w l))")
  case True
  then obtain tm where tm: "theap w (fst timer) = Some tm" "tm_sequence tm = snd timer"
      "(tm_expiration tm, fst timer) \<in> set (tq_timers (tqs w l))"
    using active_iff [OF ok, of "fst timer" "snd timer"] by auto
  have "timer = (fst timer, tm_sequence tm)" using tm(2) by simp
  then show ?thesis
    using th True tm ok tq_ok_length [OF ok] tq_ok_length [OF cancelled_ok [OF ok, of timer]]
      set_erase_count [of "tq_timers (tqs w l)" "(tm_expiration tm, fst timer)"]
    by (simp add: cancelInLoop_def assertInLoopThread_def deref_def case_prod_beta Let_def
        cancelled_def erased_def upd_tq_def tq_ok_def)
next
  case False
  then show ?thesis
    using th tq_ok_length [OF ok]
    by (simp add: cancelInLoop_def assertInLoopThread_def cancelled_def cancel_noted_def)
qed

lemma held_erased:
  assumes "tq_ok l w" and "held_ok l E w" and "theap w a = Some tm"
    and "(tm_expiration tm, a) \<in> set (tq_timers (tqs w l))"
  shows "held_ok l E (erased l a tm w)"
proof -
  have "a \<notin> snd ` set E" using assms(2,4) by (force simp: held_ok_def)
  then have "entry_ok (erased l a tm w) e = entry_ok w e" if "e \<in> set E" for e
    using that by (auto simp: entry_ok_def)
  then show ?thesis
    using assms(2) image_mono [OF set_erase_subset, of snd "(tm_expiration tm, a)" "tq_timers (tqs w l)"]
    by (simp add: held_ok_def disjoint_iff subset_iff) blast
qed

lemma held_cancelled:
  assumes ok: "tq_ok l w" and h: "held_ok l E w"
  shows "held_ok l E (cancelled l timer w)"
proof (cases "timer \<in> set (tq_activeTimers (tqs w l))")
  case True
  then obtain tm where "theap w (fst timer) = Some tm"
      "(tm_expiration tm, fst timer) \<in> set (tq_timers (tqs w l))"
    using active_iff [OF ok, of "fst timer" "snd timer"] by auto
  with True show ?thesis using held_erased [OF ok h] by (simp add: cancelled_def)
next
  case False
  then show ?thesis using h by (simp add: cancelled_def)
qed

lemma cancelled_calling [simp]:
  "tq_callingExpiredTimers (tqs (cancelled l timer w) l) = tq_callingExpiredTimers (tqs w l)"
  "isInLoopThread tid l (cancelled l timer w) = isInLoopThread tid l w"
  by (simp_all add: cancelled_def cancel_noted_def)

lemma cancel_safe:
  assumes "tq_inv tid l b E w"
  shows "tq_cancel tid l timer w = Inr (cancelled l timer w) \<and> tq_inv tid l b E (cancelled l timer w)"
  using assms cancelInLoop_eq [of l w tid timer] cancelled_ok [of l w timer]
    held_cancelled [of l w E timer]
  by (simp add: tq_inv_def tq_cancel_def runInLoop_def)

section \<open>Adding a timer\<close>

definition alloc_ok :: "((addr \<Rightarrow> timer option) \<Rightarrow> addr option) \<Rightarrow> bool" where
  "alloc_ok alloc \<longleftrightarrow> (\<forall>h a. alloc h = Some a \<longrightarrow> h a = None \<and> a \<noteq> UINTPTR_MAX)"

definition created :: "addr \<Rightarrow> timer \<Rightarrow> 'm tworld_scheme \<Rightarrow> 'm tworld_scheme" where
  "created a tm w = w\<lparr>numCreated := tm_sequence tm, theap := (theap w)(a \<mapsto> tm)\<rparr>"

lemma created_fields [simp]:
  "theap (created a tm w) = (theap w)(a \<mapsto> tm)"
  "tqs (created a tm w) = tqs w"
  "clock (created a tm w) = clock w"
  "isInLoopThread tid k (created a tm w) = isInLoopThread tid k w"
  by (simp_all add: created_def isInLoopThread_def)

lemma created_ok:
  assumes "tq_ok l w" and "theap w a = None"
  shows "tq_ok l (created a tm w)" "held_ok l E w \<Longrightarrow> held_ok l E (created a tm w)"
    "a \<notin> snd ` set (tq_timers (tqs w l))"
proof -
  have ne: "snd e \<noteq> a" if "entry_ok w e" for e
    using that assms(2) by (auto simp: entry_ok_def)
  have same: "entry_ok (created a tm w) e = entry_ok w e" "entry_id (created a tm w) e = entry_id w e"
    if "entry_ok w e" for e
    using ne [OF that] by (simp_all add: entry_ok_def entry_id_def seq_of_def)
  show "a \<notin> snd ` set (tq_timers (tqs w l))" using assms(1) ne by (auto simp: tq_ok_def)
  have "entry_id (created a tm w) ` set (tq_timers (tqs w l)) = entry_id w ` set (tq_timers (tqs w l))"
    by (rule image_cong) (use assms(1) same(2) in \<open>auto simp: tq_ok_def\<close>)
  then show "tq_ok l (created a tm w)" using assms(1) same(1) by (simp add: tq_ok_def)
  show "held_ok l E w \<Longrightarrow> held_ok l E (created a tm w)"
    using same(1) by (simp add: held_ok_def)
qed

lemma held_inserted:
  assumes "held_ok l E w" and "a \<notin> snd ` set E"
  shows "held_ok l E (inserted l a tm w)"
  using assms by (auto simp: held_ok_def entry_cong [of "inserted l a tm w" w])

definition added :: "ts_api \<Rightarrow> nat \<Rightarrow> addr \<Rightarrow> timer \<Rightarrow> 'm tworld_scheme \<Rightarrow> 'm tworld_scheme" where
  "added TS l a tm w =
     (if earliest_changes l (tm_expiration tm) w
      then resetTimerfd TS l (tm_expiration tm) (inserted l a tm w) else inserted l a tm w)"

lemma added_fields [simp]:
  "theap (added TS l a tm w) = theap w"
  "tq_timers (tqs (added TS l a tm w) l) = tq_timers (tqs (inserted l a tm w) l)"
  "tq_activeTimers (tqs (added TS l a tm w) l) = tq_activeTimers (tqs (inserted l a tm w) l)"
  "tq_callingExpiredTimers (tqs (added TS l a tm w) l) = tq_callingExpiredTimers (tqs w l)"
  "tq_cancelingTimers (tqs (added TS l a tm w) l) = tq_cancelingTimers (tqs w l)"
  "isInLoopThread tid k (added TS l a tm w) = isInLoopThread tid k w"
  by (simp_all add: added_def)

lemma addTimerInLoop_eq:
  assumes "tq_ok l w" and "theap w a = Some tm" and "free_addr l a w" and "isInLoopThread tid l w"
  shows "addTimerInLoop TS tid l a w = Inr (added TS l a tm w)"
  using assms(2,4) tq_insert_eq [OF assms]
  by (simp add: addTimerInLoop_def assertInLoopThread_def deref_def added_def)

lemma addTimer_eq:
  assumes inv: "tq_inv tid l b E w" and al: "alloc_ok alloc" and a: "alloc (theap w) = Some a"
    and tm: "tm = new_timer cb when interval (numCreated w + 1)"
  shows "addTimer TS alloc tid l cb when interval w =
      Inr ((a, numCreated w + 1), added TS l a tm (created a tm w))"
    and "tq_inv tid l b E (added TS l a tm (created a tm w))"
proof -
  have tq: "tq_ok l w" "held_ok l E w" "isInLoopThread tid l w" using inv by (simp_all add: tq_inv_def)
  have N: "theap w a = None" and M: "a \<noteq> UINTPTR_MAX" using al a by (simp_all add: alloc_ok_def)
  note c = created_ok [OF tq(1) N]
  have fr: "free_addr l a (created a tm w)" using M c(3) by (simp add: free_addr_def)
  have sq: "tm_sequence tm = numCreated w + 1" by (simp add: tm new_timer_def)
  have "addTimerInLoop TS tid l a (created a tm w) = Inr (added TS l a tm (created a tm w))"
    by (rule addTimerInLoop_eq [OF c(1) _ fr]) (simp_all add: tq)
  then show "addTimer TS alloc tid l cb when interval w =
      Inr ((a, numCreated w + 1), added TS l a tm (created a tm w))"
    using tq(3) a sq
    by (simp add: addTimer_def Let_def runInLoop_def deref_def tm [symmetric] created_def)
  have "a \<notin> snd ` set E" using tq(2) N by (auto simp: held_ok_def entry_ok_def)
  then have "held_ok l E (inserted l a tm (created a tm w))" by (rule held_inserted [OF c(2) [OF tq(2)]])
  moreover have "tq_ok l (inserted l a tm (created a tm w))"
    by (rule inserted_ok [OF c(1) _ fr]) simp
  ultimately show "tq_inv tid l b E (added TS l a tm (created a tm w))"
    using inv by (simp add: tq_inv_def added_def)
qed

end
