(* ===== verification/Timer_Expiry.thy ===== *)
theory Timer_Expiry
  imports Timer_Queue
begin

text \<open>
  What a round of \<open>TimerQueue::handleRead\<close> does: \<open>getExpired\<close> splits the queue at the
  current time, the callbacks run while \<open>callingExpiredTimers_\<close> is set, \<open>reset\<close> puts the
  repeating timers back, frees the others and arms the timerfd. User callbacks are scripts of
  calls of the timer interface, \<open>timer_call\<close>.
\<close>

section \<open>Splitting the queue\<close>

definition due :: "timestamp \<Rightarrow> (timestamp \<times> addr) list \<Rightarrow> (timestamp \<times> addr) list" where
  "due now xs = filter (\<lambda>e. fst e \<le> now) xs"

definition later :: "timestamp \<Rightarrow> (timestamp \<times> addr) list \<Rightarrow> (timestamp \<times> addr) list" where
  "later now xs = filter (\<lambda>e. now < fst e) xs"

lemma before_sentry:
  fixes e :: "timestamp \<times> addr"
  assumes "snd e \<noteq> UINTPTR_MAX"
  shows "e < (now, UINTPTR_MAX) \<longleftrightarrow> fst e \<le> now"
proof -
  have "snd e < UINTPTR_MAX"
    using assms word_order.not_eq_extremum [of "snd e"] by (simp add: UINTPTR_MAX_def)
  then show ?thesis by (cases e) (auto simp: less_prod_def)
qed

lemma sorted_takeWhile_filter:
  assumes "sorted_wrt (<) xs" and "\<And>x y. x \<in> set xs \<Longrightarrow> y \<in> set xs \<Longrightarrow> x < y \<Longrightarrow> P y \<Longrightarrow> P x"
  shows "takeWhile P xs = filter P xs \<and> dropWhile P xs = filter (\<lambda>x. \<not> P x) xs"
  using assms
proof (induction xs)
  case (Cons x xs)
  show ?case
  proof (cases "P x")
    case True
    have "takeWhile P xs = filter P xs \<and> dropWhile P xs = filter (\<lambda>x. \<not> P x) xs"
    proof (rule Cons.IH)
      show "sorted_wrt (<) xs" using Cons.prems(1) by simp
      fix a b assume "a \<in> set xs" "b \<in> set xs" "a < b" "P b"
      then show "P a" by (intro Cons.prems(2) [of a b]) simp_all
    qed
    with True show ?thesis by simp
  next
    case False
    then have "\<not> P y" if "y \<in> set xs" for y using Cons.prems that by fastforce
    with False show ?thesis by (auto simp: filter_empty_conv intro!: filter_True [symmetric])
  qed
qed simp

lemma set_lower_due:
  assumes "tq_ok l w"
  shows "set_lower (now, UINTPTR_MAX) (tq_timers (tqs w l)) =
    (due now (tq_timers (tqs w l)), later now (tq_timers (tqs w l)))"
proof -
  let ?T = "tq_timers (tqs w l)" and ?P = "\<lambda>e. e < (now, UINTPTR_MAX)"
  have P: "?P e \<longleftrightarrow> fst e \<le> now" if "e \<in> set ?T" for e
    using that assms by (intro before_sentry) (auto simp: tq_ok_def entry_ok_def)
  have "takeWhile ?P ?T = filter ?P ?T \<and> dropWhile ?P ?T = filter (\<lambda>e. \<not> ?P e) ?T"
    using assms by (intro sorted_takeWhile_filter) (auto simp: tq_ok_def set_ok_def)
  moreover have "filter ?P ?T = due now ?T" unfolding due_def by (rule filter_cong) (simp_all add: P)
  moreover have "filter (\<lambda>e. \<not> ?P e) ?T = later now ?T"
    unfolding later_def by (rule filter_cong) (simp_all add: P not_le)
  ultimately show ?thesis by (simp add: set_lower_def)
qed

lemma erase_active_runs:
  assumes "set_ok (tq_activeTimers (tqs w l))"
    and "set (tq_activeTimers (tqs w l)) = entry_id w ` (set xs \<union> R)"
    and "\<forall>e\<in>set xs \<union> R. entry_ok w e" and "distinct xs" and "set xs \<inter> R = {}"
  shows "\<exists>A. runs (erase_active l) xs w = Inr (upd_tq l (\<lambda>q. q\<lparr>tq_activeTimers := A\<rparr>) w)
    \<and> set_ok A \<and> set A = entry_id w ` R"
  using assms
proof (induction xs arbitrary: w)
  case Nil
  then show ?case by (intro exI [of _ "tq_activeTimers (tqs w l)"]) (simp add: upd_tq_def)
next
  case (Cons e xs)
  let ?A = "tq_activeTimers (tqs w l)"
  let ?B = "fst (set_erase (entry_id w e) ?A)"
  let ?v = "upd_tq l (\<lambda>q. q\<lparr>tq_activeTimers := ?B\<rparr>) w"
  obtain tm where tm: "theap w (snd e) = Some tm"
    using Cons.prems(3) by (auto simp: entry_ok_def)
  have id: "entry_id w e = (snd e, tm_sequence tm)" using tm by (simp add: entry_id_def seq_of_def)
  have cnt: "snd (set_erase (entry_id w e) ?A) = 1"
    using Cons.prems(1,2) by (simp add: set_erase_count)
  have step: "erase_active l e w = Inr ?v"
    using tm cnt id by (simp add: erase_active_def deref_def case_prod_beta Let_def)
  have inj: "inj_on (entry_id w) (insert e (set xs \<union> R))"
    using Cons.prems(3) by (intro entry_id_inj) simp
  have "set ?B = entry_id w ` (insert e (set xs \<union> R)) - entry_id w ` {e}"
    using Cons.prems(1,2) by (simp add: set_erase_elems)
  also have "\<dots> = entry_id w ` (insert e (set xs \<union> R) - {e})"
    using inj by (subst inj_on_image_set_diff [of "entry_id w" "insert e (set xs \<union> R)"]) auto
  also have "insert e (set xs \<union> R) - {e} = set xs \<union> R"
    using Cons.prems(4,5) by auto
  finally have B: "set ?B = entry_id w ` (set xs \<union> R)" .
  have ev: "entry_id ?v = entry_id w" "entry_ok ?v = entry_ok w"
    by simp_all
  have "\<exists>A. runs (erase_active l) xs ?v = Inr (upd_tq l (\<lambda>q. q\<lparr>tq_activeTimers := A\<rparr>) ?v)
      \<and> set_ok A \<and> set A = entry_id ?v ` R"
    by (rule Cons.IH) (use Cons.prems B in \<open>auto simp: ev set_erase_ok\<close>)
  then show ?case by (simp only: ev) (auto simp: step)
qed

lemma getExpired_eq:
  assumes ok: "tq_ok l w"
  shows "\<exists>A. getExpired l now w = Inr (due now (tq_timers (tqs w l)),
      upd_tq l (\<lambda>q. q\<lparr>tq_timers := later now (tq_timers (tqs w l)), tq_activeTimers := A\<rparr>) w)
    \<and> set_ok A \<and> set A = entry_id w ` set (later now (tq_timers (tqs w l)))"
proof -
  let ?T = "tq_timers (tqs w l)"
  let ?v = "upd_tq l (\<lambda>q. q\<lparr>tq_timers := later now ?T\<rparr>) w"
  have ev: "entry_id ?v = entry_id w" "entry_ok ?v = entry_ok w"
    by simp_all
  have un: "set (due now ?T) \<union> set (later now ?T) = set ?T" by (auto simp: due_def later_def)
  have "distinct (due now ?T)" using ok by (simp add: due_def tq_ok_def set_okD)
  moreover have "set (due now ?T) \<inter> set (later now ?T) = {}" by (auto simp: due_def later_def)
  ultimately have "\<exists>A. runs (erase_active l) (due now ?T) ?v =
        Inr (upd_tq l (\<lambda>q. q\<lparr>tq_activeTimers := A\<rparr>) ?v)
      \<and> set_ok A \<and> set A = entry_id ?v ` set (later now ?T)"
    using ok by (intro erase_active_runs) (simp_all add: ev un tq_ok_def)
  then obtain A where A: "runs (erase_active l) (due now ?T) ?v =
        Inr (upd_tq l (\<lambda>q. q\<lparr>tq_activeTimers := A\<rparr>) ?v)"
      "set_ok A" "set A = entry_id w ` set (later now ?T)" by (auto simp: ev)
  have rest: "case later now ?T of [] \<Rightarrow> True | e # _ \<Rightarrow> now < fst e"
  proof (cases "later now ?T")
    case (Cons e es)
    then have "e \<in> set (later now ?T)" by simp
    then have "now < fst e" by (simp add: later_def)
    with Cons show ?thesis by simp
  qed simp
  have "length (later now ?T) = length A"
  proof (rule std_sets.same_len [OF _ A(2,3)])
    show "set_ok (later now ?T)"
      using ok by (simp add: later_def tq_ok_def set_ok_def sorted_wrt_filter)
    show "inj_on (entry_id w) (set (later now ?T))"
      using ok un by (intro entry_id_inj) (auto simp: tq_ok_def)
  qed
  then show ?thesis
    using A rest tq_ok_length [OF ok]
    by (intro exI [of _ A]) (simp add: getExpired_def set_lower_due [OF ok])
qed

lemma getExpired_ok:
  assumes ok: "tq_ok l w" and r: "getExpired l now w = Inr (E, w')"
  shows "tq_ok l w'" "held_ok l E w'" "E = due now (tq_timers (tqs w l))"
    "tq_timers (tqs w' l) = later now (tq_timers (tqs w l))" "theap w' = theap w"
    "isInLoopThread tid l w' = isInLoopThread tid l w"
    "tq_callingExpiredTimers (tqs w' l) = tq_callingExpiredTimers (tqs w l)"
    "clock w' = clock w"
proof -
  let ?T = "tq_timers (tqs w l)"
  obtain A where A: "w' = upd_tq l (\<lambda>q. q\<lparr>tq_timers := later now ?T, tq_activeTimers := A\<rparr>) w"
      "E = due now ?T" "set_ok A" "set A = entry_id w ` set (later now ?T)"
    using getExpired_eq [OF ok, of now] r by auto
  then show "E = due now ?T" "tq_timers (tqs w' l) = later now ?T" "theap w' = theap w"
    "isInLoopThread tid l w' = isInLoopThread tid l w" "clock w' = clock w"
    "tq_callingExpiredTimers (tqs w' l) = tq_callingExpiredTimers (tqs w l)"
    by simp_all
  have ev: "entry_id w' = entry_id w" "entry_ok w' = entry_ok w"
    by (simp_all add: A)
  show "tq_ok l w'"
    using ok A by (auto simp: tq_ok_def ev set_ok_def sorted_wrt_filter later_def)
  have e: "entry_ok w e" if "e \<in> set ?T" for e using that ok by (simp add: tq_ok_def)
  have inj: "inj_on snd (set ?T)"
  proof (rule inj_onI)
    fix x y assume "x \<in> set ?T" "y \<in> set ?T" "snd x = snd y"
    then show "x = y" using e [of x] e [of y] by (auto simp: entry_ok_def prod_eq_iff)
  qed
  have "distinct (map snd (due now ?T))"
    using ok inj by (auto simp: distinct_map tq_ok_def set_okD due_def intro: inj_on_subset)
  moreover have "snd ` set (due now ?T) \<inter> snd ` set (later now ?T) = {}"
    using inj by (auto simp: inj_on_def due_def later_def) fastforce
  ultimately show "held_ok l E w'"
    using A e by (auto simp: held_ok_def ev due_def)
qed

section \<open>Putting the timers back\<close>

definition again :: "nat \<Rightarrow> 'm tworld_scheme \<Rightarrow> addr \<Rightarrow> bool" where
  "again l w a \<longleftrightarrow>
     (case theap w a of None \<Rightarrow> False
      | Some tm \<Rightarrow> tm_repeat tm \<and> (a, tm_sequence tm) \<notin> set (tq_cancelingTimers (tqs w l)))"

definition heap_after :: "ts_api \<Rightarrow> timestamp \<Rightarrow> nat \<Rightarrow> (timestamp \<times> addr) list \<Rightarrow> 'm tworld_scheme
    \<Rightarrow> addr \<Rightarrow> timer option" where
  "heap_after TS now l E w a =
     (if a \<notin> snd ` set E then theap w a
      else if again l w a then map_option (restart TS now) (theap w a) else None)"

definition timers_after :: "ts_api \<Rightarrow> timestamp \<Rightarrow> nat \<Rightarrow> (timestamp \<times> addr) list \<Rightarrow> 'm tworld_scheme
    \<Rightarrow> (timestamp \<times> addr) set" where
  "timers_after TS now l E w =
     set (tq_timers (tqs w l)) \<union>
     (\<lambda>a. (tm_expiration (restart TS now (the (theap w a))), a)) ` {a \<in> snd ` set E. again l w a}"

lemma heap_upd_fields [simp]:
  "tqs (w\<lparr>theap := h\<rparr>) = tqs w" "clock (w\<lparr>theap := h\<rparr>) = clock w"
  by simp_all

lemma heap_upd_ok:
  assumes "a \<notin> snd ` set (tq_timers (tqs w l))"
  shows "tq_ok l (w\<lparr>theap := (theap w)(a := x)\<rparr>) = tq_ok l w"
proof -
  let ?v = "w\<lparr>theap := (theap w)(a := x)\<rparr>"
  have ne: "snd e \<noteq> a" if "e \<in> set (tq_timers (tqs w l))" for e
    using that assms by (force simp: image_iff)
  have "entry_id ?v ` set (tq_timers (tqs w l)) = entry_id w ` set (tq_timers (tqs w l))"
    by (rule image_cong) (simp_all add: entry_heap_other ne)
  then show ?thesis using ne by (simp add: tq_ok_def entry_heap_other cong: ball_cong)
qed

lemma heap_upd_held:
  assumes "a \<notin> snd ` set E"
  shows "held_ok l E (w\<lparr>theap := (theap w)(a := x)\<rparr>) = held_ok l E w"
proof -
  have "snd e \<noteq> a" if "e \<in> set E" for e using that assms by (force simp: image_iff)
  then show ?thesis by (simp add: held_ok_def entry_heap_other cong: ball_cong)
qed

definition reset_state :: "ts_api \<Rightarrow> timestamp \<Rightarrow> nat \<Rightarrow> addr \<Rightarrow> 'm tworld_scheme \<Rightarrow> 'm tworld_scheme" where
  "reset_state TS now l a w =
     (let tm = restart TS now (the (theap w a)) in
      if again l w a then inserted l a tm (w\<lparr>theap := (theap w)(a \<mapsto> tm)\<rparr>)
      else w\<lparr>theap := (theap w)(a := None)\<rparr>)"

lemma reset_state_fields [simp]:
  "theap (reset_state TS now l a w) = (theap w)(a :=
     (if again l w a then Some (restart TS now (the (theap w a))) else None))"
  "tq_cancelingTimers (tqs (reset_state TS now l a w) l) = tq_cancelingTimers (tqs w l)"
  "tq_callingExpiredTimers (tqs (reset_state TS now l a w) l) = tq_callingExpiredTimers (tqs w l)"
  "clock (reset_state TS now l a w) = clock w"
  "isInLoopThread tid k (reset_state TS now l a w) = isInLoopThread tid k w"
  "set (tq_timers (tqs (reset_state TS now l a w) l)) =
     (if again l w a then insert (tm_expiration (restart TS now (the (theap w a))), a) else id)
       (set (tq_timers (tqs w l)))"
  by (simp_all add: reset_state_def Let_def)

lemma again_cong:
  assumes "theap v a = theap w a" and "tq_cancelingTimers (tqs v l) = tq_cancelingTimers (tqs w l)"
  shows "again l v a = again l w a"
  using assms by (simp add: again_def split: option.split)

lemma reset_one_eq:
  assumes ok: "tq_ok l w" and h: "held_ok l (e # E) w" and th: "isInLoopThread tid l w"
  shows "reset_one TS tid l now e w = Inr (reset_state TS now l (snd e) w)"
    and "tq_ok l (reset_state TS now l (snd e) w)"
    and "held_ok l E (reset_state TS now l (snd e) w)"
proof -
  obtain tm where tm: "theap w (snd e) = Some tm" and M: "snd e \<noteq> UINTPTR_MAX"
    using h by (auto simp: held_ok_def entry_ok_def)
  have out: "snd e \<notin> snd ` set (tq_timers (tqs w l))" and ne: "snd e \<notin> snd ` set E"
    using h by (auto simp: held_ok_def)
  let ?r = "restart TS now tm"
  let ?v = "w\<lparr>theap := (theap w)(snd e \<mapsto> ?r)\<rparr>"
  have okv: "tq_ok l ?v" and fr: "free_addr l (snd e) ?v" and tv: "isInLoopThread tid l ?v"
    using ok th out M by (simp_all add: heap_upd_ok free_addr_def)
  have hE: "held_ok l E w" using h by (simp add: held_ok_def)
  show "reset_one TS tid l now e w = Inr (reset_state TS now l (snd e) w)"
    using tm tq_insert_eq [OF okv _ fr tv]
    by (simp add: reset_one_def deref_def reset_state_def again_def Let_def)
  show "tq_ok l (reset_state TS now l (snd e) w)"
    using tm inserted_ok [OF okv _ fr, of ?r] ok out by (simp add: reset_state_def Let_def heap_upd_ok)
  show "held_ok l E (reset_state TS now l (snd e) w)"
    using tm held_inserted [of l E ?v "snd e" ?r] hE ne
    by (simp add: reset_state_def Let_def heap_upd_held)
qed

lemma reset_runs:
  assumes "tq_ok l w" and "held_ok l E w" and "isInLoopThread tid l w"
  shows "\<exists>v. runs (reset_one TS tid l now) E w = Inr v \<and> tq_ok l v \<and> isInLoopThread tid l v
    \<and> theap v = heap_after TS now l E w \<and> set (tq_timers (tqs v l)) = timers_after TS now l E w
    \<and> tq_callingExpiredTimers (tqs v l) = tq_callingExpiredTimers (tqs w l)"
  using assms
proof (induction E arbitrary: w)
  case Nil
  then show ?case by (simp add: heap_after_def timers_after_def fun_eq_iff)
next
  case (Cons e E)
  let ?u = "reset_state TS now l (snd e) w"
  note one = reset_one_eq [OF Cons.prems]
  have th: "isInLoopThread tid l ?u" using Cons.prems(3) by simp
  obtain v where v: "runs (reset_one TS tid l now) E ?u = Inr v" "tq_ok l v" "isInLoopThread tid l v"
      "theap v = heap_after TS now l E ?u" "set (tq_timers (tqs v l)) = timers_after TS now l E ?u"
      "tq_callingExpiredTimers (tqs v l) = tq_callingExpiredTimers (tqs w l)"
    using Cons.IH [OF one(2,3) th] by auto
  have ne: "a \<noteq> snd e" if "a \<in> snd ` set E" for a
    using that Cons.prems(2) unfolding held_ok_def by (metis distinct.simps(2) list.simps(9) set_map)
  have ag: "again l ?u a = again l w a" if "a \<in> snd ` set E" for a
    using ne [OF that] by (intro again_cong) simp_all
  have H: "heap_after TS now l E ?u = heap_after TS now l (e # E) w"
  proof (rule ext)
    fix a show "heap_after TS now l E ?u a = heap_after TS now l (e # E) w a"
    proof (cases "a \<in> snd ` set E")
      case True
      with ag [OF True] ne [OF True] show ?thesis by (simp add: heap_after_def)
    next
      case False
      then show ?thesis by (auto simp: heap_after_def again_def split: option.splits)
    qed
  qed
  have "(\<lambda>a. (tm_expiration (restart TS now (the (theap ?u a))), a)) ` {a \<in> snd ` set E. again l ?u a} =
      (\<lambda>a. (tm_expiration (restart TS now (the (theap w a))), a)) ` {a \<in> snd ` set E. again l w a}"
    by (rule image_cong) (use ag ne in auto)
  then have "timers_after TS now l E ?u = timers_after TS now l (e # E) w"
    by (auto simp: timers_after_def)
  with v H one(1) show ?case by simp
qed

section \<open>Arming the timerfd\<close>

definition armed_first :: "nat \<Rightarrow> 'm tworld_scheme \<Rightarrow> bool" where
  "armed_first l w \<longleftrightarrow>
     (case tq_timers (tqs w l) of [] \<Rightarrow> True | e # _ \<Rightarrow> tq_armed (tqs w l) = Some (fst e))"

lemma tq_reset_eq:
  assumes "tq_ok l w" and "held_ok l E w" and "isInLoopThread tid l w"
  shows "\<exists>v. tq_reset TS tid l E now w = Inr v \<and> tq_ok l v \<and> isInLoopThread tid l v
    \<and> theap v = heap_after TS now l E w \<and> set (tq_timers (tqs v l)) = timers_after TS now l E w
    \<and> tq_callingExpiredTimers (tqs v l) = tq_callingExpiredTimers (tqs w l)
    \<and> ((\<forall>e\<in>set (tq_timers (tqs v l)). ts_valid TS (fst e)) \<longrightarrow> armed_first l v)"
proof -
  obtain u where u: "runs (reset_one TS tid l now) E w = Inr u" "tq_ok l u" "isInLoopThread tid l u"
      "theap u = heap_after TS now l E w" "set (tq_timers (tqs u l)) = timers_after TS now l E w"
      "tq_callingExpiredTimers (tqs u l) = tq_callingExpiredTimers (tqs w l)"
    using reset_runs [OF assms] by blast
  show ?thesis
  proof (cases "tq_timers (tqs u l)")
    case Nil
    with u show ?thesis by (auto simp: tq_reset_def armed_first_def)
  next
    case (Cons e es)
    then have "entry_ok u e" using u(2) by (simp add: tq_ok_def)
    then obtain tm where "theap u (snd e) = Some tm" "tm_expiration tm = fst e"
      by (auto simp: entry_ok_def)
    with u Cons show ?thesis by (auto simp: tq_reset_def deref_def armed_first_def)
  qed
qed

section \<open>A round with callbacks that use the timer interface\<close>

datatype timer_call =
    Call_runAt timestamp tcallback
  | Call_runAfter real tcallback
  | Call_runEvery real tcallback
  | Call_cancel timerId

definition do_call :: "ts_api \<Rightarrow> ((addr \<Rightarrow> timer option) \<Rightarrow> addr option) \<Rightarrow> nat \<Rightarrow> nat \<Rightarrow> timer_call
    \<Rightarrow> 'm tworld_scheme \<Rightarrow> 'm tworld_scheme res" where
  "do_call TS alloc tid l c w =
     (case c of
        Call_runAt t cb \<Rightarrow> rbind (runAt TS alloc tid l t cb w) (\<lambda>(_, w). Inr w)
      | Call_runAfter d cb \<Rightarrow> rbind (runAfter TS alloc tid l d cb w) (\<lambda>(_, w). Inr w)
      | Call_runEvery d cb \<Rightarrow> rbind (runEvery TS alloc tid l d cb w) (\<lambda>(_, w). Inr w)
      | Call_cancel i \<Rightarrow> tq_cancel tid l i w)"

definition run_script :: "ts_api \<Rightarrow> ((addr \<Rightarrow> timer option) \<Rightarrow> addr option) \<Rightarrow> nat \<Rightarrow> nat
    \<Rightarrow> (tcallback \<Rightarrow> ('m tworld_scheme \<Rightarrow> timer_call) list)
    \<Rightarrow> tcallback \<Rightarrow> 'm tworld_scheme \<Rightarrow> 'm tworld_scheme res" where
  "run_script TS alloc tid l script cb w =
     runs (\<lambda>c w. do_call TS alloc tid l (c w) w) (script cb) w"

lemma addTimer_safe:
  assumes "tq_inv tid l b E w" and "alloc_ok alloc"
  shows "case rbind (addTimer TS alloc tid l cb when d w) (\<lambda>(_, w). Inr w) of
    Inl f \<Rightarrow> f \<in> {Bad_alloc} | Inr v \<Rightarrow> tq_inv tid l b E v"
proof (cases "alloc (theap w)")
  case None
  then show ?thesis by (simp add: addTimer_def)
next
  case (Some a)
  then show ?thesis using addTimer_eq [OF assms Some refl] by simp
qed

lemma do_call_safe [safe]:
  fixes c :: "'m tworld_scheme \<Rightarrow> timer_call"
  assumes "alloc_ok alloc"
  shows "safe_keeps {Bad_alloc} (tq_inv tid l b E) (tq_inv tid l b E) (\<lambda>w. do_call TS alloc tid l (c w) w)"
  unfolding safe_keeps_def
proof (intro allI impI)
  fix w :: "'m tworld_scheme" assume inv: "tq_inv tid l b E w"
  show "case do_call TS alloc tid l (c w) w of Inl e \<Rightarrow> e \<in> {Bad_alloc} | Inr v \<Rightarrow> tq_inv tid l b E v"
    using addTimer_safe [OF inv assms] cancel_safe [OF inv]
    by (cases "c w") (simp_all add: do_call_def runAt_def runAfter_def runEvery_def)
qed

lemma run_script_safe [safe]:
  assumes "alloc_ok alloc"
  shows "safe_keeps {Bad_alloc} (tq_inv tid l b E) (tq_inv tid l b E) (run_script TS alloc tid l script cb)"
proof -
  have "safe_keeps {Bad_alloc} (tq_inv tid l b E) (tq_inv tid l b E)
      (runs (\<lambda>c w. do_call TS alloc tid l (c w) w) (script cb))"
    by (intro safe assms)
  then show ?thesis by (simp add: safe_keeps_def run_script_def)
qed

lemma run_timer_safe:
  fixes run :: "tcallback \<Rightarrow> 'm tworld_scheme \<Rightarrow> 'm tworld_scheme res"
  assumes "\<And>cb. safe_keeps F (tq_inv tid l b E) (tq_inv tid l b E) (run cb)" and "e \<in> set E"
  shows "safe_keeps F (tq_inv tid l b E) (tq_inv tid l b E) (run_timer run e)"
  unfolding safe_keeps_def
proof (intro allI impI)
  fix w :: "'m tworld_scheme" assume inv: "tq_inv tid l b E w"
  then have "entry_ok w e" using assms(2) by (simp add: tq_inv_def held_ok_def)
  then obtain tm where "theap w (snd e) = Some tm" by (auto simp: entry_ok_def)
  then show "case run_timer run e w of Inl f \<Rightarrow> f \<in> F | Inr v \<Rightarrow> tq_inv tid l b E v"
    using assms(1) [of "tm_callback tm"] inv by (simp add: run_timer_def deref_def safe_keeps_def)
qed

text \<open>The state in which the callbacks of a round run, and the fixed part of a round.\<close>

definition calling :: "nat \<Rightarrow> 'm tworld_scheme \<Rightarrow> 'm tworld_scheme" where
  "calling l = upd_tq l (\<lambda>q. q\<lparr>tq_callingExpiredTimers := True, tq_cancelingTimers := []\<rparr>)"

definition called :: "nat \<Rightarrow> 'm tworld_scheme \<Rightarrow> 'm tworld_scheme" where
  "called l = upd_tq l (\<lambda>q. q\<lparr>tq_callingExpiredTimers := False\<rparr>)"

lemma readTimerfd_fields [simp]:
  "tqs (readTimerfd l w) = tqs w" "theap (readTimerfd l w) = theap w" "clock (readTimerfd l w) = clock w"
  "isInLoopThread tid k (readTimerfd l w) = isInLoopThread tid k w"
  by (simp_all add: readTimerfd_def)

lemma held_append:
  "held_ok l (E @ F) w \<longleftrightarrow> held_ok l E w \<and> held_ok l F w \<and> snd ` set E \<inter> snd ` set F = {}"
  by (auto simp: held_ok_def)

text \<open>\<open>F\<close> are timers that are alive and not in the queue when the round starts, such as those that
  other threads have handed over.\<close>

lemma calling_inv:
  assumes inv: "tq_inv tid l False F w"
    and g: "getExpired l (clock w) (readTimerfd l w) = Inr (E, u)"
  shows "tq_inv tid l True (E @ F) (calling l u)" "E = due (clock w) (tq_timers (tqs w l))"
proof -
  have ok: "tq_ok l (readTimerfd l w)"
    using inv tq_ok_cong(1) [of "readTimerfd l w" w l] by (simp add: tq_inv_def)
  note k = getExpired_ok [OF ok g]
  show E: "E = due (clock w) (tq_timers (tqs w l))" using k(3) by simp
  have F: "held_ok l F w" using inv by (simp add: tq_inv_def)
  have "tq_ok l (calling l u)" "held_ok l E (calling l u)"
    using k(1,2) tq_ok_cong [of "calling l u" u l] by (simp_all add: calling_def)
  moreover have "held_ok l F (calling l u)"
    using F k(4,5) entry_cong(1) [of "calling l u" w]
      image_mono [of "set (later (clock w) (tq_timers (tqs w l)))" "set (tq_timers (tqs w l))" snd]
    by (simp add: held_ok_def calling_def later_def disjoint_iff subset_iff) blast
  moreover have "snd ` set E \<inter> snd ` set F = {}"
    using F image_mono [of "set (due (clock w) (tq_timers (tqs w l)))" "set (tq_timers (tqs w l))" snd]
    by (simp add: held_ok_def E due_def disjoint_iff subset_iff) blast
  ultimately show "tq_inv tid l True (E @ F) (calling l u)"
    using inv k(6) [of tid] by (simp add: tq_inv_def held_append calling_def)
qed

lemma called_inv:
  assumes "tq_inv tid l True E u"
  shows "tq_ok l (called l u)" "held_ok l E (called l u)" "isInLoopThread tid l (called l u)"
    "\<not> tq_callingExpiredTimers (tqs (called l u) l)"
  using assms tq_ok_cong [of "called l u" u l] by (simp_all add: called_def tq_inv_def)

lemma handleRead_split:
  assumes inv: "tq_inv tid l False F w"
  shows "\<exists>u. tq_inv tid l True (due (clock w) (tq_timers (tqs w l)) @ F) u \<and>
    theap u = theap w \<and> tq_timers (tqs u l) = later (clock w) (tq_timers (tqs w l)) \<and>
    tq_handleRead TS run tid l w =
      rbind (runs (run_timer run) (due (clock w) (tq_timers (tqs w l))) u)
        (\<lambda>v. tq_reset TS tid l (due (clock w) (tq_timers (tqs w l))) (clock w) (called l v))"
proof -
  let ?D = "due (clock w) (tq_timers (tqs w l))"
  have ok: "tq_ok l (readTimerfd l w)"
    using inv tq_ok_cong(1) [of "readTimerfd l w" w l] by (simp add: tq_inv_def)
  obtain u where u: "getExpired l (clock w) (readTimerfd l w) = Inr (?D, u)"
    using getExpired_eq [OF ok, of "clock w"] by auto
  have "isInLoopThread tid l w" using inv by (simp add: tq_inv_def)
  then have "tq_handleRead TS run tid l w = rbind (runs (run_timer run) ?D (calling l u))
        (\<lambda>v. tq_reset TS tid l ?D (clock w) (called l v))"
    by (simp add: tq_handleRead_def assertInLoopThread_def u calling_def called_def Let_def)
  moreover have "theap (calling l u) = theap w"
      "tq_timers (tqs (calling l u) l) = later (clock w) (tq_timers (tqs w l))"
    using getExpired_ok(4,5) [OF ok u] by (simp_all add: calling_def)
  ultimately show ?thesis using calling_inv(1) [OF inv u] by blast
qed

lemma script_runs_safe:
  assumes "alloc_ok alloc"
  shows "safe_keeps {Bad_alloc} (tq_inv tid l b E) (tq_inv tid l b E)
    (runs (run_timer (run_script TS alloc tid l script)) E)"
  by (intro safe_runs run_timer_safe run_script_safe assms)

lemma handleRead_Inr:
  assumes inv: "tq_inv tid l False [] w" and al: "alloc_ok alloc"
    and r: "tq_handleRead TS (run_script TS alloc tid l script) tid l w = Inr v"
  obtains u x where "theap u = theap w" "tq_timers (tqs u l) = later (clock w) (tq_timers (tqs w l))"
    "runs (run_timer (run_script TS alloc tid l script)) (due (clock w) (tq_timers (tqs w l))) u = Inr x"
    "tq_inv tid l True (due (clock w) (tq_timers (tqs w l))) x"
    "tq_reset TS tid l (due (clock w) (tq_timers (tqs w l))) (clock w) (called l x) = Inr v"
proof -
  let ?D = "due (clock w) (tq_timers (tqs w l))" and ?run = "run_script TS alloc tid l script"
  obtain u where u: "tq_inv tid l True ?D u" "theap u = theap w"
      "tq_timers (tqs u l) = later (clock w) (tq_timers (tqs w l))"
    and eq: "tq_handleRead TS ?run tid l w =
      rbind (runs (run_timer ?run) ?D u) (\<lambda>v. tq_reset TS tid l ?D (clock w) (called l v))"
    using handleRead_split [OF inv] by auto
  obtain x where x: "runs (run_timer ?run) ?D u = Inr x"
      "tq_reset TS tid l ?D (clock w) (called l x) = Inr v"
    using r [unfolded eq rbind_Inr_iff] by blast
  show thesis
    using that u(2,3) x safe_keepsD(1) [OF script_runs_safe [OF al] u(1) x(1)] by blast
qed

end
