(* ===== verification/Timer_Properties.thy ===== *)
theory Timer_Properties
  imports Timer_Expiry
begin

text \<open>
  The correctness of the timer queue: no assertion fails and no freed timer is read whatever
  the callbacks add and cancel; a round runs the timers that are due, puts back the repeating
  ones and frees the rest; the timerfd is armed no later than the earliest timer. The
  properties are stated over the operations of \<open>TimerQueue.cc\<close>.
\<close>

section \<open>Arming\<close>

definition armed_by :: "nat \<Rightarrow> 'm tworld_scheme \<Rightarrow> bool" where
  "armed_by l w \<longleftrightarrow>
     (case tq_timers (tqs w l) of [] \<Rightarrow> True
      | e # _ \<Rightarrow> (\<exists>x. tq_armed (tqs w l) = Some x \<and> x \<le> fst e))"

lemma armed_first_by: "armed_first l w \<Longrightarrow> armed_by l w"
  by (auto simp: armed_first_def armed_by_def split: list.splits)

lemma armed_added:
  assumes "armed_by l w"
  shows "armed_by l (added TS l a tm w)"
proof (cases "tq_timers (tqs w l)")
  case Nil
  then show ?thesis by (simp add: armed_by_def added_def earliest_changes_def)
next
  case (Cons e es)
  then show ?thesis
    using assms
    by (cases e)
      (auto simp: armed_by_def added_def earliest_changes_def case_prod_beta Let_def less_prod_def)
qed

lemma armed_erased:
  assumes "armed_by l w" and "tq_ok l w"
  shows "armed_by l (erased l a tm w)"
proof (cases "tq_timers (tqs w l)")
  case Nil
  then show ?thesis by (simp add: armed_by_def)
next
  case (Cons e es)
  have "fst e \<le> fst d" if "d \<in> set es" for d
    using assms(2) that Cons by (cases e; cases d) (auto simp: tq_ok_def set_ok_def less_prod_def)
  then show ?thesis
    using assms(1) Cons
    by (cases es) (auto simp: armed_by_def case_prod_beta Let_def intro: order_trans)
qed

lemma armed_cancelled:
  assumes "armed_by l w" and "tq_ok l w"
  shows "armed_by l (cancelled l timer w)"
proof -
  have "armed_by l (cancel_noted l timer w)"
    using assms(1) by (auto simp: armed_by_def cancel_noted_def split: list.splits)
  then show ?thesis using armed_erased [OF assms] assms(1) by (simp add: cancelled_def)
qed

section \<open>Rounds whose callbacks leave the timers alone\<close>

lemma idle_round:
  assumes "tq_inv tid l False [] w"
  shows "\<exists>v. tq_handleRead TS (run_script TS alloc tid l (\<lambda>_. [])) tid l w = Inr v
    \<and> (\<forall>e\<in>set (due (clock w) (tq_timers (tqs w l))).
         \<forall>tm. theap w (snd e) = Some tm \<and> \<not> tm_repeat tm \<longrightarrow> theap v (snd e) = None)"
proof -
  let ?D = "due (clock w) (tq_timers (tqs w l))"
    and ?run = "run_script TS alloc tid l (\<lambda>_. []) :: tcallback \<Rightarrow> 'a tworld_scheme \<Rightarrow> 'a tworld_scheme res"
  obtain u where u: "tq_inv tid l True ?D u" "theap u = theap w"
    and eq: "tq_handleRead TS ?run tid l w =
      rbind (runs (run_timer ?run) ?D u) (\<lambda>v. tq_reset TS tid l ?D (clock w) (called l v))"
    using handleRead_split [OF assms, of TS ?run] by auto
  have "runs (run_timer ?run) D u = Inr u" if "set D \<subseteq> set ?D" for D
    using that
  proof (induction D)
    case (Cons e D)
    then have "entry_ok u e" using u(1) by (auto simp: tq_inv_def held_ok_def)
    then show ?case using Cons by (auto simp: run_timer_def deref_def run_script_def entry_ok_def)
  qed simp
  then have "runs (run_timer ?run) ?D u = Inr u" by blast
  moreover note c = called_inv [OF u(1)]
  ultimately show ?thesis
    using eq u(2) tq_reset_eq [OF c(1-3), of TS "clock w"]
    by (auto simp: heap_after_def again_def called_def)
qed

section \<open>A sample queue\<close>

text \<open>A queue with a repeating timer, due at 5, a single-shot timer, due at 7, and one that is
  due at 100, at the time 10.\<close>

definition sample_ts :: ts_api where
  "sample_ts = \<lparr>ts_default = 0, ts_invalid = 0, ts_valid = (\<lambda>t. 0 < t),
     ts_addTime = (\<lambda>t s. t + \<lfloor>s * 1000000\<rfloor>), ts_usPerSecond = 1000000\<rparr>"

definition sample_alloc :: "(addr \<Rightarrow> timer option) \<Rightarrow> addr option" where
  "sample_alloc h = (if h 0x40 = None then Some 0x40 else None)"

definition sample_queue :: timer_queue where
  "sample_queue = \<lparr>tq_timerfd = 9, tq_channel = 1,
     tq_timers = [(5, 0x10), (7, 0x20), (100, 0x30)],
     tq_activeTimers = [(0x10, 1), (0x20, 2), (0x30, 3)],
     tq_callingExpiredTimers = False, tq_cancelingTimers = [], tq_armed = Some 5\<rparr>"

definition sample_heap :: "addr \<Rightarrow> timer option" where
  "sample_heap = [0x10 \<mapsto> new_timer (TC_user 1) 5 1 1, 0x20 \<mapsto> new_timer (TC_user 2) 7 0 2,
     0x30 \<mapsto> new_timer (TC_user 3) 100 0 3]"

definition sample_world :: tworld where
  "sample_world = \<lparr>loops = (\<lambda>_. fresh_event_loop 7), chans = (\<lambda>_. new_channel 0 9),
     threadLoop = (\<lambda>_. None), live = (\<lambda>_. True), sys = [],
     tqs = (\<lambda>_. sample_queue), theap = sample_heap, numCreated = 3, clock = 10\<rparr>"

lemmas sample_defs = sample_world_def sample_queue_def sample_heap_def new_timer_def

lemma sample_alloc_ok: "alloc_ok sample_alloc"
  by (auto simp: alloc_ok_def sample_alloc_def UINTPTR_MAX_def split: if_splits)

lemma sample_tq_ok: "tq_ok 0 sample_world"
  by (simp add: tq_ok_def sample_defs set_ok_def entry_ok_def entry_id_def seq_of_def UINTPTR_MAX_def
      less_prod_def)

lemma sample_inv: "tq_inv 7 0 False [] sample_world"
  using sample_tq_ok
  by (simp add: tq_inv_def held_ok_def isInLoopThread_def) (simp add: sample_defs fresh_event_loop_def)

text \<open>The same queue while the callbacks of its first two timers run.\<close>

definition sample_calling :: tworld where
  "sample_calling = calling 0 (upd_tq 0 (\<lambda>q. q\<lparr>tq_timers := [(100, 0x30)],
     tq_activeTimers := [(0x30, 3)]\<rparr>) sample_world)"

lemma sample_calling_inv: "tq_inv 7 0 True [(5, 0x10), (7, 0x20)] sample_calling"
  by (simp add: tq_inv_def sample_calling_def calling_def held_ok_def tq_ok_def isInLoopThread_def)
    (simp add: sample_defs set_ok_def entry_ok_def entry_id_def seq_of_def UINTPTR_MAX_def
      fresh_event_loop_def)

section \<open>Properties\<close>

text \<open>C3. A round of \<open>TimerQueue::handleRead\<close> on a well-formed queue, with callbacks that add
  and cancel any timers of the queue (their own, other expired ones and stale handles
  included), violates none of the assertions of \<open>insert\<close>, \<open>getExpired\<close>, \<open>reset\<close> and
  \<open>cancelInLoop\<close> and reads no freed timer: the only failure left is that of \<open>new\<close>. Otherwise
  it ends with a well-formed queue.\<close>

theorem timer_round_safe:
  assumes "alloc_ok alloc" and "tq_inv tid l False [] w"
  shows "case tq_handleRead TS (run_script TS alloc tid l script) tid l w of
    Inl f \<Rightarrow> f = Bad_alloc | Inr v \<Rightarrow> tq_inv tid l False [] v"
proof -
  let ?D = "due (clock w) (tq_timers (tqs w l))" and ?run = "run_script TS alloc tid l script"
  obtain u where u: "tq_inv tid l True ?D u" and eq: "tq_handleRead TS ?run tid l w =
      rbind (runs (run_timer ?run) ?D u) (\<lambda>v. tq_reset TS tid l ?D (clock w) (called l v))"
    using handleRead_split [OF assms(2)] by auto
  note sf = script_runs_safe [OF assms(1), of tid l True ?D TS script]
  show ?thesis
  proof (cases "runs (run_timer ?run) ?D u")
    case (Inl f)
    then show ?thesis using safe_keepsD(2) [OF sf u Inl] eq by simp
  next
    case (Inr x)
    have "tq_inv tid l True ?D x" by (rule safe_keepsD(1) [OF sf u Inr])
    note c = called_inv [OF this]
    show ?thesis
      using tq_reset_eq [OF c(1-3), of TS "clock w"] c(4) Inr eq
      by (auto simp: tq_inv_def held_ok_def)
  qed
qed

theorem timer_round_safe_witness:
  "case tq_handleRead sample_ts (run_script sample_ts sample_alloc 7 0
      (\<lambda>_. [\<lambda>_. Call_cancel (0x10, 1), \<lambda>_. Call_cancel (0x30, 3), \<lambda>_. Call_runEvery 1 (TC_user 4)]))
      7 0 sample_world of
    Inl f \<Rightarrow> f = Bad_alloc | Inr v \<Rightarrow> tq_inv 7 0 False [] v"
  by (rule timer_round_safe [OF sample_alloc_ok sample_inv])

text \<open>\<open>getExpired\<close> on a well-formed queue succeeds: it returns exactly the entries whose
  expiration is at or before \<open>now\<close>, in order, leaves exactly the others in \<open>timers_\<close>, keeps
  the two sets in step and deletes no timer.\<close>

lemma getExpired_splits:
  assumes "tq_ok l w"
  shows "\<exists>v. getExpired l now w = Inr (filter (\<lambda>e. fst e \<le> now) (tq_timers (tqs w l)), v)
    \<and> tq_timers (tqs v l) = filter (\<lambda>e. now < fst e) (tq_timers (tqs w l))
    \<and> theap v = theap w \<and> tq_ok l v"
proof -
  obtain v where v: "getExpired l now w = Inr (due now (tq_timers (tqs w l)), v)"
    using getExpired_eq [OF assms] by blast
  with getExpired_ok [OF assms v] show ?thesis by (auto simp: due_def later_def)
qed

lemma getExpired_splits_witness:
  "\<exists>v. getExpired 0 7 sample_world = Inr ([(5, 0x10), (7, 0x20)], v) \<and> tq_timers (tqs v 0) = [(100, 0x30)]"
  using getExpired_splits [OF sample_tq_ok, of 7] by (auto simp: sample_world_def sample_queue_def)


lemma sample_due:
  "due 10 (tq_timers (tqs sample_world 0)) = [(5, 0x10), (7, 0x20)]"
  "later 10 (tq_timers (tqs sample_world 0)) = [(100, 0x30)]"
  "clock sample_world = 10"
  by (simp_all add: due_def later_def sample_world_def sample_queue_def)

lemma sample_round:
  "\<exists>v. tq_handleRead sample_ts (run_script sample_ts sample_alloc 7 0 (\<lambda>_. [])) 7 0 sample_world = Inr v"
  using idle_round [OF sample_inv] by blast


text \<open>A callback that cancels an expired timer of the same round, itself for instance, takes
  effect: \<open>cancel\<close> only records the request while the callbacks run, and \<open>reset\<close> then deletes
  the timer, also a repeating one, and does not put it back.\<close>

lemma cancel_in_callback:
  assumes "tq_inv tid l True E w" and "(t, a) \<in> set E" and "theap w a = Some tm"
  shows "\<exists>v u. tq_cancel tid l (a, tm_sequence tm) w = Inr v
    \<and> tq_timers (tqs v l) = tq_timers (tqs w l) \<and> theap v = theap w
    \<and> tq_reset TS tid l E now (called l v) = Inr u
    \<and> theap u a = None \<and> a \<notin> snd ` set (tq_timers (tqs u l))"
proof -
  let ?i = "(a, tm_sequence tm)" and ?v = "cancel_noted l (a, tm_sequence tm) w"
  have inv: "tq_ok l w" "held_ok l E w" "tq_callingExpiredTimers (tqs w l)"
    using assms(1) by (simp_all add: tq_inv_def)
  have "a \<in> snd ` set E" using assms(2) by force
  then have "a \<notin> snd ` set (tq_timers (tqs w l))" using inv(2) by (auto simp: held_ok_def)
  then have "?i \<notin> set (tq_activeTimers (tqs w l))"
    using active_iff [OF inv(1)] by (force simp: image_iff)
  then have v: "cancelled l ?i w = ?v" using inv(3) by (simp add: cancelled_def)
  have cv: "tq_cancel tid l ?i w = Inr ?v" "tq_inv tid l True E ?v"
    using cancel_safe [OF assms(1), of ?i] v by simp_all
  obtain u where u: "tq_reset TS tid l E now (called l ?v) = Inr u" "tq_ok l u"
      "theap u = heap_after TS now l E (called l ?v)"
    using tq_reset_eq [OF called_inv(1-3) [OF cv(2)]] by blast
  have "theap u a = None"
    using \<open>a \<in> snd ` set E\<close> assms(3) u(3)
    by (simp add: heap_after_def again_def called_def cancel_noted_def)
  moreover from this have "a \<notin> snd ` set (tq_timers (tqs u l))"
    using u(2) by (auto simp: tq_ok_def entry_ok_def)
  moreover have "tq_timers (tqs ?v l) = tq_timers (tqs w l)" "theap ?v = theap w"
    by (simp_all add: cancel_noted_def)
  ultimately show ?thesis using cv(1) u(1) by blast
qed

lemma cancel_in_callback_witness:
  "\<exists>v u. tq_cancel 7 0 (0x10, 1) sample_calling = Inr v
    \<and> tq_reset sample_ts 7 0 [(5, 0x10), (7, 0x20)] 10 (called 0 v) = Inr u \<and> theap u 0x10 = None"
  using cancel_in_callback [OF sample_calling_inv, of 5 "0x10" "new_timer (TC_user 1) 5 1 1" sample_ts 10]
  by (auto simp: sample_calling_def calling_def sample_defs)

text \<open>C25. Adding a timer from the loop thread and cancelling the handle that was returned is a
  round trip: the handle is active in between, and afterwards both sets and the heap are what
  they were.\<close>

theorem add_cancel_roundtrip:
  assumes "tq_inv tid l b E w" and "alloc_ok alloc" and "alloc (theap w) = Some a"
  shows "\<exists>i v u. addTimer TS alloc tid l cb when interval w = Inr (i, v)
    \<and> i \<in> set (tq_activeTimers (tqs v l)) \<and> tq_cancel tid l i v = Inr u
    \<and> tq_timers (tqs u l) = tq_timers (tqs w l)
    \<and> tq_activeTimers (tqs u l) = tq_activeTimers (tqs w l) \<and> theap u = theap w"
proof -
  let ?tm = "new_timer cb when interval (numCreated w + 1)"
  let ?v = "added TS l a ?tm (created a ?tm w)" and ?i = "(a, numCreated w + 1)"
  note ad = addTimer_eq [OF assms refl, of TS cb "when" interval]
  have N: "theap w a = None" using assms(2,3) by (simp add: alloc_ok_def)
  have ok: "tq_ok l w" using assms(1) by (simp add: tq_inv_def)
  have out: "a \<notin> snd ` set (tq_timers (tqs w l))" by (rule created_ok(3) [OF ok N])
  then have T: "(when, a) \<notin> set (tq_timers (tqs w l))" by force
  have A: "?i \<notin> set (tq_activeTimers (tqs w l))"
    using active_iff [OF ok] N by simp
  have act: "?i \<in> set (tq_activeTimers (tqs ?v l))" by (simp add: new_timer_def)
  have "tq_cancel tid l ?i ?v = Inr (erased l a ?tm ?v)"
    using cancel_safe [OF ad(2), of ?i] act by (simp add: cancelled_def)
  moreover have "tq_timers (tqs (erased l a ?tm ?v) l) = tq_timers (tqs w l)"
      "tq_activeTimers (tqs (erased l a ?tm ?v) l) = tq_activeTimers (tqs w l)"
      "theap (erased l a ?tm ?v) = theap w"
    using T A N by (simp_all add: new_timer_def set_erase_insert fun_upd_idem)
  ultimately show ?thesis using ad(1) act by blast
qed

theorem add_cancel_roundtrip_witness:
  "\<exists>i v u. addTimer sample_ts sample_alloc 7 0 (TC_user 4) 6 0 sample_world = Inr (i, v)
    \<and> tq_cancel 7 0 i v = Inr u \<and> tq_timers (tqs u 0) = [(5, 0x10), (7, 0x20), (100, 0x30)]"
proof -
  have "sample_alloc (theap sample_world) = Some 0x40" by (simp add: sample_alloc_def sample_defs)
  from add_cancel_roundtrip [OF sample_inv sample_alloc_ok this, of sample_ts "TC_user 4" 6 0]
  show ?thesis by (auto simp: sample_world_def sample_queue_def)
qed

text \<open>A handle whose timer has left the queue is harmless outside a round: \<open>cancelInLoop\<close>
  reads no freed memory and changes nothing, even when a new timer has since been created at
  the same address, because the sequence numbers differ.\<close>

lemma stale_handle_harmless:
  assumes "tq_inv tid l False E w" and "\<forall>tm. theap w a = Some tm \<longrightarrow> tm_sequence tm \<noteq> s"
  shows "cancelInLoop tid l (a, s) w = Inr w"
proof -
  have ok: "tq_ok l w" "isInLoopThread tid l w" "\<not> tq_callingExpiredTimers (tqs w l)"
    using assms(1) by (simp_all add: tq_inv_def)
  have "(a, s) \<notin> set (tq_activeTimers (tqs w l))" using active_iff [OF ok(1)] assms(2) by auto
  with ok show ?thesis by (simp add: cancelInLoop_eq cancelled_def)
qed

lemma stale_handle_harmless_witness:
  "cancelInLoop 7 0 (0x10, 9) sample_world = Inr sample_world"
  by (rule stale_handle_harmless [OF sample_inv]) (simp add: sample_defs)





end
