(* ===== verification/Net_Sockets.thy ===== *)
theory Net_Sockets
  imports Reactor_Loop
begin

unbundle bit_operations_syntax

text \<open>
  Byte order (\<open>Endian.h\<close>), the wrappers of the socket calls (\<open>SocketsOps.h\<close>,
  \<open>SocketsOps.cc\<close>) and the class \<open>Socket\<close> (\<open>Socket.h\<close>, \<open>Socket.cc\<close>).

  The kernel is the argument \<open>OS\<close>: the result of a system call as a function of the calls made
  before it. The calls themselves are recorded in the field \<open>sys\<close> of the world. Whether the
  host is little-endian is the argument \<open>le\<close>. \<open>inet_ntop\<close> and \<open>inet_pton\<close> are arguments too.
\<close>

section \<open>Byte order\<close>

text \<open>The bytes of a word, the least significant first, and back.\<close>

fun bytes_of :: "nat \<Rightarrow> 'a::len word \<Rightarrow> byte list" where
  "bytes_of 0 x = []"
| "bytes_of (Suc n) x = ucast x # bytes_of n (drop_bit 8 x)"

fun of_bytes :: "byte list \<Rightarrow> 'a::len word" where
  "of_bytes [] = 0"
| "of_bytes (b # bs) = ucast b OR push_bit 8 (of_bytes bs)"

text \<open>What a word of \<open>n\<close> bytes looks like in memory.\<close>

definition memory :: "bool \<Rightarrow> nat \<Rightarrow> 'a::len word \<Rightarrow> byte list" where
  "memory le n x = (if le then bytes_of n x else rev (bytes_of n x))"

definition bswap :: "nat \<Rightarrow> 'a::len word \<Rightarrow> 'a word" where
  "bswap n x = of_bytes (rev (bytes_of n x))"

definition hostToNetwork64 :: "bool \<Rightarrow> 64 word \<Rightarrow> 64 word" where
  "hostToNetwork64 le x = (if le then bswap 8 x else x)"

definition hostToNetwork32 :: "bool \<Rightarrow> 32 word \<Rightarrow> 32 word" where
  "hostToNetwork32 le x = (if le then bswap 4 x else x)"

definition hostToNetwork16 :: "bool \<Rightarrow> 16 word \<Rightarrow> 16 word" where
  "hostToNetwork16 le x = (if le then bswap 2 x else x)"

definition networkToHost64 :: "bool \<Rightarrow> 64 word \<Rightarrow> 64 word" where
  "networkToHost64 le x = (if le then bswap 8 x else x)"

definition networkToHost32 :: "bool \<Rightarrow> 32 word \<Rightarrow> 32 word" where
  "networkToHost32 le x = (if le then bswap 4 x else x)"

definition networkToHost16 :: "bool \<Rightarrow> 16 word \<Rightarrow> 16 word" where
  "networkToHost16 le x = (if le then bswap 2 x else x)"

section \<open>Addresses\<close>

text \<open>\<open>struct sockaddr_in6\<close>. The same memory read as a \<open>struct sockaddr_in\<close> has the family
  and the port in the same places and the address where \<open>sin6_flowinfo\<close> is.\<close>

record sockaddr_in6 =
  sin6_family :: nat
  sin6_port :: "16 word"
  sin6_flowinfo :: "32 word"
  sin6_addr :: "byte list"
  sin6_scope_id :: "32 word"

record sockaddr_in =
  sin_family :: nat
  sin_port :: "16 word"
  sin_addr :: "32 word"

definition AF_INET :: nat where "AF_INET = 2"
definition AF_INET6 :: nat where "AF_INET6 = 10"
definition INET_ADDRSTRLEN :: nat where "INET_ADDRSTRLEN = 16"
definition INET6_ADDRSTRLEN :: nat where "INET6_ADDRSTRLEN = 46"

definition zero_addr :: sockaddr_in6 where
  "zero_addr = \<lparr>sin6_family = 0, sin6_port = 0, sin6_flowinfo = 0,
     sin6_addr = replicate 16 0, sin6_scope_id = 0\<rparr>"

definition sockaddr_in_cast :: "sockaddr_in6 \<Rightarrow> sockaddr_in" where
  "sockaddr_in_cast a = \<lparr>sin_family = sin6_family a, sin_port = sin6_port a, sin_addr = sin6_flowinfo a\<rparr>"

text \<open>\<open>inet_ntop\<close> and \<open>inet_pton\<close>.\<close>

record inet_api =
  ntop4 :: "32 word \<Rightarrow> string"
  ntop6 :: "byte list \<Rightarrow> string"
  pton4 :: "string \<Rightarrow> 32 word option"
  pton6 :: "string \<Rightarrow> byte list option"

text \<open>A buffer holds the characters before the terminating zero; \<open>snprintf\<close> and \<open>inet_ntop\<close>
  into \<open>sz\<close> bytes keep at most \<open>sz - 1\<close> characters.\<close>

definition toIp :: "inet_api \<Rightarrow> nat \<Rightarrow> sockaddr_in6 \<Rightarrow> string \<Rightarrow> string res" where
  "toIp A sz addr buf =
     (if sin6_family addr = AF_INET
      then check (INET_ADDRSTRLEN \<le> sz) Assertion_failed
             (Inr (take (sz - 1) (ntop4 A (sin_addr (sockaddr_in_cast addr)))))
      else if sin6_family addr = AF_INET6
      then check (INET6_ADDRSTRLEN \<le> sz) Assertion_failed
             (Inr (take (sz - 1) (ntop6 A (sin6_addr addr))))
      else Inr buf)"

definition toIpPort :: "inet_api \<Rightarrow> bool \<Rightarrow> nat \<Rightarrow> sockaddr_in6 \<Rightarrow> string \<Rightarrow> string res" where
  "toIpPort A le sz addr buf =
     rbind (toIp A sz addr buf) (\<lambda>buf.
       let end_pos = length buf;
           port = networkToHost16 le (sin_port (sockaddr_in_cast addr))
       in check (end_pos < sz) Assertion_failed
            (Inr (buf @ take (sz - end_pos - 1) ('':'' @ show_nat (unat port)))))"

definition fromIpPort :: "inet_api \<Rightarrow> bool \<Rightarrow> string \<Rightarrow> 16 word \<Rightarrow> sockaddr_in \<Rightarrow> sockaddr_in" where
  "fromIpPort A le ip port addr =
     (let addr = addr\<lparr>sin_family := AF_INET, sin_port := hostToNetwork16 le port\<rparr>
      in case pton4 A ip of None \<Rightarrow> addr | Some i \<Rightarrow> addr\<lparr>sin_addr := i\<rparr>)"

definition fromIpPort6 :: "inet_api \<Rightarrow> bool \<Rightarrow> string \<Rightarrow> 16 word \<Rightarrow> sockaddr_in6 \<Rightarrow> sockaddr_in6" where
  "fromIpPort6 A le ip port addr =
     (let addr = addr\<lparr>sin6_family := AF_INET6, sin6_port := hostToNetwork16 le port\<rparr>
      in case pton6 A ip of None \<Rightarrow> addr | Some i \<Rightarrow> addr\<lparr>sin6_addr := i\<rparr>)"

section \<open>System calls\<close>

text \<open>The counters of \<open>struct tcp_info\<close> that the sources print.\<close>

record tcp_info =
  tcpi_retransmits :: nat
  tcpi_rto :: "32 word"
  tcpi_ato :: "32 word"
  tcpi_snd_mss :: "32 word"
  tcpi_rcv_mss :: "32 word"
  tcpi_lost :: "32 word"
  tcpi_retrans :: "32 word"
  tcpi_rtt :: "32 word"
  tcpi_rttvar :: "32 word"
  tcpi_snd_ssthresh :: "32 word"
  tcpi_snd_cwnd :: "32 word"
  tcpi_total_retrans :: "32 word"

record os =
  os_socket :: "sysev list \<Rightarrow> nat \<Rightarrow> int"
  os_bind :: "sysev list \<Rightarrow> int \<Rightarrow> int"
  os_listen :: "sysev list \<Rightarrow> int \<Rightarrow> int"
  os_accept :: "sysev list \<Rightarrow> int \<Rightarrow> int \<times> errno \<times> sockaddr_in6"
  os_open :: "sysev list \<Rightarrow> int"
  os_write :: "sysev list \<Rightarrow> int \<Rightarrow> byte list \<Rightarrow> int \<times> errno"
  os_readv :: "sysev list \<Rightarrow> int \<Rightarrow> nat \<Rightarrow> byte list option \<times> errno"
  os_getsockopt :: "sysev list \<Rightarrow> int \<Rightarrow> int \<times> errno \<times> errno"
  os_getsockname :: "sysev list \<Rightarrow> int \<Rightarrow> sockaddr_in6 option"
  os_getpeername :: "sysev list \<Rightarrow> int \<Rightarrow> sockaddr_in6 option"
  os_connect :: "sysev list \<Rightarrow> int \<Rightarrow> sockaddr_in6 \<Rightarrow> int \<times> errno"
  os_read :: "sysev list \<Rightarrow> int \<Rightarrow> nat \<Rightarrow> byte list option \<times> errno"
  os_tcp_info :: "sysev list \<Rightarrow> int \<Rightarrow> tcp_info option"

text \<open>\<open>write(2)\<close> returns \<open>-1\<close> or the number of bytes it took; \<open>readv(2)\<close> fills at most the room
  it was given.\<close>

definition os_ok :: "os \<Rightarrow> bool" where
  "os_ok OS \<longleftrightarrow>
     (\<forall>h fd d. -1 \<le> fst (os_write OS h fd d) \<and> fst (os_write OS h fd d) \<le> int (length d)) \<and>
     (\<forall>h fd n d. fst (os_readv OS h fd n) = Some d \<longrightarrow> length d \<le> n)"

definition createNonblockingOrDie :: "os \<Rightarrow> nat \<Rightarrow> 'm world_scheme \<Rightarrow> (int \<times> 'm world_scheme) res" where
  "createNonblockingOrDie OS family w =
     (let sockfd = os_socket OS (sys w) family; w = log_sys (Ev_socket family) w
      in check (0 \<le> sockfd) Log_fatal (Inr (sockfd, w)))"

definition bindOrDie :: "os \<Rightarrow> int \<Rightarrow> 'm world_scheme \<Rightarrow> 'm world_scheme res" where
  "bindOrDie OS sockfd w =
     check (0 \<le> os_bind OS (sys w) sockfd) Log_fatal (Inr (log_sys (Ev_bind sockfd) w))"

definition listenOrDie :: "os \<Rightarrow> int \<Rightarrow> 'm world_scheme \<Rightarrow> 'm world_scheme res" where
  "listenOrDie OS sockfd w =
     check (0 \<le> os_listen OS (sys w) sockfd) Log_fatal (Inr (log_sys (Ev_listen sockfd) w))"

definition setNonBlockAndCloseOnExec :: "int \<Rightarrow> 'm world_scheme \<Rightarrow> 'm world_scheme" where
  "setNonBlockAndCloseOnExec sockfd w =
     log_sys (Ev_fcntl sockfd) (log_sys (Ev_fcntl sockfd)
       (log_sys (Ev_fcntl sockfd) (log_sys (Ev_fcntl sockfd) w)))"

definition expected_accept_error :: "errno \<Rightarrow> bool" where
  "expected_accept_error e \<longleftrightarrow> e \<in> {EAGAIN, ECONNABORTED, EINTR, EPROTO, EPERM, EMFILE}"

text \<open>\<open>accept\<close> gives the descriptor, \<open>errno\<close> and the address it filled in. Without \<open>accept4\<close>
  (\<open>no_accept4\<close>) the four calls of \<open>fcntl\<close> come between \<open>accept\<close> and the saving of \<open>errno\<close>;
  on the descriptor \<open>-1\<close> they fail with \<open>EBADF\<close>.\<close>

definition accept :: "os \<Rightarrow> bool \<Rightarrow> int \<Rightarrow> 'm world_scheme
    \<Rightarrow> (int \<times> errno \<times> sockaddr_in6 \<times> 'm world_scheme) res" where
  "accept OS no_accept4 sockfd w =
     (let (connfd, err, addr) = os_accept OS (sys w) sockfd;
          w = log_sys (Ev_accept sockfd) w;
          w = (if no_accept4 then setNonBlockAndCloseOnExec connfd w else w);
          savedErrno = (if no_accept4 \<and> connfd < 0 then EBADF else err)
      in if connfd < 0
         then check (expected_accept_error savedErrno) Log_fatal (Inr (connfd, savedErrno, addr, w))
         else Inr (connfd, err, addr, w))"

definition sockets_connect :: "os \<Rightarrow> int \<Rightarrow> sockaddr_in6 \<Rightarrow> 'm world_scheme \<Rightarrow> int \<times> errno \<times> 'm world_scheme" where
  "sockets_connect OS sockfd addr w =
     (let (ret, err) = os_connect OS (sys w) sockfd addr in (ret, err, log_sys (Ev_connect sockfd) w))"

definition sockets_read :: "os \<Rightarrow> int \<Rightarrow> nat \<Rightarrow> 'm world_scheme
    \<Rightarrow> byte list option \<times> errno \<times> 'm world_scheme" where
  "sockets_read OS sockfd count w =
     (let (d, err) = os_read OS (sys w) sockfd count in (d, err, log_sys (Ev_read sockfd) w))"

definition sockets_write :: "os \<Rightarrow> int \<Rightarrow> byte list \<Rightarrow> 'm world_scheme
    \<Rightarrow> int \<times> errno \<times> 'm world_scheme" where
  "sockets_write OS sockfd buf w =
     (let (n, err) = os_write OS (sys w) sockfd buf
      in (n, err, log_sys (Ev_write sockfd (take (nat n) buf)) w))"

definition sockets_readv :: "os \<Rightarrow> int \<Rightarrow> nat \<Rightarrow> 'm world_scheme
    \<Rightarrow> byte list option \<times> errno \<times> 'm world_scheme" where
  "sockets_readv OS sockfd room w =
     (let (d, err) = os_readv OS (sys w) sockfd room
      in (d, err, log_sys (Ev_readv sockfd (case d of None \<Rightarrow> [] | Some bs \<Rightarrow> bs)) w))"

definition sockets_close :: "int \<Rightarrow> 'm world_scheme \<Rightarrow> 'm world_scheme" where
  "sockets_close sockfd w = log_sys (Ev_close sockfd) w"

definition shutdownWrite :: "int \<Rightarrow> 'm world_scheme \<Rightarrow> 'm world_scheme" where
  "shutdownWrite sockfd w = log_sys (Ev_shutdown_write sockfd) w"

definition getSocketError :: "os \<Rightarrow> int \<Rightarrow> 'm world_scheme \<Rightarrow> errno \<times> 'm world_scheme" where
  "getSocketError OS sockfd w =
     (let (ret, err, optval) = os_getsockopt OS (sys w) sockfd
      in (if ret < 0 then err else optval, log_sys (Ev_getsockopt sockfd) w))"

definition getLocalAddr :: "os \<Rightarrow> int \<Rightarrow> 'm world_scheme \<Rightarrow> sockaddr_in6" where
  "getLocalAddr OS sockfd w =
     (case os_getsockname OS (sys w) sockfd of None \<Rightarrow> zero_addr | Some a \<Rightarrow> a)"

definition getPeerAddr :: "os \<Rightarrow> int \<Rightarrow> 'm world_scheme \<Rightarrow> sockaddr_in6" where
  "getPeerAddr OS sockfd w =
     (case os_getpeername OS (sys w) sockfd of None \<Rightarrow> zero_addr | Some a \<Rightarrow> a)"

definition isSelfConnect :: "os \<Rightarrow> int \<Rightarrow> 'm world_scheme \<Rightarrow> bool" where
  "isSelfConnect OS sockfd w =
     (let localaddr = getLocalAddr OS sockfd w; peeraddr = getPeerAddr OS sockfd w in
      if sin6_family localaddr = AF_INET
      then (let laddr4 = sockaddr_in_cast localaddr; raddr4 = sockaddr_in_cast peeraddr
            in sin_port laddr4 = sin_port raddr4 \<and> sin_addr laddr4 = sin_addr raddr4)
      else if sin6_family localaddr = AF_INET6
      then sin6_port localaddr = sin6_port peeraddr \<and> sin6_addr localaddr = sin6_addr peeraddr
      else False)"

section \<open>Socket\<close>

definition bindAddress :: "os \<Rightarrow> int \<Rightarrow> 'm world_scheme \<Rightarrow> 'm world_scheme res" where
  "bindAddress OS sockfd w = bindOrDie OS sockfd w"

definition socket_listen :: "os \<Rightarrow> int \<Rightarrow> 'm world_scheme \<Rightarrow> 'm world_scheme res" where
  "socket_listen OS sockfd w = listenOrDie OS sockfd w"

definition socket_shutdownWrite :: "int \<Rightarrow> 'm world_scheme \<Rightarrow> 'm world_scheme" where
  "socket_shutdownWrite sockfd w = shutdownWrite sockfd w"

declare bindAddress_def [simp] socket_listen_def [simp] socket_shutdownWrite_def [simp]

definition setTcpNoDelay :: "int \<Rightarrow> bool \<Rightarrow> 'm world_scheme \<Rightarrow> 'm world_scheme" where
  "setTcpNoDelay sockfd on w = log_sys (Ev_setsockopt sockfd ''TCP_NODELAY'' on) w"

definition setReuseAddr :: "int \<Rightarrow> bool \<Rightarrow> 'm world_scheme \<Rightarrow> 'm world_scheme" where
  "setReuseAddr sockfd on w = log_sys (Ev_setsockopt sockfd ''SO_REUSEADDR'' on) w"

text \<open>\<open>has_reuseport\<close> is whether \<open>SO_REUSEPORT\<close> is defined at compile time.\<close>

definition setReusePort :: "bool \<Rightarrow> int \<Rightarrow> bool \<Rightarrow> 'm world_scheme \<Rightarrow> 'm world_scheme" where
  "setReusePort has_reuseport sockfd on w =
     (if has_reuseport then log_sys (Ev_setsockopt sockfd ''SO_REUSEPORT'' on) w else w)"

definition setKeepAlive :: "int \<Rightarrow> bool \<Rightarrow> 'm world_scheme \<Rightarrow> 'm world_scheme" where
  "setKeepAlive sockfd on w = log_sys (Ev_setsockopt sockfd ''SO_KEEPALIVE'' on) w"

text \<open>\<open>Socket::accept\<close>: the peer's address is assigned only when the call succeeded.\<close>

definition socket_accept :: "os \<Rightarrow> bool \<Rightarrow> int \<Rightarrow> sockaddr_in6 \<Rightarrow> 'm world_scheme
    \<Rightarrow> (int \<times> errno \<times> sockaddr_in6 \<times> 'm world_scheme) res" where
  "socket_accept OS no_accept4 sockfd peeraddr w =
     rbind (accept OS no_accept4 sockfd w) (\<lambda>(connfd, err, addr, w).
       Inr (connfd, err, if 0 \<le> connfd then addr else peeraddr, w))"

definition destroy_socket :: "int \<Rightarrow> 'm world_scheme \<Rightarrow> 'm world_scheme" where
  "destroy_socket sockfd w = sockets_close sockfd w"

definition tcp_info_fields :: "tcp_info \<Rightarrow> (string \<times> nat) list" where
  "tcp_info_fields t =
     [(''unrecovered='', tcpi_retransmits t), ('' rto='', unat (tcpi_rto t)),
      ('' ato='', unat (tcpi_ato t)), ('' snd_mss='', unat (tcpi_snd_mss t)),
      ('' rcv_mss='', unat (tcpi_rcv_mss t)), ('' lost='', unat (tcpi_lost t)),
      ('' retrans='', unat (tcpi_retrans t)), ('' rtt='', unat (tcpi_rtt t)),
      ('' rttvar='', unat (tcpi_rttvar t)), ('' sshthresh='', unat (tcpi_snd_ssthresh t)),
      ('' cwnd='', unat (tcpi_snd_cwnd t)), ('' total_retrans='', unat (tcpi_total_retrans t))]"

definition zero_tcp_info :: tcp_info where
  "zero_tcp_info = \<lparr>tcpi_retransmits = 0, tcpi_rto = 0, tcpi_ato = 0, tcpi_snd_mss = 0, tcpi_rcv_mss = 0,
     tcpi_lost = 0, tcpi_retrans = 0, tcpi_rtt = 0, tcpi_rttvar = 0, tcpi_snd_ssthresh = 0, tcpi_snd_cwnd = 0,
     tcpi_total_retrans = 0\<rparr>"

text \<open>The counters are zeroed before the kernel is asked.\<close>

definition getTcpInfo :: "os \<Rightarrow> int \<Rightarrow> 'm world_scheme \<Rightarrow> bool \<times> tcp_info" where
  "getTcpInfo OS sockfd w =
     (case os_tcp_info OS (sys w) sockfd of None \<Rightarrow> (False, zero_tcp_info) | Some tcpi \<Rightarrow> (True, tcpi))"

definition getTcpInfoString :: "os \<Rightarrow> int \<Rightarrow> nat \<Rightarrow> string \<Rightarrow> 'm world_scheme \<Rightarrow> string \<times> bool" where
  "getTcpInfoString OS sockfd len buf w =
     (let (ok, t) = getTcpInfo OS sockfd w
      in (if ok then take (len - 1) (concat (map (\<lambda>(s, n). s @ show_nat n) (tcp_info_fields t))) else buf, ok))"

section \<open>Lemmas on byte order\<close>

lemma length_bytes_of [simp]: "length (bytes_of n x) = n"
  by (induction n arbitrary: x) simp_all

lemma bit_of_bytes: "bit (of_bytes bs :: 'a::len word) i \<Longrightarrow> i < 8 * length bs"
proof (induction bs arbitrary: i)
  case (Cons b bs)
  show ?case
  proof (cases "i < 8")
    case False
    then have "bit (of_bytes bs :: 'a word) (i - 8)"
      using Cons.prems by (auto simp: bit_or_iff bit_push_bit_iff bit_ucast_iff dest: bit_imp_le_length)
    from Cons.IH [OF this] False show ?thesis by simp
  qed simp
qed simp

lemma bytes_of_of_bytes:
  "8 * length bs \<le> LENGTH('a) \<Longrightarrow> bytes_of (length bs) (of_bytes bs :: 'a::len word) = bs"
proof (induction bs)
  case (Cons b bs)
  let ?r = "of_bytes bs :: 'a word"
  have lo: "ucast (ucast b OR push_bit 8 ?r) = b"
    using Cons.prems by (intro bit_word_eqI) (auto simp: bit_simps)
  have hi: "drop_bit 8 (ucast b OR push_bit 8 ?r) = ?r"
    using Cons.prems
    by (intro bit_word_eqI) (auto simp: bit_simps dest: bit_imp_le_length bit_of_bytes)
  show ?case using Cons by (simp add: lo hi del: drop_bit_or)
qed simp

lemma of_bytes_bytes_of:
  "(\<And>i. bit x i \<Longrightarrow> i < 8 * n) \<Longrightarrow> of_bytes (bytes_of n x) = (x :: 'a::len word)"
proof (induction n arbitrary: x)
  case 0
  then show ?case by (intro bit_word_eqI) auto
next
  case (Suc n)
  have "of_bytes (bytes_of n (drop_bit 8 x)) = drop_bit 8 x"
    by (rule Suc.IH) (auto simp: bit_simps dest: Suc.prems)
  then have "bit (of_bytes (bytes_of (Suc n) x) :: 'a word) k = bit x k" if "k < LENGTH('a)" for k
    using that by (cases "k < 8") (auto simp: bit_simps)
  then show ?case by (rule bit_word_eqI)
qed

lemma bytes_of_bswap:
  "LENGTH('a) = 8 * n \<Longrightarrow> bytes_of n (bswap n (x :: 'a::len word)) = rev (bytes_of n x)"
  using bytes_of_of_bytes [where 'a = 'a, of "rev (bytes_of n x)"] by (simp add: bswap_def)

lemma bswap_bswap: "LENGTH('a) = 8 * n \<Longrightarrow> bswap n (bswap n (x :: 'a::len word)) = x"
  using of_bytes_bytes_of [of x n] bytes_of_bswap [of n x] bit_imp_le_length [of x]
  unfolding bswap_def by (metis rev_rev_ident)

section \<open>Properties\<close>

text \<open>On either host byte order, the value that \<open>hostToNetwork16\<close>, \<open>hostToNetwork32\<close> and
  \<open>hostToNetwork64\<close> return lies in memory with its most significant byte first, and
  \<open>networkToHost\<close> of the same width gives the host's value back.\<close>

lemma network_byte_order:
  "memory le 2 (hostToNetwork16 le x) = rev (bytes_of 2 x) \<and>
   memory le 4 (hostToNetwork32 le y) = rev (bytes_of 4 y) \<and>
   memory le 8 (hostToNetwork64 le z) = rev (bytes_of 8 z) \<and>
   networkToHost16 le (hostToNetwork16 le x) = x \<and>
   networkToHost32 le (hostToNetwork32 le y) = y \<and>
   networkToHost64 le (hostToNetwork64 le z) = z"
proof (cases le)
  case True
  then show ?thesis
    by (simp add: memory_def hostToNetwork16_def hostToNetwork32_def hostToNetwork64_def
        networkToHost16_def networkToHost32_def networkToHost64_def bytes_of_bswap bswap_bswap
        del: bytes_of.simps)
next
  case False
  then show ?thesis
    by (simp add: memory_def hostToNetwork16_def hostToNetwork32_def hostToNetwork64_def
        networkToHost16_def networkToHost32_def networkToHost64_def)
qed


definition loopback_api :: inet_api where
  "loopback_api = \<lparr>ntop4 = (\<lambda>_. ''0.0.0.0''), ntop6 = (\<lambda>_. ''::1''),
     pton4 = (\<lambda>_. None), pton6 = (\<lambda>s. if s = ''::1'' then Some (replicate 15 0 @ [1]) else None)\<rparr>"


text \<open>With \<open>accept4\<close>, \<open>sockets::accept\<close> returns \<open>-1\<close> exactly for the transient errors of its
  first list, with \<open>errno\<close> kept for the caller; every other error ends the process; a
  successful call is passed on unchanged. \<open>Socket::accept\<close> then leaves the caller's address
  untouched when it returns \<open>-1\<close>.\<close>

lemma accept_errors:
  assumes "os_accept OS (sys w) fd = (connfd, err, addr)"
  shows "socket_accept OS False fd peer w =
    (if 0 \<le> connfd then Inr (connfd, err, addr, log_sys (Ev_accept fd) w)
     else if err \<in> {EAGAIN, ECONNABORTED, EINTR, EPROTO, EPERM, EMFILE}
     then Inr (connfd, err, peer, log_sys (Ev_accept fd) w)
     else Inl Log_fatal)"
  using assms by (auto simp: socket_accept_def accept_def expected_accept_error_def check_def)

definition sample_tcp_info :: tcp_info where
  "sample_tcp_info = \<lparr>tcpi_retransmits = 1, tcpi_rto = 2, tcpi_ato = 3, tcpi_snd_mss = 4,
      tcpi_rcv_mss = 5, tcpi_lost = 6, tcpi_retrans = 7, tcpi_rtt = 8, tcpi_rttvar = 9,
      tcpi_snd_ssthresh = 10, tcpi_snd_cwnd = 11, tcpi_total_retrans = 12\<rparr>"

definition sample_os :: os where
  "sample_os = \<lparr>os_socket = (\<lambda>_ _. 3), os_bind = (\<lambda>_ _. 0), os_listen = (\<lambda>_ _. 0),
     os_accept = (\<lambda>_ _. (-1, EMFILE, zero_addr)), os_open = (\<lambda>_. 4),
     os_write = (\<lambda>_ _ d. (int (length d) - 1, EAGAIN)),
     os_readv = (\<lambda>_ _ n. (Some (replicate (min n 3) 7), EAGAIN)),
     os_getsockopt = (\<lambda>_ _. (0, EAGAIN, EPIPE)),
     os_getsockname = (\<lambda>_ _. None), os_getpeername = (\<lambda>_ _. None),
     os_connect = (\<lambda>_ _ _. (0, EAGAIN)), os_read = (\<lambda>_ _ n. (Some (replicate (min n 3) 7), EAGAIN)),
     os_tcp_info = (\<lambda>_ _. Some sample_tcp_info)\<rparr>"

lemma sample_os_ok: "os_ok sample_os"
  by (auto simp: os_ok_def sample_os_def)

definition blank_world :: world where
  "blank_world = \<lparr>loops = (\<lambda>_. fresh_event_loop 7), chans = (\<lambda>_. new_channel 0 9),
     threadLoop = (\<lambda>_. None), live = (\<lambda>_. True), sys = []\<rparr>"

lemma accept_errors_witness:
  "socket_accept sample_os False 5 zero_addr blank_world =
    Inr (-1, EMFILE, zero_addr, log_sys (Ev_accept 5) blank_world)"
  using accept_errors [of sample_os blank_world 5 "-1" EMFILE zero_addr zero_addr]
  by (simp add: sample_os_def)



text \<open>The buffer of 1024 bytes that \<open>TcpConnection::getTcpInfoString\<close> passes is large enough:
  the line is never cut, whatever the counters.\<close>

lemma tcp_info_string_complete:
  assumes "os_tcp_info OS (sys w) fd = Some t" and "tcpi_retransmits t < 256"
  shows "fst (getTcpInfoString OS fd 1024 buf w) =
    concat (map (\<lambda>(s, n). s @ show_nat n) (tcp_info_fields t))"
proof -
  have w: "length (show_nat (unat x)) \<le> 10" for x :: "32 word"
  proof -
    have "unat x < 2 ^ LENGTH(32)" by (rule unsigned_less)
    then show ?thesis by (intro show_nat_length) simp_all
  qed
  have "length (show_nat (tcpi_retransmits t)) \<le> 3"
    using assms(2) by (intro show_nat_length) simp_all
  then have "length (concat (map (\<lambda>(s, n). s @ show_nat n) (tcp_info_fields t))) \<le> 1023"
    using w [of "tcpi_rto t"] w [of "tcpi_ato t"] w [of "tcpi_snd_mss t"] w [of "tcpi_rcv_mss t"]
      w [of "tcpi_lost t"] w [of "tcpi_retrans t"] w [of "tcpi_rtt t"] w [of "tcpi_rttvar t"]
      w [of "tcpi_snd_ssthresh t"] w [of "tcpi_snd_cwnd t"] w [of "tcpi_total_retrans t"]
    by (simp add: tcp_info_fields_def)
  then show ?thesis using assms(1) by (simp add: getTcpInfoString_def getTcpInfo_def)
qed

lemma tcp_info_string_complete_witness:
  "fst (getTcpInfoString sample_os 5 1024 [] blank_world) =
   ''unrecovered=1 rto=2 ato=3 snd_mss=4 rcv_mss=5 lost=6 retrans=7 rtt=8 rttvar=9 sshthresh=10 cwnd=11 total_retrans=12''"
  using tcp_info_string_complete [of sample_os blank_world 5 sample_tcp_info "[]"]
  by (simp add: sample_os_def sample_tcp_info_def tcp_info_fields_def show_nat.simps)

end
