(* ===== verification/Net_Buffer.thy ===== *)
theory Net_Buffer
  imports Net_Sockets
begin

text \<open>
  \<open>Buffer::readFd\<close> (\<open>Buffer.h\<close>, \<open>Buffer.cc\<close>).

  The class itself is not part of the sources: \<open>Buffer.h\<close> repeats \<open>Buffer.cc\<close>. A buffer has
  the members that \<open>readFd\<close> names, \<open>buffer_\<close> and \<open>writerIndex_\<close>, and the rest of the object,
  \<open>bf_rest\<close>. The other methods are the argument \<open>B\<close>, with \<open>bo_readable\<close> for the bytes between
  \<open>peek()\<close> and \<open>beginWrite()\<close>; \<open>buffer_ok\<close> says that they are those of a queue of bytes.
\<close>

record 'r Buffer =
  bf_buffer :: "byte list"
  bf_writerIndex :: nat
  bf_rest :: 'r

record 'r buffer_ops =
  bo_wf :: "'r Buffer \<Rightarrow> bool"
  bo_new :: "'r Buffer"
  bo_writableBytes :: "'r Buffer \<Rightarrow> nat"
  bo_readable :: "'r Buffer \<Rightarrow> byte list"
  bo_append :: "byte list \<Rightarrow> 'r Buffer \<Rightarrow> 'r Buffer"
  bo_retrieve :: "nat \<Rightarrow> 'r Buffer \<Rightarrow> 'r Buffer"
  bo_retrieveAll :: "'r Buffer \<Rightarrow> 'r Buffer"

text \<open>A store of bytes into the vector, from index \<open>i\<close> on.\<close>

definition store_at :: "nat \<Rightarrow> byte list \<Rightarrow> byte list \<Rightarrow> byte list" where
  "store_at i xs buf = take i buf @ xs @ drop (i + length xs) buf"

definition buffer_ok :: "'r buffer_ops \<Rightarrow> bool" where
  "buffer_ok B \<longleftrightarrow>
     bo_wf B (bo_new B) \<and> bo_readable B (bo_new B) = [] \<and>
     (\<forall>b. bo_wf B b \<longrightarrow> bf_writerIndex b + bo_writableBytes B b = length (bf_buffer b)) \<and>
     (\<forall>b xs. bo_wf B b \<longrightarrow> length xs \<le> bo_writableBytes B b \<longrightarrow>
        (let b' = b\<lparr>bf_buffer := store_at (bf_writerIndex b) xs (bf_buffer b),
                    bf_writerIndex := bf_writerIndex b + length xs\<rparr>
         in bo_wf B b' \<and> bo_readable B b' = bo_readable B b @ xs)) \<and>
     (\<forall>b xs. bo_wf B b \<longrightarrow>
        bo_wf B (bo_append B xs b) \<and> bo_readable B (bo_append B xs b) = bo_readable B b @ xs) \<and>
     (\<forall>b n. bo_wf B b \<longrightarrow> n \<le> length (bo_readable B b) \<longrightarrow>
        bo_wf B (bo_retrieve B n b) \<and> bo_readable B (bo_retrieve B n b) = drop n (bo_readable B b)) \<and>
     (\<forall>b. bo_wf B b \<longrightarrow>
        bo_wf B (bo_retrieveAll B b) \<and> bo_readable B (bo_retrieveAll B b) = [])"

definition extrabuf_size :: nat where
  "extrabuf_size = 65536"

text \<open>The room in the one or two buffers passed to \<open>readv\<close>.\<close>

definition iov_room :: "nat \<Rightarrow> nat" where
  "iov_room writable =
     (let iovcnt = (if writable < extrabuf_size then 2 else 1 :: nat)
      in if iovcnt = 2 then writable + extrabuf_size else writable)"

text \<open>The result is the return value, the saved \<open>errno\<close>, the buffer and the world. \<open>readv\<close>
  fills the free part of the vector first and then \<open>extrabuf\<close>.\<close>

definition readFd :: "os \<Rightarrow> 'r buffer_ops \<Rightarrow> int \<Rightarrow> 'r Buffer \<Rightarrow> 'm world_scheme
    \<Rightarrow> int \<times> errno option \<times> 'r Buffer \<times> 'm world_scheme" where
  "readFd OS B fd b w =
     (let writable = bo_writableBytes B b;
          (d, err, w) = sockets_readv OS fd (iov_room writable) w
      in case d of
           None \<Rightarrow> (-1, Some err, b, w)
         | Some bs \<Rightarrow>
            (let n = length bs;
                 b = b\<lparr>bf_buffer := store_at (bf_writerIndex b) (take writable bs) (bf_buffer b)\<rparr>
             in if n \<le> writable
                then (int n, None, b\<lparr>bf_writerIndex := bf_writerIndex b + n\<rparr>, w)
                else (int n, None,
                      bo_append B (drop writable bs) (b\<lparr>bf_writerIndex := length (bf_buffer b)\<rparr>), w)))"

section \<open>Lemmas\<close>

lemma buffer_okD:
  assumes "buffer_ok B" and "bo_wf B b"
  shows "bf_writerIndex b + bo_writableBytes B b = length (bf_buffer b)"
    and "bo_wf B (bo_append B xs b)" and "bo_readable B (bo_append B xs b) = bo_readable B b @ xs"
    and "n \<le> length (bo_readable B b) \<Longrightarrow> bo_wf B (bo_retrieve B n b)"
    and "n \<le> length (bo_readable B b) \<Longrightarrow> bo_readable B (bo_retrieve B n b) = drop n (bo_readable B b)"
    and "bo_wf B (bo_retrieveAll B b)" and "bo_readable B (bo_retrieveAll B b) = []"
  using assms by (simp_all add: buffer_ok_def)

lemma buffer_ok_new: "buffer_ok B \<Longrightarrow> bo_wf B (bo_new B)" "buffer_ok B \<Longrightarrow> bo_readable B (bo_new B) = []"
  by (simp_all add: buffer_ok_def)

lemma buffer_fill:
  assumes "buffer_ok B" and "bo_wf B b" and "length xs \<le> bo_writableBytes B b"
    and "b' = b\<lparr>bf_buffer := store_at (bf_writerIndex b) xs (bf_buffer b),
           bf_writerIndex := bf_writerIndex b + length xs\<rparr>"
  shows "bo_wf B b'" and "bo_readable B b' = bo_readable B b @ xs"
  using assms by (simp_all add: buffer_ok_def Let_def)

lemma os_okD:
  assumes "os_ok OS"
  shows "os_write OS h fd d = (n, e) \<Longrightarrow> -1 \<le> n \<and> n \<le> int (length d)"
    and "os_readv OS h fd k = (Some d, e) \<Longrightarrow> length d \<le> k"
  using assms unfolding os_ok_def by (metis fst_conv)+

lemma readFd_cases:
  assumes "buffer_ok B" and "os_ok OS" and "bo_wf B b" and "readFd OS B fd b w = (n, e, b', w')"
  obtains (fail) "n = -1" "b' = b" "w' = log_sys (Ev_readv fd []) w"
  | (read) d where "n = int (length d)" "bo_wf B b'" "bo_readable B b' = bo_readable B b @ d"
      "w' = log_sys (Ev_readv fd d) w" "length d \<le> max (bo_writableBytes B b) 131071"
proof -
  let ?wr = "bo_writableBytes B b"
  obtain d err where o: "os_readv OS (sys w) fd (iov_room ?wr) = (d, err)" by fastforce
  show thesis
  proof (cases d)
    case None
    then show thesis using assms(4) o fail by (simp add: readFd_def sockets_readv_def Let_def)
  next
    case (Some bs)
    have len: "length bs \<le> iov_room ?wr" using os_okD(2) [OF assms(2)] o Some by blast
    then have bd: "length bs \<le> max ?wr 131071" by (auto simp: iov_room_def extrabuf_size_def split: if_splits)
    let ?b = "b\<lparr>bf_buffer := store_at (bf_writerIndex b) (take ?wr bs) (bf_buffer b)\<rparr>"
    have k: "length (take ?wr bs) \<le> ?wr" by simp
    note f = buffer_fill [OF assms(1,3) k refl]
    have sz: "bf_writerIndex b + ?wr = length (bf_buffer b)" by (rule buffer_okD(1) [OF assms(1,3)])
    have st: "length (store_at (bf_writerIndex b) (take ?wr bs) (bf_buffer b)) = length (bf_buffer b)"
      using sz by (simp add: store_at_def)
    show thesis
    proof (cases "length bs \<le> ?wr")
      case True
      then have "n = int (length bs)" "b' = ?b\<lparr>bf_writerIndex := bf_writerIndex b + length (take ?wr bs)\<rparr>"
        "w' = log_sys (Ev_readv fd bs) w"
        using assms(4) o Some by (simp_all add: readFd_def sockets_readv_def Let_def split: if_splits)
      then show thesis using read f bd True by simp
    next
      case False
      let ?c = "?b\<lparr>bf_writerIndex := bf_writerIndex b + length (take ?wr bs)\<rparr>"
      have "n = int (length bs)" "b' = bo_append B (drop ?wr bs) ?c" "w' = log_sys (Ev_readv fd bs) w"
        using assms(4) o Some False sz st
        by (simp_all add: readFd_def sockets_readv_def Let_def split: if_splits)
      then show thesis
        using read buffer_okD(2,3) [OF assms(1) f(1), of "drop ?wr bs"] f(2) bd by simp
    qed
  qed
qed

section \<open>Properties\<close>

text \<open>C34. \<open>readFd\<close> appends to the readable bytes exactly the bytes that \<open>readv\<close> delivered, in
  order, whether or not they fit into the free part of the vector; the return value is their
  number, at most 128k-1 when \<open>extrabuf\<close> is used; when \<open>readv\<close> fails the buffer is unchanged
  and \<open>errno\<close> is saved.\<close>

theorem readFd_appends:
  assumes "buffer_ok B" and "os_ok OS" and "bo_wf B b" and "readFd OS B fd b w = (n, e, b', w')"
  shows "bo_wf B b' \<and> (\<exists>d. sys w' = sys w @ [Ev_readv fd d] \<and> bo_readable B b' = bo_readable B b @ d
    \<and> (if n < 0 then d = [] \<and> b' = b else n = int (length d))
    \<and> (bo_writableBytes B b < 65536 \<longrightarrow> n \<le> 131071))"
  using assms(1-4)
proof (cases rule: readFd_cases)
  case fail
  then show ?thesis using assms(3) by simp
next
  case (read d)
  then show ?thesis by auto
qed

text \<open>A vector with a reader index, as an instance of the argument.\<close>

definition vector_ops :: "nat buffer_ops" where
  "vector_ops =
     \<lparr>bo_wf = (\<lambda>b. bf_rest b \<le> bf_writerIndex b \<and> bf_writerIndex b \<le> length (bf_buffer b)),
      bo_new = \<lparr>bf_buffer = replicate 4 0, bf_writerIndex = 2, bf_rest = 2\<rparr>,
      bo_writableBytes = (\<lambda>b. length (bf_buffer b) - bf_writerIndex b),
      bo_readable = (\<lambda>b. drop (bf_rest b) (take (bf_writerIndex b) (bf_buffer b))),
      bo_append = (\<lambda>xs b. b\<lparr>bf_buffer := store_at (bf_writerIndex b) xs (bf_buffer b),
                            bf_writerIndex := bf_writerIndex b + length xs\<rparr>),
      bo_retrieve = (\<lambda>n b. b\<lparr>bf_rest := bf_rest b + n\<rparr>),
      bo_retrieveAll = (\<lambda>b. b\<lparr>bf_rest := bf_writerIndex b\<rparr>)\<rparr>"

lemma vector_ops_ok: "buffer_ok vector_ops"
  by (auto simp: buffer_ok_def vector_ops_def store_at_def Let_def min_def add.commute)

theorem readFd_appends_witness:
  "\<exists>e b' w'. readFd sample_os vector_ops 5 (bo_new vector_ops) blank_world = (3, e, b', w')
    \<and> bo_readable vector_ops b' = [7, 7, 7]"
proof -
  obtain n e b' w' where r: "readFd sample_os vector_ops 5 (bo_new vector_ops) blank_world = (n, e, b', w')"
    by (cases "readFd sample_os vector_ops 5 (bo_new vector_ops) blank_world") auto
  have "replicate 3 7 = [7, 7, 7 :: byte]" by (simp add: numeral_eq_Suc)
  then have "sockets_readv sample_os 5 (iov_room 2) blank_world =
      (Some [7, 7, 7], EAGAIN, log_sys (Ev_readv 5 [7, 7, 7]) blank_world)"
    by (simp add: sockets_readv_def sample_os_def iov_room_def extrabuf_size_def)
  moreover have "bo_writableBytes vector_ops (bo_new vector_ops) = 2" by (simp add: vector_ops_def)
  ultimately have "n = 3" "sys w' = [Ev_readv 5 [7, 7, 7]]"
    using r by (auto simp: readFd_def blank_world_def)
  with readFd_appends [OF vector_ops_ok sample_os_ok buffer_ok_new(1) [OF vector_ops_ok] r] r
  show ?thesis by (auto simp: blank_world_def buffer_ok_new(2) [OF vector_ops_ok])
qed

end
