(* ===== verification/Tcp_Connection.thy ===== *)
theory Tcp_Connection
  imports Net_Buffer Timer_Queue
begin

text \<open>
  The class \<open>TcpConnection\<close> (\<open>TcpConnection.h\<close>, \<open>TcpConnection.cc\<close>).

  The connections are objects of the world, \<open>conns\<close>, addressed by numbers; a connection is alive
  while \<open>live\<close> says so. The argument \<open>E\<close> is the environment: the kernel, the poller, the
  methods of \<open>Buffer\<close>, the allocator and \<open>Timestamp\<close>, and what the user's callbacks and the
  close callback do. A call of a callback is recorded in \<open>sys\<close>.

  Lengths are natural numbers; the one subtraction of \<open>size_t\<close> that could wrap around,
  \<open>len - nwrote\<close>, is written with the wrap-around.
\<close>

section \<open>State\<close>

datatype StateE = kDisconnected | kConnecting | kConnected | kDisconnecting

datatype connection_cb = CB_defaultConnection | CB_userConnection nat
datatype message_cb = CB_defaultMessage | CB_userMessage nat

record 'r conn =
  co_loop :: nat
  co_name :: string
  co_state :: StateE
  co_reading :: bool
  co_socket :: int
  co_channel :: nat
  co_localAddr :: sockaddr_in6
  co_peerAddr :: sockaddr_in6
  co_connectionCallback :: "connection_cb option"
  co_messageCallback :: "message_cb option"
  co_writeCompleteCallback :: "nat option"
  co_highWaterMarkCallback :: "nat option"
  co_closeCallback :: "nat option"
  co_highWaterMark :: nat
  co_inputBuffer :: "'r Buffer"
  co_outputBuffer :: "'r Buffer"
  co_context :: "nat option"

record 'r cworld = tworld +
  conns :: "nat \<Rightarrow> 'r conn"

record ('r, 'w) cenv =
  en_os :: os
  en_poller :: poller_ops
  en_buffer :: "'r buffer_ops"
  en_ts :: ts_api
  en_alloc :: "(addr \<Rightarrow> timer option) \<Rightarrow> addr option"
  en_user :: "nat \<Rightarrow> nat \<Rightarrow> 'w \<Rightarrow> 'w res"
  en_close :: "nat \<Rightarrow> nat \<Rightarrow> 'w \<Rightarrow> 'w res"

definition upd_conn :: "nat \<Rightarrow> ('r conn \<Rightarrow> 'r conn) \<Rightarrow> ('r, 'm) cworld_scheme \<Rightarrow> ('r, 'm) cworld_scheme" where
  "upd_conn c f w = w\<lparr>conns := (conns w)(c := f (conns w c))\<rparr>"

definition setState :: "nat \<Rightarrow> StateE \<Rightarrow> ('r, 'm) cworld_scheme \<Rightarrow> ('r, 'm) cworld_scheme" where
  "setState c s = upd_conn c (\<lambda>co. co\<lparr>co_state := s\<rparr>)"

definition connected :: "'r conn \<Rightarrow> bool" where
  "connected co \<longleftrightarrow> co_state co = kConnected"

definition disconnected :: "'r conn \<Rightarrow> bool" where
  "disconnected co \<longleftrightarrow> co_state co = kDisconnected"

definition stateToString :: "'r conn \<Rightarrow> string" where
  "stateToString co =
     (case co_state co of
        kDisconnected \<Rightarrow> ''kDisconnected''
      | kConnecting \<Rightarrow> ''kConnecting''
      | kConnected \<Rightarrow> ''kConnected''
      | kDisconnecting \<Rightarrow> ''kDisconnecting'')"

abbreviation conn_chan :: "nat \<Rightarrow> ('r, 'm) cworld_scheme \<Rightarrow> channel" where
  "conn_chan c w \<equiv> chans w (co_channel (conns w c))"

abbreviation outgoing :: "('r, 'w) cenv \<Rightarrow> nat \<Rightarrow> ('r, 'm) cworld_scheme \<Rightarrow> byte list" where
  "outgoing E c w \<equiv> bo_readable (en_buffer E) (co_outputBuffer (conns w c))"

section \<open>Callbacks\<close>

definition defaultConnectionCallback :: "nat \<Rightarrow> ('r, 'm) cworld_scheme \<Rightarrow> ('r, 'm) cworld_scheme" where
  "defaultConnectionCallback c w = w"

definition defaultMessageCallback :: "'r buffer_ops \<Rightarrow> nat \<Rightarrow> ('r, 'm) cworld_scheme \<Rightarrow> ('r, 'm) cworld_scheme" where
  "defaultMessageCallback B c w =
     upd_conn c (\<lambda>co. co\<lparr>co_inputBuffer := bo_retrieveAll B (co_inputBuffer co)\<rparr>) w"

definition connectionCallback :: "('r, ('r, 'm) cworld_scheme) cenv \<Rightarrow> nat \<Rightarrow> ('r, 'm) cworld_scheme
    \<Rightarrow> ('r, 'm) cworld_scheme res" where
  "connectionCallback E c w =
     (let cb = co_connectionCallback (conns w c);
          w = log_sys (Ev_connection c (connected (conns w c))) w
      in case cb of
           None \<Rightarrow> Inl Bad_function_call
         | Some CB_defaultConnection \<Rightarrow> Inr (defaultConnectionCallback c w)
         | Some (CB_userConnection i) \<Rightarrow> en_user E i c w)"

definition messageCallback :: "('r, ('r, 'm) cworld_scheme) cenv \<Rightarrow> nat \<Rightarrow> ('r, 'm) cworld_scheme
    \<Rightarrow> ('r, 'm) cworld_scheme res" where
  "messageCallback E c w =
     (let cb = co_messageCallback (conns w c); w = log_sys (Ev_message c) w
      in case cb of
           None \<Rightarrow> Inl Bad_function_call
         | Some CB_defaultMessage \<Rightarrow> Inr (defaultMessageCallback (en_buffer E) c w)
         | Some (CB_userMessage i) \<Rightarrow> en_user E i c w)"

definition closeCallback :: "('r, ('r, 'm) cworld_scheme) cenv \<Rightarrow> nat \<Rightarrow> ('r, 'm) cworld_scheme
    \<Rightarrow> ('r, 'm) cworld_scheme res" where
  "closeCallback E c w =
     (case co_closeCallback (conns w c) of None \<Rightarrow> Inl Bad_function_call | Some s \<Rightarrow> en_close E s c w)"

section \<open>Construction and destruction\<close>

definition new_connection :: "('r, 'w) cenv \<Rightarrow> nat \<Rightarrow> nat \<Rightarrow> nat \<Rightarrow> string \<Rightarrow> int \<Rightarrow> sockaddr_in6 \<Rightarrow> sockaddr_in6
    \<Rightarrow> ('r, 'm) cworld_scheme \<Rightarrow> ('r, 'm) cworld_scheme" where
  "new_connection E c ch l nameArg sockfd localAddr peerAddr w =
     (let w = upd_conn c (\<lambda>_. \<lparr>co_loop = l, co_name = nameArg, co_state = kConnecting,
            co_reading = True, co_socket = sockfd, co_channel = ch, co_localAddr = localAddr,
            co_peerAddr = peerAddr, co_connectionCallback = None, co_messageCallback = None,
            co_writeCompleteCallback = None, co_highWaterMarkCallback = None,
            co_closeCallback = None, co_highWaterMark = 64 * 1024 * 1024,
            co_inputBuffer = bo_new (en_buffer E), co_outputBuffer = bo_new (en_buffer E),
            co_context = None\<rparr>) w;
          w = upd_chan ch (\<lambda>_. (new_channel l sockfd)
            \<lparr>ch_readCallback := Some (Cb_conn_handleRead c),
             ch_writeCallback := Some (Cb_conn_handleWrite c),
             ch_closeCallback := Some (Cb_conn_handleClose c),
             ch_errorCallback := Some (Cb_conn_handleError c)\<rparr>) w
      in setKeepAlive sockfd True w)"

definition destroy_connection :: "nat \<Rightarrow> nat \<Rightarrow> ('r, 'm) cworld_scheme \<Rightarrow> ('r, 'm) cworld_scheme res" where
  "destroy_connection tid c w =
     check (co_state (conns w c) = kDisconnected) Assertion_failed
      (rbind (destroy_channel tid (co_channel (conns w c)) w) (\<lambda>_.
         Inr (destroy_socket (co_socket (conns w c)) (w\<lparr>live := (live w)(c := False)\<rparr>))))"

definition conn_getTcpInfo :: "('r, 'w) cenv \<Rightarrow> nat \<Rightarrow> ('r, 'm) cworld_scheme \<Rightarrow> bool \<times> tcp_info" where
  "conn_getTcpInfo E c w = getTcpInfo (en_os E) (co_socket (conns w c)) w"

definition conn_getTcpInfoString :: "('r, 'w) cenv \<Rightarrow> nat \<Rightarrow> ('r, 'm) cworld_scheme \<Rightarrow> string" where
  "conn_getTcpInfoString E c w = fst (getTcpInfoString (en_os E) (co_socket (conns w c)) 1024 [] w)"

definition conn_setTcpNoDelay :: "nat \<Rightarrow> bool \<Rightarrow> ('r, 'm) cworld_scheme \<Rightarrow> ('r, 'm) cworld_scheme" where
  "conn_setTcpNoDelay c on w = setTcpNoDelay (co_socket (conns w c)) on w"

definition setHighWaterMarkCallback :: "nat \<Rightarrow> nat \<Rightarrow> nat \<Rightarrow> ('r, 'm) cworld_scheme \<Rightarrow> ('r, 'm) cworld_scheme" where
  "setHighWaterMarkCallback c cb mark =
     upd_conn c (\<lambda>co. co\<lparr>co_highWaterMarkCallback := Some cb, co_highWaterMark := mark\<rparr>)"

definition setConnectionCallback :: "nat \<Rightarrow> connection_cb \<Rightarrow> ('r, 'm) cworld_scheme \<Rightarrow> ('r, 'm) cworld_scheme" where
  "setConnectionCallback c cb = upd_conn c (\<lambda>co. co\<lparr>co_connectionCallback := Some cb\<rparr>)"

definition setMessageCallback :: "nat \<Rightarrow> message_cb \<Rightarrow> ('r, 'm) cworld_scheme \<Rightarrow> ('r, 'm) cworld_scheme" where
  "setMessageCallback c cb = upd_conn c (\<lambda>co. co\<lparr>co_messageCallback := Some cb\<rparr>)"

definition setWriteCompleteCallback :: "nat \<Rightarrow> nat option \<Rightarrow> ('r, 'm) cworld_scheme \<Rightarrow> ('r, 'm) cworld_scheme" where
  "setWriteCompleteCallback c cb = upd_conn c (\<lambda>co. co\<lparr>co_writeCompleteCallback := cb\<rparr>)"

definition setCloseCallback :: "nat \<Rightarrow> nat \<Rightarrow> ('r, 'm) cworld_scheme \<Rightarrow> ('r, 'm) cworld_scheme" where
  "setCloseCallback c cb = upd_conn c (\<lambda>co. co\<lparr>co_closeCallback := Some cb\<rparr>)"

definition conn_setContext :: "nat \<Rightarrow> nat option \<Rightarrow> ('r, 'm) cworld_scheme \<Rightarrow> ('r, 'm) cworld_scheme" where
  "conn_setContext c context = upd_conn c (\<lambda>co. co\<lparr>co_context := context\<rparr>)"

section \<open>Sending\<close>

text \<open>The attempt to write directly: the number of bytes written, the bytes that remain,
  whether the error is fatal, and the world.\<close>

definition write_directly :: "('r, 'w) cenv \<Rightarrow> nat \<Rightarrow> nat \<Rightarrow> byte list \<Rightarrow> ('r, 'm) cworld_scheme
    \<Rightarrow> nat \<times> nat \<times> bool \<times> ('r, 'm) cworld_scheme" where
  "write_directly E tid c data w =
     (let co = conns w c; len = length data in
      if \<not> isWriting (conn_chan c w) \<and> length (outgoing E c w) = 0
      then (let (n, err, w) = sockets_write (en_os E) (ch_fd (conn_chan c w)) data w
            in if 0 \<le> n
               then (let remaining = (if nat n \<le> len then len - nat n else 2 ^ 64 + len - nat n);
                         w = (if remaining = 0 \<and> co_writeCompleteCallback co \<noteq> None
                              then queueInLoop tid (co_loop co)
                                (F_writeComplete (the (co_writeCompleteCallback co)) c) w else w)
                     in (nat n, remaining, False, w))
               else (0, len, err \<noteq> EWOULDBLOCK \<and> (err = EPIPE \<or> err = ECONNRESET), w))
      else (0, len, False, w))"

definition sendInLoop :: "('r, 'w) cenv \<Rightarrow> nat \<Rightarrow> nat \<Rightarrow> byte list \<Rightarrow> ('r, 'm) cworld_scheme
    \<Rightarrow> ('r, 'm) cworld_scheme res" where
  "sendInLoop E tid c data w =
     assertInLoopThread tid (co_loop (conns w c)) w
      (if co_state (conns w c) = kDisconnected then Inr w
       else
        (let (nwrote, remaining, faultError, w) = write_directly E tid c data w
         in check (remaining \<le> length data) Assertion_failed
             (if \<not> faultError \<and> 0 < remaining
              then
               (let co = conns w c;
                    oldLen = length (outgoing E c w);
                    w = (if co_highWaterMark co \<le> oldLen + remaining \<and> oldLen < co_highWaterMark co
                            \<and> co_highWaterMarkCallback co \<noteq> None
                         then queueInLoop tid (co_loop co) 
                           (F_highWaterMark (the (co_highWaterMarkCallback co)) c (oldLen + remaining)) w
                         else w);
                    w = upd_conn c (\<lambda>co. co\<lparr>co_outputBuffer :=
                          bo_append (en_buffer E) (take remaining (drop nwrote data))
                            (co_outputBuffer co)\<rparr>) w
                in if \<not> isWriting (conn_chan c w)
                   then enableWriting (en_poller E) tid (co_channel (conns w c)) w
                   else Inr w)
              else Inr w)))"

text \<open>\<open>send\<close>, \<open>shutdown\<close> and \<open>forceClose\<close> test \<open>state_\<close> and then act on the answer; they may be called on any
  thread, and the state can change between the two. What each does after its test is a
  definition of its own, with the suffix \<open>_rest\<close>.\<close>

definition send_rest :: "('r, 'w) cenv \<Rightarrow> nat \<Rightarrow> nat \<Rightarrow> byte list \<Rightarrow> ('r, 'm) cworld_scheme
    \<Rightarrow> ('r, 'm) cworld_scheme res" where
  "send_rest E tid c message w =
     (if isInLoopThread tid (co_loop (conns w c)) w then sendInLoop E tid c message w
      else runInLoop tid (co_loop (conns w c)) (F_sendInLoop c message) (sendInLoop E tid c message) w)"

definition send :: "('r, 'w) cenv \<Rightarrow> nat \<Rightarrow> nat \<Rightarrow> byte list \<Rightarrow> ('r, 'm) cworld_scheme
    \<Rightarrow> ('r, 'm) cworld_scheme res" where
  "send E tid c message w =
     (if co_state (conns w c) = kConnected then send_rest E tid c message w else Inr w)"

text \<open>\<open>send(Buffer*)\<close> empties the buffer it is given.\<close>

definition send_buffer :: "('r, 'w) cenv \<Rightarrow> nat \<Rightarrow> nat \<Rightarrow> 'r Buffer \<Rightarrow> ('r, 'm) cworld_scheme
    \<Rightarrow> ('r Buffer \<times> ('r, 'm) cworld_scheme) res" where
  "send_buffer E tid c buf w =
     (if co_state (conns w c) = kConnected
      then rbind
            (if isInLoopThread tid (co_loop (conns w c)) w
             then sendInLoop E tid c (bo_readable (en_buffer E) buf) w
             else runInLoop tid (co_loop (conns w c))
                    (F_sendInLoop c (bo_readable (en_buffer E) buf))
                    (sendInLoop E tid c (bo_readable (en_buffer E) buf)) w)
            (\<lambda>w. Inr (bo_retrieveAll (en_buffer E) buf, w))
      else Inr (buf, w))"

section \<open>Closing\<close>

definition shutdownInLoop :: "nat \<Rightarrow> nat \<Rightarrow> ('r, 'm) cworld_scheme \<Rightarrow> ('r, 'm) cworld_scheme res" where
  "shutdownInLoop tid c w =
     assertInLoopThread tid (co_loop (conns w c)) w
      (if \<not> isWriting (conn_chan c w) then Inr (socket_shutdownWrite (co_socket (conns w c)) w) else Inr w)"

definition shutdown_rest :: "nat \<Rightarrow> nat \<Rightarrow> ('r, 'm) cworld_scheme \<Rightarrow> ('r, 'm) cworld_scheme res" where
  "shutdown_rest tid c w =
     runInLoop tid (co_loop (conns w c)) (F_shutdownInLoop c) (shutdownInLoop tid c) (setState c kDisconnecting w)"

definition shutdown :: "nat \<Rightarrow> nat \<Rightarrow> ('r, 'm) cworld_scheme \<Rightarrow> ('r, 'm) cworld_scheme res" where
  "shutdown tid c w =
     (if co_state (conns w c) = kConnected then shutdown_rest tid c w else Inr w)"

definition may_close :: "'r conn \<Rightarrow> bool" where
  "may_close co \<longleftrightarrow> co_state co = kConnected \<or> co_state co = kDisconnecting"

definition handleClose :: "('r, ('r, 'm) cworld_scheme) cenv \<Rightarrow> nat \<Rightarrow> nat \<Rightarrow> ('r, 'm) cworld_scheme
    \<Rightarrow> ('r, 'm) cworld_scheme res" where
  "handleClose E tid c w =
     assertInLoopThread tid (co_loop (conns w c)) w
      (check (may_close (conns w c)) Assertion_failed
        (rbind (disableAll (en_poller E) tid (co_channel (conns w c)) (setState c kDisconnected w)) (\<lambda>w.
         rbind (connectionCallback E c w) (closeCallback E c))))"

definition forceClose_rest :: "nat \<Rightarrow> nat \<Rightarrow> ('r, 'm) cworld_scheme \<Rightarrow> ('r, 'm) cworld_scheme" where
  "forceClose_rest tid c w =
     queueInLoop tid (co_loop (conns w c)) (F_forceCloseInLoop c) (setState c kDisconnecting w)"

definition forceClose :: "nat \<Rightarrow> nat \<Rightarrow> ('r, 'm) cworld_scheme \<Rightarrow> ('r, 'm) cworld_scheme" where
  "forceClose tid c w =
     (if may_close (conns w c) then forceClose_rest tid c w else w)"

definition forceCloseWithDelay :: "('r, 'w) cenv \<Rightarrow> nat \<Rightarrow> nat \<Rightarrow> real \<Rightarrow> ('r, 'm) cworld_scheme
    \<Rightarrow> ('r, 'm) cworld_scheme res" where
  "forceCloseWithDelay E tid c seconds w =
     (if may_close (conns w c)
      then rbind (runAfter (en_ts E) (en_alloc E) tid (co_loop (conns w c)) seconds (TC_forceClose c)
                    (setState c kDisconnecting w)) (\<lambda>(_, w). Inr w)
      else Inr w)"

definition forceCloseInLoop :: "('r, ('r, 'm) cworld_scheme) cenv \<Rightarrow> nat \<Rightarrow> nat \<Rightarrow> ('r, 'm) cworld_scheme
    \<Rightarrow> ('r, 'm) cworld_scheme res" where
  "forceCloseInLoop E tid c w =
     assertInLoopThread tid (co_loop (conns w c)) w
      (if may_close (conns w c) then handleClose E tid c w else Inr w)"

section \<open>Reading on and off\<close>

definition startReadInLoop :: "('r, 'w) cenv \<Rightarrow> nat \<Rightarrow> nat \<Rightarrow> ('r, 'm) cworld_scheme
    \<Rightarrow> ('r, 'm) cworld_scheme res" where
  "startReadInLoop E tid c w =
     assertInLoopThread tid (co_loop (conns w c)) w
      (if \<not> co_reading (conns w c) \<or> \<not> isReading (conn_chan c w)
       then rbind (enableReading (en_poller E) tid (co_channel (conns w c)) w)
              (\<lambda>w. Inr (upd_conn c (\<lambda>co. co\<lparr>co_reading := True\<rparr>) w))
       else Inr w)"

definition startRead :: "('r, 'w) cenv \<Rightarrow> nat \<Rightarrow> nat \<Rightarrow> ('r, 'm) cworld_scheme
    \<Rightarrow> ('r, 'm) cworld_scheme res" where
  "startRead E tid c w =
     runInLoop tid (co_loop (conns w c)) (F_startReadInLoop c) (startReadInLoop E tid c) w"

definition stopReadInLoop :: "('r, 'w) cenv \<Rightarrow> nat \<Rightarrow> nat \<Rightarrow> ('r, 'm) cworld_scheme
    \<Rightarrow> ('r, 'm) cworld_scheme res" where
  "stopReadInLoop E tid c w =
     assertInLoopThread tid (co_loop (conns w c)) w
      (if co_reading (conns w c) \<or> isReading (conn_chan c w)
       then rbind (disableReading (en_poller E) tid (co_channel (conns w c)) w)
              (\<lambda>w. Inr (upd_conn c (\<lambda>co. co\<lparr>co_reading := False\<rparr>) w))
       else Inr w)"

definition stopRead :: "('r, 'w) cenv \<Rightarrow> nat \<Rightarrow> nat \<Rightarrow> ('r, 'm) cworld_scheme
    \<Rightarrow> ('r, 'm) cworld_scheme res" where
  "stopRead E tid c w =
     runInLoop tid (co_loop (conns w c)) (F_stopReadInLoop c) (stopReadInLoop E tid c) w"

section \<open>Establishing and tearing down\<close>

definition connectEstablished :: "('r, ('r, 'm) cworld_scheme) cenv \<Rightarrow> nat \<Rightarrow> nat \<Rightarrow> ('r, 'm) cworld_scheme
    \<Rightarrow> ('r, 'm) cworld_scheme res" where
  "connectEstablished E tid c w =
     assertInLoopThread tid (co_loop (conns w c)) w
      (check (co_state (conns w c) = kConnecting) Assertion_failed
        (let w = setState c kConnected w;
             w = upd_chan (co_channel (conns w c)) (ch_tie_to c) w
         in rbind (enableReading (en_poller E) tid (co_channel (conns w c)) w)
              (connectionCallback E c)))"

definition connectDestroyed :: "('r, ('r, 'm) cworld_scheme) cenv \<Rightarrow> nat \<Rightarrow> nat \<Rightarrow> ('r, 'm) cworld_scheme
    \<Rightarrow> ('r, 'm) cworld_scheme res" where
  "connectDestroyed E tid c w =
     assertInLoopThread tid (co_loop (conns w c)) w
      (rbind
        (if co_state (conns w c) = kConnected
         then rbind (disableAll (en_poller E) tid (co_channel (conns w c)) (setState c kDisconnected w))
                (connectionCallback E c)
         else Inr w)
        (\<lambda>w. ch_remove (en_poller E) tid (co_channel (conns w c)) w))"

section \<open>Events\<close>

definition handleError :: "('r, 'w) cenv \<Rightarrow> nat \<Rightarrow> ('r, 'm) cworld_scheme \<Rightarrow> ('r, 'm) cworld_scheme" where
  "handleError E c w = snd (getSocketError (en_os E) (ch_fd (conn_chan c w)) w)"

definition conn_handleRead :: "('r, ('r, 'm) cworld_scheme) cenv \<Rightarrow> nat \<Rightarrow> nat \<Rightarrow> ('r, 'm) cworld_scheme
    \<Rightarrow> ('r, 'm) cworld_scheme res" where
  "conn_handleRead E tid c w =
     assertInLoopThread tid (co_loop (conns w c)) w
      (let (n, _, b, w) = readFd (en_os E) (en_buffer E) (ch_fd (conn_chan c w))
                            (co_inputBuffer (conns w c)) w;
           w = upd_conn c (\<lambda>co. co\<lparr>co_inputBuffer := b\<rparr>) w
       in if 0 < n then messageCallback E c w
          else if n = 0 then handleClose E tid c w
          else Inr (handleError E c w))"

definition handleWrite :: "('r, 'w) cenv \<Rightarrow> nat \<Rightarrow> nat \<Rightarrow> ('r, 'm) cworld_scheme
    \<Rightarrow> ('r, 'm) cworld_scheme res" where
  "handleWrite E tid c w =
     assertInLoopThread tid (co_loop (conns w c)) w
      (if isWriting (conn_chan c w)
       then
        (let (n, _, w) = sockets_write (en_os E) (ch_fd (conn_chan c w)) (outgoing E c w) w
         in if 0 < n
            then
             (let w = upd_conn c (\<lambda>co. co\<lparr>co_outputBuffer :=
                        bo_retrieve (en_buffer E) (nat n) (co_outputBuffer co)\<rparr>) w
              in if length (outgoing E c w) = 0
                 then rbind (disableWriting (en_poller E) tid (co_channel (conns w c)) w) (\<lambda>w.
                   let w = (if co_writeCompleteCallback (conns w c) \<noteq> None
                            then queueInLoop tid (co_loop (conns w c))
                              (F_writeComplete (the (co_writeCompleteCallback (conns w c))) c) w else w)
                   in if co_state (conns w c) = kDisconnecting then shutdownInLoop tid c w else Inr w)
                 else Inr w)
            else Inr w)
       else Inr w)"

end
