(* ===== verification/Tcp_Stream.thy ===== *)
theory Tcp_Stream
  imports Tcp_Connection
begin

text \<open>
  The operations of a connection on its loop thread: the invariant between the output buffer
  and the write interest of the channel, and the stream of bytes that was accepted for
  sending, which is what the kernel took followed by what waits in the output buffer.
\<close>

section \<open>Reading the state after an update\<close>

lemma conns_upd [simp]:
  "conns (upd_loop l f w) = conns w"
  "conns (upd_chan ch g w) = conns w"
  "conns (log_sys e w) = conns w"
  "conns (queueInLoop tid l cb w) = conns w"
  "conns (upd_tq l q w) = conns w"
  by (simp_all add: upd_loop_def upd_chan_def log_sys_def queueInLoop_def upd_tq_def)

lemma upd_conn_fields [simp]:
  "conns (upd_conn c f w) = (conns w)(c := f (conns w c))"
  "loops (upd_conn c f w) = loops w"
  "chans (upd_conn c f w) = chans w"
  "sys (upd_conn c f w) = sys w"
  "live (upd_conn c f w) = live w"
  "isInLoopThread tid l (upd_conn c f w) = isInLoopThread tid l w"
  by (simp_all add: upd_conn_def isInLoopThread_def)

lemma setState_fields [simp]:
  "conns (setState c s w) = (conns w)(c := (conns w c)\<lparr>co_state := s\<rparr>)"
  "loops (setState c s w) = loops w"
  "chans (setState c s w) = chans w"
  "sys (setState c s w) = sys w"
  "live (setState c s w) = live w"
  "isInLoopThread tid l (setState c s w) = isInLoopThread tid l w"
  by (simp_all add: setState_def)

text \<open>What an operation on one channel leaves as it was.\<close>

definition chan_frame :: "nat \<Rightarrow> (channel \<Rightarrow> channel) \<Rightarrow> ('r, 'm) cworld_scheme \<Rightarrow> ('r, 'm) cworld_scheme \<Rightarrow> bool" where
  "chan_frame ch f w w' \<longleftrightarrow>
     conns w' = conns w \<and> sys w' = sys w \<and> live w' = live w \<and>
     (\<forall>k. k \<noteq> ch \<longrightarrow> chans w' k = chans w k) \<and>
     (\<exists>b i. chans w' ch = (f (chans w ch))\<lparr>ch_addedToLoop := b, ch_index := i\<rparr>) \<and>
     (\<forall>l. el_threadId (loops w' l) = el_threadId (loops w l) \<and>
          el_pendingFunctors (loops w' l) = el_pendingFunctors (loops w l))"

lemma chan_frame_registered:
  "chan_frame ch f w (registered i ch (upd_chan ch f w))"
  by (auto simp: chan_frame_def registered_def)

lemma ch_update_frame:
  assumes "poller_ok P" and "isInLoopThread tid (ch_loop (f (chans w ch))) w"
  shows "\<exists>w'. ch_update P tid ch (upd_chan ch f w) = Inr w' \<and> chan_frame ch f w w'"
proof -
  obtain i where "ch_update P tid ch (upd_chan ch f w) =
      check (isInLoopThread tid (ch_loop (f (chans w ch))) w) Not_in_loop_thread
        (Inr (registered i ch (upd_chan ch f w)))"
    using ch_update_eq [OF assms(1), of tid ch "upd_chan ch f w"] by auto
  with assms(2) chan_frame_registered show ?thesis by auto
qed

lemma chan_ops_frame:
  assumes "poller_ok P" and "isInLoopThread tid (ch_loop (chans w ch)) w"
  shows "\<exists>w'. enableReading P tid ch w = Inr w' \<and> chan_frame ch set_reading w w'"
    "\<exists>w'. disableReading P tid ch w = Inr w' \<and> chan_frame ch clear_reading w w'"
    "\<exists>w'. enableWriting P tid ch w = Inr w' \<and> chan_frame ch set_writing w w'"
    "\<exists>w'. disableWriting P tid ch w = Inr w' \<and> chan_frame ch clear_writing w w'"
    "\<exists>w'. disableAll P tid ch w = Inr w' \<and> chan_frame ch clear_all w w'"
  unfolding enableReading_def disableReading_def enableWriting_def disableWriting_def disableAll_def
  using assms
  by (intro ch_update_frame; simp add: set_reading_def clear_reading_def set_writing_def
      clear_writing_def clear_all_def)+

lemma chan_frameD:
  assumes "chan_frame ch f w w'"
  shows "conns w' = conns w" "sys w' = sys w" "live w' = live w"
    "isInLoopThread tid l w' = isInLoopThread tid l w"
    "isWriting (chans w' ch) = isWriting (f (chans w ch))"
    "isReading (chans w' ch) = isReading (f (chans w ch))"
    "ch_loop (chans w' ch) = ch_loop (f (chans w ch))"
    "ch_fd (chans w' ch) = ch_fd (f (chans w ch))"
    "isNoneEvent (chans w' ch) = isNoneEvent (f (chans w ch))"
    "el_pendingFunctors (loops w' l) = el_pendingFunctors (loops w l)"
  using assms
  by (auto simp: chan_frame_def isInLoopThread_def isWriting_def isReading_def isNoneEvent_def)

lemma mask_ops_fields [simp]:
  "ch_loop (set_reading ch) = ch_loop ch" "ch_fd (set_reading ch) = ch_fd ch"
  "ch_loop (clear_reading ch) = ch_loop ch" "ch_fd (clear_reading ch) = ch_fd ch"
  "ch_loop (set_writing ch) = ch_loop ch" "ch_fd (set_writing ch) = ch_fd ch"
  "ch_loop (clear_writing ch) = ch_loop ch" "ch_fd (clear_writing ch) = ch_fd ch"
  "ch_loop (clear_all ch) = ch_loop ch" "ch_fd (clear_all ch) = ch_fd ch"
  by (simp_all add: set_reading_def clear_reading_def set_writing_def clear_writing_def clear_all_def)

section \<open>The invariant\<close>

definition env_ok :: "('r, 'w) cenv \<Rightarrow> bool" where
  "env_ok E \<longleftrightarrow> os_ok (en_os E) \<and> poller_ok (en_poller E) \<and> buffer_ok (en_buffer E)"

text \<open>The channel is that of the socket and the loop, and it waits for writability exactly while
  bytes wait in the output buffer; a closed connection waits for nothing to write.\<close>

definition conn_wf :: "('r, 'w) cenv \<Rightarrow> nat \<Rightarrow> ('r, 'm) cworld_scheme \<Rightarrow> bool" where
  "conn_wf E c w \<longleftrightarrow>
     ch_loop (conn_chan c w) = co_loop (conns w c) \<and>
     ch_fd (conn_chan c w) = co_socket (conns w c) \<and>
     bo_wf (en_buffer E) (co_inputBuffer (conns w c)) \<and>
     bo_wf (en_buffer E) (co_outputBuffer (conns w c)) \<and>
     (isWriting (conn_chan c w) \<longleftrightarrow>
        co_state (conns w c) \<noteq> kDisconnected \<and> outgoing E c w \<noteq> [])"

definition conn_inv :: "('r, 'w) cenv \<Rightarrow> nat \<Rightarrow> nat \<Rightarrow> ('r, 'm) cworld_scheme \<Rightarrow> bool" where
  "conn_inv E tid c w \<longleftrightarrow> conn_wf E c w \<and> isInLoopThread tid (co_loop (conns w c)) w"

fun write_bytes :: "int \<Rightarrow> sysev \<Rightarrow> byte list" where
  "write_bytes fd (Ev_write f bs) = (if f = fd then bs else [])"
| "write_bytes fd _ = []"

definition written :: "int \<Rightarrow> sysev list \<Rightarrow> byte list" where
  "written fd evs = concat (map (write_bytes fd) evs)"

definition stream :: "('r, 'w) cenv \<Rightarrow> nat \<Rightarrow> ('r, 'm) cworld_scheme \<Rightarrow> byte list" where
  "stream E c w = written (co_socket (conns w c)) (sys w) @ outgoing E c w"

lemma written_append [simp]: "written fd (xs @ ys) = written fd xs @ written fd ys"
  by (simp add: written_def)

lemma written_one [simp]: "written fd [e] = write_bytes fd e" "written fd [] = []"
  by (simp_all add: written_def)

lemma env_okD:
  assumes "env_ok E"
  shows "os_ok (en_os E)" "poller_ok (en_poller E)" "buffer_ok (en_buffer E)"
  using assms by (simp_all add: env_ok_def)

section \<open>Sending\<close>

text \<open>The direct write failed with an error that is taken to be final.\<close>

definition write_broken :: "('r, 'w) cenv \<Rightarrow> nat \<Rightarrow> byte list \<Rightarrow> ('r, 'm) cworld_scheme \<Rightarrow> bool" where
  "write_broken E c data w \<longleftrightarrow>
     outgoing E c w = [] \<and>
     (case os_write (en_os E) (sys w) (co_socket (conns w c)) data of
        (n, err) \<Rightarrow> n < 0 \<and> err \<in> {EPIPE, ECONNRESET})"

lemma write_directly_cases:
  assumes "env_ok E" and "conn_inv E tid c w" and "co_state (conns w c) \<noteq> kDisconnected"
    and "write_directly E tid c data w = (nwrote, remaining, fault, w')"
  shows "nwrote + remaining = length data" "fault = write_broken E c data w"
    "conns w' = conns w" "chans w' = chans w"
    "written (co_socket (conns w c)) (sys w') = written (co_socket (conns w c)) (sys w) @ take nwrote data"
    "nwrote \<noteq> 0 \<Longrightarrow> outgoing E c w = []"
    "isInLoopThread t l w' = isInLoopThread t l w"
    "\<exists>evs. sys w' = sys w @ evs \<and> (\<forall>e\<in>set evs. \<exists>bs. e = Ev_write (co_socket (conns w c)) bs)"
proof -
  let ?fd = "co_socket (conns w c)"
  have fd: "ch_fd (conn_chan c w) = ?fd" and
    wr: "isWriting (conn_chan c w) \<longleftrightarrow> outgoing E c w \<noteq> []"
    using assms(2,3) by (simp_all add: conn_inv_def conn_wf_def)
  obtain n err where o: "os_write (en_os E) (sys w) ?fd data = (n, err)" by fastforce
  have n: "-1 \<le> n" "n \<le> int (length data)"
    using os_okD(1) [OF env_okD(1) [OF assms(1)] o] by simp_all
  note eq = assms(4) [unfolded write_directly_def sockets_write_def fd o Let_def]
  have goals: "nwrote + remaining = length data \<and> fault = write_broken E c data w \<and>
    conns w' = conns w \<and> chans w' = chans w \<and>
    written ?fd (sys w') = written ?fd (sys w) @ take nwrote data \<and>
    (nwrote \<noteq> 0 \<longrightarrow> outgoing E c w = []) \<and> (\<forall>t l. isInLoopThread t l w' = isInLoopThread t l w) \<and>
    (\<exists>evs. sys w' = sys w @ evs \<and> (\<forall>e\<in>set evs. \<exists>bs. e = Ev_write ?fd bs))"
  proof (cases "outgoing E c w = []")
    case True
    then show ?thesis
      using eq wr n o by (auto simp: write_broken_def split: if_splits)
  next
    case False
    then show ?thesis using eq wr by (auto simp: write_broken_def)
  qed
  then show "nwrote + remaining = length data" "fault = write_broken E c data w"
    "conns w' = conns w" "chans w' = chans w"
    "written ?fd (sys w') = written ?fd (sys w) @ take nwrote data"
    "nwrote \<noteq> 0 \<Longrightarrow> outgoing E c w = []"
    "isInLoopThread t l w' = isInLoopThread t l w"
    "\<exists>evs. sys w' = sys w @ evs \<and> (\<forall>e\<in>set evs. \<exists>bs. e = Ev_write ?fd bs)"
    by auto
qed

text \<open>What an operation called on the loop thread may do to its connection: \<open>acc\<close> is what it
  adds to the stream.\<close>

fun connection_event :: "nat \<Rightarrow> sysev \<Rightarrow> bool list" where
  "connection_event c (Ev_connection d up) = (if d = c then [up] else [])"
| "connection_event c _ = []"

definition hist :: "nat \<Rightarrow> sysev list \<Rightarrow> bool list" where
  "hist c evs = concat (map (connection_event c) evs)"

lemma hist_append [simp]: "hist c (xs @ ys) = hist c xs @ hist c ys"
  by (simp add: hist_def)

lemma hist_one [simp]: "hist c [e] = connection_event c e" "hist c [] = []"
  by (simp_all add: hist_def)

lemma hist_writes: "\<forall>e\<in>set evs. \<exists>bs. e = Ev_write fd bs \<Longrightarrow> hist c evs = []"
  by (force simp: hist_def)

definition edge :: "StateE \<Rightarrow> StateE \<Rightarrow> bool" where
  "edge s t \<longleftrightarrow> s = t \<or> s = kConnected \<and> t = kDisconnecting"

definition conn_frame :: "nat \<Rightarrow> ('r, 'm) cworld_scheme \<Rightarrow> ('r, 'm) cworld_scheme \<Rightarrow> bool" where
  "conn_frame c w w' \<longleftrightarrow>
     (\<forall>d. d \<noteq> c \<longrightarrow> conns w' d = conns w d) \<and>
     co_loop (conns w' c) = co_loop (conns w c) \<and> co_name (conns w' c) = co_name (conns w c) \<and>
     co_socket (conns w' c) = co_socket (conns w c) \<and> co_channel (conns w' c) = co_channel (conns w c) \<and>
     co_connectionCallback (conns w' c) = co_connectionCallback (conns w c) \<and>
     co_messageCallback (conns w' c) = co_messageCallback (conns w c) \<and>
     co_writeCompleteCallback (conns w' c) = co_writeCompleteCallback (conns w c) \<and>
     co_highWaterMarkCallback (conns w' c) = co_highWaterMarkCallback (conns w c) \<and>
     co_highWaterMark (conns w' c) = co_highWaterMark (conns w c) \<and>
     co_closeCallback (conns w' c) = co_closeCallback (conns w c)"

definition op_ok :: "('r, 'w) cenv \<Rightarrow> nat \<Rightarrow> nat \<Rightarrow> byte list \<Rightarrow> ('r, 'm) cworld_scheme
    \<Rightarrow> ('r, 'm) cworld_scheme \<Rightarrow> bool" where
  "op_ok E tid c acc w w' \<longleftrightarrow>
     conn_inv E tid c w' \<and> conn_frame c w w' \<and> stream E c w' = stream E c w @ acc \<and>
     hist c (sys w') = hist c (sys w) \<and> edge (co_state (conns w c)) (co_state (conns w' c))"

lemma conn_frame_refl: "conn_frame c w w"
  by (simp add: conn_frame_def)

lemma conn_frame_trans: "conn_frame c u v \<Longrightarrow> conn_frame c v w \<Longrightarrow> conn_frame c u w"
  by (auto simp: conn_frame_def)

lemma conn_frameD:
  assumes "conn_frame c w w'"
  shows "co_loop (conns w' c) = co_loop (conns w c)" "co_socket (conns w' c) = co_socket (conns w c)"
    "co_channel (conns w' c) = co_channel (conns w c)"
    "co_connectionCallback (conns w' c) = co_connectionCallback (conns w c)"
    "co_messageCallback (conns w' c) = co_messageCallback (conns w c)"
    "co_closeCallback (conns w' c) = co_closeCallback (conns w c)"
    "d \<noteq> c \<Longrightarrow> conns w' d = conns w d"
  using assms by (simp_all add: conn_frame_def)

lemma conn_frame_eq: "conns w' = conns w \<Longrightarrow> conn_frame c w w'"
  by (simp add: conn_frame_def)

lemma op_ok_refl: "conn_inv E tid c w \<Longrightarrow> op_ok E tid c [] w w"
  by (simp add: op_ok_def conn_frame_refl edge_def)

lemma op_ok_trans: "op_ok E tid c a u v \<Longrightarrow> op_ok E tid c b v w \<Longrightarrow> op_ok E tid c (a @ b) u w"
  by (auto simp: op_ok_def edge_def intro: conn_frame_trans)

text \<open>A change of the connection's reader and input side, its queue of functors and its interest
  in reading is such an operation.\<close>

lemma conn_inv_cong:
  assumes "conn_inv E tid c w" and "conn_frame c w w'"
    and "isInLoopThread tid (co_loop (conns w c)) w'"
    and "ch_loop (conn_chan c w') = ch_loop (conn_chan c w)" "ch_fd (conn_chan c w') = ch_fd (conn_chan c w)"
    and "bo_wf (en_buffer E) (co_inputBuffer (conns w' c))"
    and "bo_wf (en_buffer E) (co_outputBuffer (conns w' c))"
    and "isWriting (conn_chan c w') \<longleftrightarrow> co_state (conns w' c) \<noteq> kDisconnected \<and> outgoing E c w' \<noteq> []"
  shows "conn_inv E tid c w'"
  using assms conn_frameD(1-3) [OF assms(2)] by (simp add: conn_inv_def conn_wf_def)

lemma enableWriting_ok:
  assumes "env_ok E" and "conn_inv E tid c w" and "data \<noteq> []" and "co_state (conns w c) \<noteq> kDisconnected"
    and "v = upd_conn c (\<lambda>co. co\<lparr>co_outputBuffer := bo_append (en_buffer E) data (co_outputBuffer co)\<rparr>) w"
  shows "\<exists>w'. (if \<not> isWriting (conn_chan c v)
      then enableWriting (en_poller E) tid (co_channel (conns v c)) v else Inr v) = Inr w'
    \<and> conn_inv E tid c w' \<and> conns w' = conns v \<and> sys w' = sys w"
proof -
  have inv: "isInLoopThread tid (co_loop (conns w c)) w" "conn_wf E c w"
    using assms(2) by (simp_all add: conn_inv_def)
  have wf: "bo_wf (en_buffer E) (co_outputBuffer (conns w c))" using inv(2) by (simp add: conn_wf_def)
  note ap = buffer_okD(2,3) [OF env_okD(3) [OF assms(1)] wf, of data]
  have fr: "conn_frame c w v" by (simp add: conn_frame_def assms(5))
  show ?thesis
  proof (cases "isWriting (conn_chan c v)")
    case True
    have "conn_inv E tid c v"
      by (rule conn_inv_cong [OF assms(2) fr])
        (use inv ap True assms(3-5) in \<open>simp_all add: conn_wf_def\<close>)
    with True assms(5) show ?thesis by simp
  next
    case False
    obtain w' where w': "enableWriting (en_poller E) tid (co_channel (conns v c)) v = Inr w'"
        "chan_frame (co_channel (conns v c)) set_writing v w'"
      using chan_ops_frame(3) [OF env_okD(2) [OF assms(1)], of tid v "co_channel (conns v c)"] inv assms(5)
      by (auto simp: conn_wf_def)
    note f = chan_frameD [OF w'(2)]
    have "conn_inv E tid c w'"
      by (rule conn_inv_cong [OF assms(2) conn_frame_trans [OF fr conn_frame_eq [OF f(1)]]])
        (use inv ap f assms(3-5) in \<open>simp_all add: conn_wf_def isWriting_ops\<close>)
    with False w'(1) f(1,2) assms(5) show ?thesis by simp
  qed
qed

lemma conn_inv_queue:
  "conn_inv E tid c (queueInLoop t l cb w) = conn_inv E tid c w"
  by (simp add: conn_inv_def conn_wf_def)

lemma sendInLoop_unbuffered:
  assumes env: "env_ok E" and inv: "conn_inv E tid c w" and st: "co_state (conns w c) \<noteq> kDisconnected"
    and wd: "write_directly E tid c data w = (nw, rem, fault, u)" and all: "fault \<or> rem = 0"
  shows "sendInLoop E tid c data w = Inr u"
    "stream E c u = stream E c w @ (if write_broken E c data w then [] else data)"
proof -
  note d = write_directly_cases [OF env inv st wd]
  have "isInLoopThread tid (co_loop (conns w c)) w" using inv by (simp add: conn_inv_def)
  then show "sendInLoop E tid c data w = Inr u"
    using all st d(1) by (auto simp: sendInLoop_def assertInLoopThread_def wd)
  have "nw = length data \<or> fault" using all d(1) by auto
  moreover have "fault \<Longrightarrow> nw = 0"
    using wd by (auto simp: write_directly_def sockets_write_def Let_def split: if_splits prod.splits)
  moreover have "take nw data @ outgoing E c w = outgoing E c w @ take nw data"
    using d(6) by (cases "nw = 0") simp_all
  ultimately show "stream E c u = stream E c w @ (if write_broken E c data w then [] else data)"
    using d(2,3,5) by (auto simp: stream_def)
qed

lemma sendInLoop_buffered:
  assumes env: "env_ok E" and inv: "conn_inv E tid c w" and st: "co_state (conns w c) \<noteq> kDisconnected"
    and wd: "write_directly E tid c data w = (nw, rem, fault, u)" and left: "\<not> fault" "0 < rem"
    and iu: "conn_inv E tid c u"
  shows "\<exists>w'. sendInLoop E tid c data w = Inr w' \<and> conn_inv E tid c w' \<and> conn_frame c w w'
    \<and> sys w' = sys u \<and> co_state (conns w' c) = co_state (conns w c) \<and> stream E c w' = stream E c w @ data"
proof -
  note d = write_directly_cases [OF env inv st wd]
  have th: "isInLoopThread tid (co_loop (conns w c)) w" using inv by (simp add: conn_inv_def)
  have wf: "bo_wf (en_buffer E) (co_outputBuffer (conns w c))"
    using inv by (simp add: conn_inv_def conn_wf_def)
  have rem: "take rem (drop nw data) = drop nw data" using d(1) by simp
  define v where "v = (if co_highWaterMark (conns u c) \<le> length (outgoing E c u) + rem
      \<and> length (outgoing E c u) < co_highWaterMark (conns u c) \<and> co_highWaterMarkCallback (conns u c) \<noteq> None
    then queueInLoop tid (co_loop (conns u c))
        (F_highWaterMark (the (co_highWaterMarkCallback (conns u c))) c (length (outgoing E c u) + rem)) u else u)"
  let ?x = "upd_conn c (\<lambda>co. co\<lparr>co_outputBuffer :=
      bo_append (en_buffer E) (drop nw data) (co_outputBuffer co)\<rparr>) v"
  have iv: "conn_inv E tid c v" using iu by (simp add: v_def conn_inv_queue)
  have cv: "conns v = conns w" "sys v = sys u" using d(3) by (simp_all add: v_def)
  have ne: "drop nw data \<noteq> []" and sv: "co_state (conns v c) \<noteq> kDisconnected" using left d(1) st cv by auto
  obtain w' where w': "(if \<not> isWriting (conn_chan c ?x)
      then enableWriting (en_poller E) tid (co_channel (conns ?x c)) ?x else Inr ?x) = Inr w'"
      "conn_inv E tid c w'" "conns w' = conns ?x" "sys w' = sys v"
    using enableWriting_ok [OF env iv ne sv refl] by blast
  have "sendInLoop E tid c data w = (if \<not> isWriting (conn_chan c ?x)
      then enableWriting (en_poller E) tid (co_channel (conns ?x c)) ?x else Inr ?x)"
    using left st th d(1)
    by (simp only: sendInLoop_def assertInLoopThread_def wd Let_def rem v_def check_simps prod.case
        if_True if_False le_add2 simp_thms) simp
  moreover have "take nw data @ outgoing E c w @ drop nw data = outgoing E c w @ data"
    using d(6) by (cases "nw = 0") simp_all
  then have "stream E c w' = stream E c w @ data"
    using d(5) w'(3,4) cv buffer_okD(3) [OF env_okD(3) [OF env] wf, of "drop nw data"] by (simp add: stream_def)
  ultimately show ?thesis using w' cv by (simp add: conn_frame_def)
qed

lemma sendInLoop_ok:
  assumes env: "env_ok E" and inv: "conn_inv E tid c w" and st: "co_state (conns w c) \<noteq> kDisconnected"
  shows "\<exists>w'. sendInLoop E tid c data w = Inr w'
    \<and> op_ok E tid c (if write_broken E c data w then [] else data) w w'
    \<and> co_state (conns w' c) = co_state (conns w c)"
proof -
  obtain nw rem fault u where wd: "write_directly E tid c data w = (nw, rem, fault, u)"
    by (cases "write_directly E tid c data w") auto
  note d = write_directly_cases [OF env inv st wd]
  have hu: "hist c (sys u) = hist c (sys w)" using d(8) hist_writes by auto
  have iu: "conn_inv E tid c u" using inv d(3,4,7) by (simp add: conn_inv_def conn_wf_def)
  show ?thesis
  proof (cases "fault \<or> rem = 0")
    case True
    from sendInLoop_unbuffered [OF env inv st wd True] iu hu d(3) show ?thesis
      by (auto simp: op_ok_def edge_def intro: conn_frame_eq)
  next
    case False
    then have "\<not> fault" "0 < rem" by simp_all
    from sendInLoop_buffered [OF env inv st wd this iu] this(1) hu d(2) show ?thesis
      by (auto simp: op_ok_def edge_def)
  qed
qed

section \<open>Draining and shutting down\<close>

lemma conn_invD:
  assumes "conn_inv E tid c w"
  shows "isInLoopThread tid (co_loop (conns w c)) w" "ch_loop (conn_chan c w) = co_loop (conns w c)"
    "ch_fd (conn_chan c w) = co_socket (conns w c)"
    "bo_wf (en_buffer E) (co_inputBuffer (conns w c))" "bo_wf (en_buffer E) (co_outputBuffer (conns w c))"
    "isWriting (conn_chan c w) \<longleftrightarrow> co_state (conns w c) \<noteq> kDisconnected \<and> outgoing E c w \<noteq> []"
  using assms by (simp_all add: conn_inv_def conn_wf_def)

lemma op_ok_log:
  assumes "conn_inv E tid c w" and "write_bytes (co_socket (conns w c)) e = []" and "connection_event c e = []"
  shows "op_ok E tid c [] w (log_sys e w)"
  using assms by (simp add: op_ok_def conn_inv_def conn_wf_def stream_def edge_def conn_frame_eq)

lemma op_ok_queue:
  assumes "conn_inv E tid c w"
  shows "op_ok E tid c [] w (queueInLoop t l cb w)"
  using assms by (simp add: op_ok_def conn_inv_queue stream_def edge_def conn_frame_eq)

lemma op_ok_setState:
  assumes "conn_inv E tid c w" and "co_state (conns w c) = kConnected \<or> co_state (conns w c) = kDisconnecting"
  shows "op_ok E tid c [] w (setState c kDisconnecting w)"
proof -
  have fr: "conn_frame c w (setState c kDisconnecting w)" by (simp add: conn_frame_def)
  have "conn_inv E tid c (setState c kDisconnecting w)"
    by (rule conn_inv_cong [OF assms(1) fr]) (use conn_invD [OF assms(1)] assms(2) in auto)
  with fr assms(2) show ?thesis by (auto simp: op_ok_def stream_def edge_def)
qed

lemma shutdownInLoop_ok:
  assumes "conn_inv E tid c w"
  shows "\<exists>w'. shutdownInLoop tid c w = Inr w' \<and> op_ok E tid c [] w w' \<and> conns w' = conns w
    \<and> sys w' = sys w @ (if isWriting (conn_chan c w) then []
        else [Ev_shutdown_write (co_socket (conns w c))])"
  using conn_invD(1) [OF assms] op_ok_refl [OF assms]
    op_ok_log [OF assms, of "Ev_shutdown_write (co_socket (conns w c))"]
  by (auto simp: shutdownInLoop_def assertInLoopThread_def shutdownWrite_def)

lemma shutdown_ok:
  assumes "conn_inv E tid c w"
  shows "\<exists>w'. shutdown tid c w = Inr w' \<and> op_ok E tid c [] w w'"
proof (cases "co_state (conns w c) = kConnected")
  case True
  have s: "op_ok E tid c [] w (setState c kDisconnecting w)"
    using op_ok_setState [OF assms] True by simp
  then have "conn_inv E tid c (setState c kDisconnecting w)" by (simp add: op_ok_def)
  from shutdownInLoop_ok [OF this] obtain w' where
    "shutdownInLoop tid c (setState c kDisconnecting w) = Inr w'"
    "op_ok E tid c [] (setState c kDisconnecting w) w'" by blast
  with True op_ok_trans [OF s] conn_invD(1) [OF assms] show ?thesis
    by (auto simp: shutdown_def shutdown_rest_def runInLoop_def)
next
  case False
  with op_ok_refl [OF assms] show ?thesis by (simp add: shutdown_def shutdown_rest_def)
qed

lemma disableWriting_ok:
  assumes env: "env_ok E" and inv: "conn_inv E tid c w"
    and b: "bo_wf (en_buffer E) b" and e: "bo_readable (en_buffer E) b = []"
  shows "\<exists>w'. disableWriting (en_poller E) tid (co_channel (conns w c))
      (upd_conn c (\<lambda>co. co\<lparr>co_outputBuffer := b\<rparr>) w) = Inr w'
    \<and> conn_inv E tid c w' \<and> conns w' = (conns w)(c := (conns w c)\<lparr>co_outputBuffer := b\<rparr>)
    \<and> sys w' = sys w"
proof -
  let ?v = "upd_conn c (\<lambda>co. co\<lparr>co_outputBuffer := b\<rparr>) w"
  note i = conn_invD [OF inv]
  obtain w' where w': "disableWriting (en_poller E) tid (co_channel (conns w c)) ?v = Inr w'"
      "chan_frame (co_channel (conns w c)) clear_writing ?v w'"
    using chan_ops_frame(4) [OF env_okD(2) [OF env], of tid ?v "co_channel (conns w c)"] i by auto
  note f = chan_frameD [OF w'(2)]
  have fr: "conn_frame c w w'" using f(1) by (simp add: conn_frame_def)
  have "conn_inv E tid c w'"
    by (rule conn_inv_cong [OF inv fr]) (use i f b e in \<open>simp_all add: isWriting_ops\<close>)
  with w'(1) f(1,2) show ?thesis by simp
qed

text \<open>The branch of \<open>handleWrite\<close> in which the output buffer has drained.\<close>

lemma drained_ok:
  assumes env: "env_ok E" and inv: "conn_inv E tid c u"
    and b: "bo_wf (en_buffer E) b" and e: "bo_readable (en_buffer E) b = []"
  shows "\<exists>w'. rbind (disableWriting (en_poller E) tid (co_channel (conns u c))
        (upd_conn c (\<lambda>co. co\<lparr>co_outputBuffer := b\<rparr>) u)) (\<lambda>w.
      let w = (if co_writeCompleteCallback (conns w c) \<noteq> None
               then queueInLoop tid (co_loop (conns w c))
                 (F_writeComplete (the (co_writeCompleteCallback (conns w c))) c) w else w)
      in if co_state (conns w c) = kDisconnecting then shutdownInLoop tid c w else Inr w) = Inr w'
    \<and> conn_inv E tid c w' \<and> conns w' = (conns u)(c := (conns u c)\<lparr>co_outputBuffer := b\<rparr>)
    \<and> sys w' = sys u @ (if co_state (conns u c) = kDisconnecting
        then [Ev_shutdown_write (co_socket (conns u c))] else [])"
proof -
  obtain x where x: "disableWriting (en_poller E) tid (co_channel (conns u c))
        (upd_conn c (\<lambda>co. co\<lparr>co_outputBuffer := b\<rparr>) u) = Inr x"
      "conn_inv E tid c x" "conns x = (conns u)(c := (conns u c)\<lparr>co_outputBuffer := b\<rparr>)" "sys x = sys u"
    using disableWriting_ok [OF env inv b e] by blast
  define y where "y = (if co_writeCompleteCallback (conns u c) \<noteq> None
      then queueInLoop tid (co_loop (conns u c))
        (F_writeComplete (the (co_writeCompleteCallback (conns u c))) c) x else x)"
  have y: "conn_inv E tid c y" "conns y = conns x" "sys y = sys u"
    using x(2,4) by (simp_all add: y_def conn_inv_queue)
  have "\<not> isWriting (conn_chan c y)" using conn_invD(6) [OF y(1)] y(2) x(3) e by simp
  then obtain z where z: "shutdownInLoop tid c y = Inr z" "conn_inv E tid c z" "conns z = conns y"
      "sys z = sys y @ [Ev_shutdown_write (co_socket (conns u c))]"
    using shutdownInLoop_ok [OF y(1)] x(3) y(2) by (auto simp: op_ok_def)
  have "(let w = (if co_writeCompleteCallback (conns x c) \<noteq> None
               then queueInLoop tid (co_loop (conns x c))
                 (F_writeComplete (the (co_writeCompleteCallback (conns x c))) c) x else x)
      in if co_state (conns w c) = kDisconnecting then shutdownInLoop tid c w else Inr w) =
      (if co_state (conns u c) = kDisconnecting then shutdownInLoop tid c y else Inr y)"
    using x(3) by (simp add: Let_def y_def)
  then show ?thesis
    unfolding x(1) rbind_simps
    using x(3) y z by (intro exI [of _ "if co_state (conns u c) = kDisconnecting then z else y"]) simp
qed

text \<open>What a call of \<open>handleWrite\<close> promises when the kernel takes \<open>n\<close> bytes.\<close>

definition flushed :: "('r, 'w) cenv \<Rightarrow> nat \<Rightarrow> nat \<Rightarrow> ('r, 'm) cworld_scheme \<Rightarrow> nat \<Rightarrow> ('r, 'm) cworld_scheme \<Rightarrow> bool" where
  "flushed E tid c w n w' \<longleftrightarrow> op_ok E tid c [] w w' \<and> co_state (conns w' c) = co_state (conns w c)
    \<and> n \<le> length (outgoing E c w) \<and> outgoing E c w' = drop n (outgoing E c w)
    \<and> sys w' = sys w @
        (if isWriting (conn_chan c w)
         then Ev_write (co_socket (conns w c)) (take n (outgoing E c w)) #
           (if outgoing E c w' = [] \<and> co_state (conns w c) = kDisconnecting
            then [Ev_shutdown_write (co_socket (conns w c))] else [])
         else [])"

lemma handleWrite_some:
  assumes env: "env_ok E" and inv: "conn_inv E tid c w" and wr: "isWriting (conn_chan c w)"
    and o: "os_write (en_os E) (sys w) (co_socket (conns w c)) (outgoing E c w) = (n, err)" and pos: "0 < n"
  shows "\<exists>w'. handleWrite E tid c w = Inr w' \<and> flushed E tid c w (nat n) w'"
proof -
  note i = conn_invD [OF inv]
  let ?fd = "co_socket (conns w c)" and ?out = "outgoing E c w" and ?B = "en_buffer E" and ?k = "nat n"
  let ?u = "log_sys (Ev_write ?fd (take ?k ?out)) w"
  have k: "?k \<le> length ?out" using os_okD(1) [OF env_okD(1) [OF env] o] by linarith
  have iu: "conn_inv E tid c ?u" using inv by (simp add: conn_inv_def conn_wf_def)
  let ?b = "bo_retrieve ?B ?k (co_outputBuffer (conns w c))"
  have b: "bo_wf ?B ?b" "bo_readable ?B ?b = drop ?k ?out"
    using buffer_okD(4,5) [OF env_okD(3) [OF env] i(5) k] by simp_all
  let ?v = "upd_conn c (\<lambda>co. co\<lparr>co_outputBuffer := ?b\<rparr>) ?u"
  have vv: "upd_conn c (\<lambda>co. co\<lparr>co_outputBuffer := bo_retrieve ?B ?k (co_outputBuffer co)\<rparr>) ?u = ?v"
    by (simp add: upd_conn_def)
  have h: "handleWrite E tid c w = (if length (outgoing E c ?v) = 0
      then rbind (disableWriting (en_poller E) tid (co_channel (conns w c)) ?v) (\<lambda>w.
        let w = (if co_writeCompleteCallback (conns w c) \<noteq> None
                 then queueInLoop tid (co_loop (conns w c)) (F_writeComplete (the (co_writeCompleteCallback (conns w c))) c) w else w)
        in if co_state (conns w c) = kDisconnecting then shutdownInLoop tid c w else Inr w)
      else Inr ?v)"
    using wr i(1,3) o pos by (simp add: handleWrite_def assertInLoopThread_def sockets_write_def Let_def vv)
  show ?thesis
  proof (cases "drop ?k ?out = []")
    case False
    have fr: "conn_frame c w ?v" by (simp add: conn_frame_def)
    have "conn_inv E tid c ?v" by (rule conn_inv_cong [OF inv fr]) (use i b False wr in simp_all)
    then show ?thesis using h fr wr False b(2) k by (simp add: flushed_def op_ok_def stream_def edge_def)
  next
    case True
    then have e: "length (outgoing E c ?v) = 0" and e': "bo_readable ?B ?b = []" using b(2) by simp_all
    obtain z where "handleWrite E tid c w = Inr z" "conn_inv E tid c z"
        "conns z = (conns w)(c := (conns w c)\<lparr>co_outputBuffer := ?b\<rparr>)"
        "sys z = sys ?u @ (if co_state (conns w c) = kDisconnecting then [Ev_shutdown_write ?fd] else [])"
      using drained_ok [OF env iu b(1) e'] unfolding h if_P [OF e] by auto
    then show ?thesis
      using e' k True wr
      by (simp add: flushed_def op_ok_def stream_def edge_def conn_frame_def written_def hist_def)
  qed
qed

lemma handleWrite_ok:
  assumes env: "env_ok E" and inv: "conn_inv E tid c w"
  shows "\<exists>w' n. handleWrite E tid c w = Inr w' \<and> flushed E tid c w n w'"
proof (cases "isWriting (conn_chan c w)")
  case False
  then show ?thesis
    using conn_invD(1) [OF inv] op_ok_refl [OF inv]
    by (intro exI [of _ w] exI [of _ 0]) (simp add: flushed_def handleWrite_def assertInLoopThread_def)
next
  case True
  note i = conn_invD [OF inv]
  let ?fd = "co_socket (conns w c)" and ?out = "outgoing E c w"
  obtain n err where o: "os_write (en_os E) (sys w) ?fd ?out = (n, err)" by fastforce
  show ?thesis
  proof (cases "0 < n")
    case False
    let ?u = "log_sys (Ev_write ?fd []) w"
    have "handleWrite E tid c w = Inr ?u"
      using True False i(1,3) o by (simp add: handleWrite_def assertInLoopThread_def sockets_write_def)
    moreover have "conn_inv E tid c ?u" using inv by (simp add: conn_inv_def conn_wf_def)
    ultimately show ?thesis
      using True i(6) by (intro exI [of _ ?u] exI [of _ 0])
        (auto simp: flushed_def op_ok_def conn_frame_eq stream_def edge_def)
  qed (use handleWrite_some [OF env inv True o] in blast)
qed

end
