(* ===== verification/Tcp_Lifecycle.thy ===== *)
theory Tcp_Lifecycle
  imports Tcp_Stream
begin

text \<open>
  The life of a connection: the calls that a user's callback can make on it, the handlers that
  run such callbacks, and the steps of the connection as a relation: those of its loop thread,
  interleaved with the calls that other threads may make. The invariant says that the write interest follows the output buffer and that the connection
  callback ran once with the connection up and once with it down.
\<close>

section \<open>Calls from a callback\<close>

datatype conn_call =
    Call_send "byte list"
  | Call_send_input
  | Call_shutdown
  | Call_forceClose
  | Call_startRead
  | Call_stopRead
  | Call_retrieveAll

definition do_conn_call :: "('r, 'w) cenv \<Rightarrow> nat \<Rightarrow> nat \<Rightarrow> conn_call \<Rightarrow> ('r, 'm) cworld_scheme
    \<Rightarrow> ('r, 'm) cworld_scheme res" where
  "do_conn_call E tid c k w =
     (case k of
        Call_send message \<Rightarrow> send E tid c message w
      | Call_send_input \<Rightarrow>
          rbind (send_buffer E tid c (co_inputBuffer (conns w c)) w)
            (\<lambda>(b, w). Inr (upd_conn c (\<lambda>co. co\<lparr>co_inputBuffer := b\<rparr>) w))
      | Call_shutdown \<Rightarrow> shutdown tid c w
      | Call_forceClose \<Rightarrow> Inr (forceClose tid c w)
      | Call_startRead \<Rightarrow> startRead E tid c w
      | Call_stopRead \<Rightarrow> stopRead E tid c w
      | Call_retrieveAll \<Rightarrow> Inr (defaultMessageCallback (en_buffer E) c w))"

definition run_calls :: "('r, 'w) cenv \<Rightarrow> nat \<Rightarrow> nat \<Rightarrow> (('r, 'm) cworld_scheme \<Rightarrow> conn_call) list
    \<Rightarrow> ('r, 'm) cworld_scheme \<Rightarrow> ('r, 'm) cworld_scheme res" where
  "run_calls E tid c ks w = runs (\<lambda>k w. do_conn_call E tid c (k w) w) ks w"

lemma op_ok_input:
  assumes "conn_inv E tid c w" and "bo_wf (en_buffer E) b"
  shows "op_ok E tid c [] w (upd_conn c (\<lambda>co. co\<lparr>co_inputBuffer := b\<rparr>) w)"
proof -
  let ?v = "upd_conn c (\<lambda>co. co\<lparr>co_inputBuffer := b\<rparr>) w"
  have fr: "conn_frame c w ?v" by (simp add: conn_frame_def)
  have "conn_inv E tid c ?v"
    by (rule conn_inv_cong [OF assms(1) fr]) (use conn_invD [OF assms(1)] assms(2) in simp_all)
  with fr show ?thesis by (simp add: op_ok_def stream_def edge_def)
qed

lemma op_ok_inv: "op_ok E tid c a w w' \<Longrightarrow> conn_inv E tid c w'"
  by (simp add: op_ok_def)

lemma op_ok_reading:
  assumes inv: "conn_inv E tid c w" and "chan_frame (co_channel (conns w c)) f w v"
    and "f = set_reading \<or> f = clear_reading"
  shows "op_ok E tid c [] w (upd_conn c (\<lambda>co. co\<lparr>co_reading := b\<rparr>) v)"
proof -
  let ?x = "upd_conn c (\<lambda>co. co\<lparr>co_reading := b\<rparr>) v"
  note f = chan_frameD [OF assms(2)] and i = conn_invD [OF inv]
  have fr: "conn_frame c w ?x" using f(1) by (simp add: conn_frame_def)
  have "isWriting (f (conn_chan c w)) = isWriting (conn_chan c w)"
    "ch_loop (f (conn_chan c w)) = ch_loop (conn_chan c w)" "ch_fd (f (conn_chan c w)) = ch_fd (conn_chan c w)"
    using assms(3) by (auto simp: isWriting_ops)
  then have "conn_inv E tid c ?x"
    by (intro conn_inv_cong [OF inv fr]) (use i f in simp_all)
  with fr f(1,2) show ?thesis by (simp add: op_ok_def stream_def edge_def)
qed

lemma startReadInLoop_ok:
  assumes env: "env_ok E" and inv: "conn_inv E tid c w"
  shows "\<exists>w'. startReadInLoop E tid c w = Inr w' \<and> op_ok E tid c [] w w'"
proof (cases "co_reading (conns w c) \<and> isReading (conn_chan c w)")
  case True
  then show ?thesis
    using conn_invD(1) [OF inv] op_ok_refl [OF inv] by (simp add: startReadInLoop_def assertInLoopThread_def)
next
  case False
  obtain v where v: "enableReading (en_poller E) tid (co_channel (conns w c)) w = Inr v"
      "chan_frame (co_channel (conns w c)) set_reading w v"
    using chan_ops_frame(1) [OF env_okD(2) [OF env], of tid w "co_channel (conns w c)"] conn_invD [OF inv]
    by auto
  with False conn_invD(1) [OF inv] op_ok_reading [OF inv v(2)] show ?thesis
    by (auto simp: startReadInLoop_def assertInLoopThread_def)
qed

lemma stopReadInLoop_ok:
  assumes env: "env_ok E" and inv: "conn_inv E tid c w"
  shows "\<exists>w'. stopReadInLoop E tid c w = Inr w' \<and> op_ok E tid c [] w w'"
proof (cases "co_reading (conns w c) \<or> isReading (conn_chan c w)")
  case False
  then show ?thesis
    using conn_invD(1) [OF inv] op_ok_refl [OF inv] by (simp add: stopReadInLoop_def assertInLoopThread_def)
next
  case True
  obtain v where v: "disableReading (en_poller E) tid (co_channel (conns w c)) w = Inr v"
      "chan_frame (co_channel (conns w c)) clear_reading w v"
    using chan_ops_frame(2) [OF env_okD(2) [OF env], of tid w "co_channel (conns w c)"] conn_invD [OF inv]
    by auto
  with True conn_invD(1) [OF inv] op_ok_reading [OF inv v(2)] show ?thesis
    by (auto simp: stopReadInLoop_def assertInLoopThread_def)
qed

lemma forceClose_ok:
  assumes "conn_inv E tid c w"
  shows "op_ok E tid c [] w (forceClose t c w)"
proof (cases "may_close (conns w c)")
  case True
  then have s: "op_ok E tid c [] w (setState c kDisconnecting w)"
    using op_ok_setState [OF assms] by (simp add: may_close_def)
  then show ?thesis
    using op_ok_trans [OF s op_ok_queue [OF op_ok_inv [OF s]]] True by (simp add: forceClose_def forceClose_rest_def)
qed (simp add: forceClose_def forceClose_rest_def op_ok_refl [OF assms])

lemma sendInLoop_total:
  assumes "env_ok E" and "conn_inv E tid c w"
  shows "\<exists>w' acc. sendInLoop E tid c data w = Inr w' \<and> op_ok E tid c acc w w'"
proof (cases "co_state (conns w c) = kDisconnected")
  case True
  then show ?thesis
    using conn_invD(1) [OF assms(2)] op_ok_refl [OF assms(2)]
    by (auto simp: sendInLoop_def assertInLoopThread_def)
next
  case False
  then show ?thesis using sendInLoop_ok [OF assms False, of data] by blast
qed

lemma do_conn_call_ok:
  assumes env: "env_ok E" and inv: "conn_inv E tid c w"
  shows "\<exists>w' acc. do_conn_call E tid c k w = Inr w' \<and> op_ok E tid c acc w w'"
proof (cases k)
  case (Call_send m)
  then show ?thesis
    using conn_invD(1) [OF inv] sendInLoop_total [OF assms, of m] op_ok_refl [OF inv]
    by (auto simp: do_conn_call_def send_def send_rest_def)
next
  case Call_send_input
  let ?b = "co_inputBuffer (conns w c)"
  show ?thesis
  proof (cases "co_state (conns w c) = kConnected")
    case True
    obtain v acc where v: "sendInLoop E tid c (bo_readable (en_buffer E) ?b) w = Inr v" "op_ok E tid c acc w v"
      using sendInLoop_total [OF assms] by blast
    have "bo_wf (en_buffer E) (bo_retrieveAll (en_buffer E) ?b)"
      by (rule buffer_okD(6) [OF env_okD(3) [OF env] conn_invD(4) [OF inv]])
    from op_ok_trans [OF v(2) op_ok_input [OF op_ok_inv [OF v(2)] this]] v(1) True
    show ?thesis using conn_invD(1) [OF inv] Call_send_input
      by (auto simp: do_conn_call_def send_buffer_def)
  next
    case False
    then show ?thesis
      using op_ok_input [OF inv conn_invD(4) [OF inv]] Call_send_input
      by (auto simp: do_conn_call_def send_buffer_def)
  qed
next
  case Call_retrieveAll
  have "defaultMessageCallback (en_buffer E) c w =
      upd_conn c (\<lambda>co. co\<lparr>co_inputBuffer := bo_retrieveAll (en_buffer E) (co_inputBuffer (conns w c))\<rparr>) w"
    by (simp add: defaultMessageCallback_def upd_conn_def)
  then show ?thesis
    using op_ok_input [OF inv buffer_okD(6) [OF env_okD(3) [OF env] conn_invD(4) [OF inv]]] Call_retrieveAll
    by (auto simp: do_conn_call_def)
qed (use shutdown_ok [OF inv] forceClose_ok [OF inv] startReadInLoop_ok [OF assms] stopReadInLoop_ok [OF assms]
      conn_invD(1) [OF inv] in \<open>auto simp: do_conn_call_def startRead_def stopRead_def runInLoop_def\<close>)

lemma run_calls_ok:
  assumes "env_ok E" and "conn_inv E tid c w"
  shows "\<exists>w' acc. run_calls E tid c ks w = Inr w' \<and> op_ok E tid c acc w w'"
  using assms(2)
proof (induction ks arbitrary: w)
  case Nil
  then show ?case using op_ok_refl [OF Nil.prems] by (auto simp: run_calls_def)
next
  case (Cons k ks)
  obtain v a where v: "do_conn_call E tid c (k w) w = Inr v" "op_ok E tid c a w v"
    using do_conn_call_ok [OF assms(1) Cons.prems] by blast
  obtain x b where "run_calls E tid c ks v = Inr x" "op_ok E tid c b v x"
    using Cons.IH [OF op_ok_inv [OF v(2)]] by blast
  with v op_ok_trans [OF v(2)] show ?case by (auto simp: run_calls_def)
qed

section \<open>Handlers with callbacks\<close>

text \<open>The user's callbacks are scripts of calls on their connection, and the close callback
  touches neither the connection nor its channel.\<close>

definition callbacks_ok :: "('r, ('r, 'm) cworld_scheme) cenv \<Rightarrow> nat \<Rightarrow> nat
    \<Rightarrow> (nat \<Rightarrow> (('r, 'm) cworld_scheme \<Rightarrow> conn_call) list) \<Rightarrow> bool" where
  "callbacks_ok E tid c script \<longleftrightarrow>
     (\<forall>i w. en_user E i c w = run_calls E tid c (script i) w) \<and>
     (\<forall>s w w'. en_close E s c w = Inr w' \<longrightarrow>
        conns w' = conns w \<and> chans w' = chans w \<and> sys w' = sys w \<and>
        (\<forall>t l. isInLoopThread t l w' = isInLoopThread t l w))"

lemma connectionCallback_ok:
  assumes env: "env_ok E" and cb: "callbacks_ok E tid c script" and inv: "conn_inv E tid c w"
    and r: "connectionCallback E c w = Inr w'"
  shows "conn_inv E tid c w' \<and> conn_frame c w w' \<and> edge (co_state (conns w c)) (co_state (conns w' c))
    \<and> hist c (sys w') = hist c (sys w) @ [connected (conns w c)]
    \<and> (\<exists>acc. stream E c w' = stream E c w @ acc)"
proof -
  let ?u = "log_sys (Ev_connection c (connected (conns w c))) w"
  have iu: "conn_inv E tid c ?u" using inv by (simp add: conn_inv_def conn_wf_def)
  have "\<exists>acc. op_ok E tid c acc ?u w'"
  proof (cases "co_connectionCallback (conns w c)")
    case None
    then show ?thesis using r by (simp add: connectionCallback_def)
  next
    case (Some f)
    then show ?thesis
      using r op_ok_refl [OF iu] run_calls_ok [OF env iu] cb
      by (cases f)
        (auto simp: connectionCallback_def defaultConnectionCallback_def callbacks_ok_def, metis sum.inject(2))
  qed
  then show ?thesis by (auto simp: op_ok_def stream_def conn_frame_def)
qed

lemma closeCallback_ok:
  assumes "callbacks_ok E tid c script" and "conn_inv E tid c w" and "closeCallback E c w = Inr w'"
  shows "op_ok E tid c [] w w' \<and> conns w' = conns w"
  using assms
  by (auto simp: closeCallback_def callbacks_ok_def op_ok_def stream_def edge_def conn_frame_eq
      conn_inv_def conn_wf_def split: option.splits)

text \<open>The down transition that \<open>handleClose\<close> and \<open>connectDestroyed\<close> share.\<close>

lemma go_down:
  assumes env: "env_ok E" and inv: "conn_inv E tid c w"
    and r: "disableAll (en_poller E) tid (co_channel (conns w c)) (setState c kDisconnected w) = Inr v"
  shows "conn_inv E tid c v" "conns v = (conns w)(c := (conns w c)\<lparr>co_state := kDisconnected\<rparr>)"
    "sys v = sys w" "isNoneEvent (conn_chan c v)"
proof -
  let ?u = "setState c kDisconnected w"
  note i = conn_invD [OF inv]
  have "chan_frame (co_channel (conns w c)) clear_all ?u v"
    using chan_ops_frame(5) [OF env_okD(2) [OF env], of tid ?u "co_channel (conns w c)"] i r by auto
  note f = chan_frameD [OF this]
  show cv: "conns v = (conns w)(c := (conns w c)\<lparr>co_state := kDisconnected\<rparr>)" and "sys v = sys w"
    using f(1,2) by simp_all
  show "isNoneEvent (conn_chan c v)" using f(9) cv by (simp add: isNoneEvent_def clear_all_def)
  have fr: "conn_frame c w v" using cv by (simp add: conn_frame_def)
  show "conn_inv E tid c v"
    by (rule conn_inv_cong [OF inv fr]) (use i f cv in \<open>simp_all add: isWriting_ops\<close>)
qed

text \<open>The calls that another thread may make. Each is atomic here: its test of \<open>state_\<close> and what follows are one
  step.\<close>

fun thread_safe :: "conn_call \<Rightarrow> bool" where
  "thread_safe (Call_send message) = True"
| "thread_safe Call_shutdown = True"
| "thread_safe Call_forceClose = True"
| "thread_safe Call_startRead = True"
| "thread_safe Call_stopRead = True"
| "thread_safe Call_send_input = False"
| "thread_safe Call_retrieveAll = False"

lemma foreign_call_ok:
  assumes inv: "conn_inv E tid c w" and t: "\<not> isInLoopThread t (co_loop (conns w c)) w" and "thread_safe k"
  shows "\<exists>w'. do_conn_call E t c k w = Inr w' \<and> op_ok E tid c [] w w'"
proof (cases k)
  case Call_shutdown
  have "\<exists>w'. shutdown_rest t c w = Inr w' \<and> op_ok E tid c [] w w'" if "co_state (conns w c) = kConnected"
  proof -
    have s: "op_ok E tid c [] w (setState c kDisconnecting w)" using op_ok_setState [OF inv] that by simp
    from op_ok_trans [OF s op_ok_queue [OF op_ok_inv [OF s]]] t show ?thesis
      by (simp add: shutdown_rest_def runInLoop_def isInLoopThread_def)
  qed
  then show ?thesis using Call_shutdown op_ok_refl [OF inv] by (simp add: do_conn_call_def shutdown_def)
qed (use t op_ok_refl [OF inv] op_ok_queue [OF inv] forceClose_ok [OF inv] assms(3) in
  \<open>auto simp: do_conn_call_def send_def send_rest_def startRead_def stopRead_def runInLoop_def\<close>)

section \<open>Steps of a connection\<close>

definition hist_ok :: "nat \<Rightarrow> ('r, 'm) cworld_scheme \<Rightarrow> bool" where
  "hist_ok c w \<longleftrightarrow>
     hist c (sys w) =
       (case co_state (conns w c) of
          kConnecting \<Rightarrow> [] | kConnected \<Rightarrow> [True] | kDisconnecting \<Rightarrow> [True]
        | kDisconnected \<Rightarrow> [True, False])"

definition life_ok :: "('r, 'w) cenv \<Rightarrow> nat \<Rightarrow> nat \<Rightarrow> ('r, 'm) cworld_scheme
    \<Rightarrow> ('r, 'm) cworld_scheme \<Rightarrow> bool" where
  "life_ok E tid c w w' \<longleftrightarrow>
     conn_inv E tid c w' \<and> conn_frame c w w' \<and> hist_ok c w' \<and> (\<exists>acc. stream E c w' = stream E c w @ acc)"

datatype conn_op =
    Op_call conn_call
  | Op_sendInLoop "byte list"
  | Op_shutdownInLoop
  | Op_forceCloseInLoop
  | Op_connectEstablished
  | Op_connectDestroyed
  | Op_handleRead
  | Op_handleWrite
  | Op_handleClose
  | Op_handleError

definition do_op :: "('r, ('r, 'm) cworld_scheme) cenv \<Rightarrow> nat \<Rightarrow> nat \<Rightarrow> conn_op \<Rightarrow> ('r, 'm) cworld_scheme
    \<Rightarrow> ('r, 'm) cworld_scheme res" where
  "do_op E tid c op w =
     (case op of
        Op_call k \<Rightarrow> do_conn_call E tid c k w
      | Op_sendInLoop data \<Rightarrow> sendInLoop E tid c data w
      | Op_shutdownInLoop \<Rightarrow> shutdownInLoop tid c w
      | Op_forceCloseInLoop \<Rightarrow> forceCloseInLoop E tid c w
      | Op_connectEstablished \<Rightarrow> connectEstablished E tid c w
      | Op_connectDestroyed \<Rightarrow> connectDestroyed E tid c w
      | Op_handleRead \<Rightarrow> conn_handleRead E tid c w
      | Op_handleWrite \<Rightarrow> handleWrite E tid c w
      | Op_handleClose \<Rightarrow> handleClose E tid c w
      | Op_handleError \<Rightarrow> Inr (handleError E c w))"

inductive conn_step :: "('r, ('r, 'm) cworld_scheme) cenv \<Rightarrow> nat \<Rightarrow> nat \<Rightarrow> ('r, 'm) cworld_scheme
    \<Rightarrow> ('r, 'm) cworld_scheme \<Rightarrow> bool" for E tid c where
  op_step: "do_op E tid c op w = Inr w' \<Longrightarrow> conn_step E tid c w w'"
| foreign_step: "\<not> isInLoopThread t (co_loop (conns w c)) w \<Longrightarrow> thread_safe k \<Longrightarrow> do_conn_call E t c k w = Inr w' \<Longrightarrow>
    conn_step E tid c w w'"

inductive_cases conn_stepE: "conn_step E tid c w w'"

lemma life_op:
  assumes "hist_ok c w" and "op_ok E tid c acc w w'"
  shows "life_ok E tid c w w'"
  using assms by (auto simp: life_ok_def op_ok_def hist_ok_def edge_def)

lemma life_trans: "life_ok E tid c u v \<Longrightarrow> life_ok E tid c v w \<Longrightarrow> life_ok E tid c u w"
  by (auto simp: life_ok_def intro: conn_frame_trans)

lemma handleClose_ok:
  assumes env: "env_ok E" and cb: "callbacks_ok E tid c script" and inv: "conn_inv E tid c w"
    and h: "hist_ok c w" and r: "handleClose E tid c w = Inr w'"
  shows "life_ok E tid c w w' \<and> co_state (conns w' c) = kDisconnected"
proof -
  obtain v x where v: "may_close (conns w c)"
      "disableAll (en_poller E) tid (co_channel (conns w c)) (setState c kDisconnected w) = Inr v"
      "connectionCallback E c v = Inr x" "closeCallback E c x = Inr w'"
    using r by (auto simp: handleClose_def assertInLoopThread_def)
  note d = go_down [OF env inv v(2)]
  note k = connectionCallback_ok [OF env cb d(1) v(3)]
  have ix: "conn_inv E tid c x" using k by blast
  note z = closeCallback_ok [OF cb ix v(4)]
  have st: "co_state (conns x c) = kDisconnected" using k d(2) by (simp add: edge_def)
  have "hist c (sys w) = [True]" using h v(1) by (auto simp: hist_ok_def may_close_def)
  then have "hist_ok c x" using k d st by (simp add: hist_ok_def connected_def)
  moreover have "stream E c v = stream E c w" using d by (simp add: stream_def)
  moreover have "conn_frame c w v" using d(2) by (simp add: conn_frame_def)
  ultimately have "life_ok E tid c w x" using k by (auto simp: life_ok_def intro: conn_frame_trans)
  moreover have "life_ok E tid c x w'" using life_op \<open>hist_ok c x\<close> z by blast
  ultimately show ?thesis using z st life_trans by fastforce
qed

lemma forceCloseInLoop_ok:
  assumes "env_ok E" and "callbacks_ok E tid c script" and "conn_inv E tid c w" and "hist_ok c w"
    and r: "forceCloseInLoop E tid c w = Inr w'"
  shows "life_ok E tid c w w'"
proof (cases "may_close (conns w c)")
  case True
  then have "handleClose E tid c w = Inr w'" using r by (simp add: forceCloseInLoop_def assertInLoopThread_def)
  then show ?thesis using handleClose_ok [OF assms(1-4)] by blast
next
  case False
  then have "w' = w" using r by (simp add: forceCloseInLoop_def assertInLoopThread_def)
  then show ?thesis using life_op [OF assms(4) op_ok_refl [OF assms(3)]] by simp
qed

lemma connectEstablished_ok:
  assumes env: "env_ok E" and cb: "callbacks_ok E tid c script" and inv: "conn_inv E tid c w"
    and h: "hist_ok c w" and r: "connectEstablished E tid c w = Inr w'"
  shows "life_ok E tid c w w'"
proof -
  let ?u = "upd_chan (co_channel (conns w c)) (ch_tie_to c) (setState c kConnected w)"
  obtain v where v: "co_state (conns w c) = kConnecting"
      "enableReading (en_poller E) tid (co_channel (conns w c)) ?u = Inr v" "connectionCallback E c v = Inr w'"
    using r by (auto simp: connectEstablished_def assertInLoopThread_def Let_def)
  note i = conn_invD [OF inv]
  have tie: "ch_loop (ch_tie_to c ch) = ch_loop ch" "ch_fd (ch_tie_to c ch) = ch_fd ch"
    "isWriting (ch_tie_to c ch) = isWriting ch" for ch by (simp_all add: ch_tie_to_def isWriting_def)
  have "chan_frame (co_channel (conns w c)) set_reading ?u v"
    using chan_ops_frame(1) [OF env_okD(2) [OF env], of tid ?u "co_channel (conns w c)"] i v(2) tie by auto
  note f = chan_frameD [OF this]
  have fr: "conn_frame c w v" using f(1) by (simp add: conn_frame_def)
  have iv: "conn_inv E tid c v"
    by (rule conn_inv_cong [OF inv fr]) (use i f v(1) tie in \<open>simp_all add: isWriting_ops\<close>)
  note k = connectionCallback_ok [OF env cb iv v(3)]
  have "hist c (sys w) = []" using h v(1) by (simp add: hist_ok_def)
  then have "hist_ok c w'" using k f(1,2) by (auto simp: hist_ok_def connected_def edge_def)
  moreover have "stream E c v = stream E c w" using f(1,2) by (simp add: stream_def)
  ultimately show ?thesis using k fr by (auto simp: life_ok_def intro: conn_frame_trans)
qed

lemma ch_remove_frame:
  assumes "poller_ok P" and "ch_remove P tid ch w = Inr w'"
  shows "chan_frame ch id w w'" "isNoneEvent (chans w ch)"
proof -
  obtain i where "ch_remove P tid ch w = check (isNoneEvent (chans w ch)) Assertion_failed
     (check (isInLoopThread tid (ch_loop (chans w ch)) w) Not_in_loop_thread
       (check (may_remove ch w) Assertion_failed (Inr (unregistered i ch w))))"
    using ch_remove_eq [OF assms(1)] by blast
  then have "w' = unregistered i ch w" "isNoneEvent (chans w ch)" using assms(2) by simp_all
  then show "chan_frame ch id w w'" "isNoneEvent (chans w ch)"
    by (auto simp: chan_frame_def unregistered_def)
qed

lemma connectDestroyed_ok:
  assumes env: "env_ok E" and cb: "callbacks_ok E tid c script" and inv: "conn_inv E tid c w"
    and h: "hist_ok c w" and r: "connectDestroyed E tid c w = Inr w'"
  shows "life_ok E tid c w w'"
proof -
  obtain x where x: "(if co_state (conns w c) = kConnected
         then rbind (disableAll (en_poller E) tid (co_channel (conns w c)) (setState c kDisconnected w))
                (connectionCallback E c) else Inr w) = Inr x"
      "ch_remove (en_poller E) tid (co_channel (conns x c)) x = Inr w'"
    using r by (auto simp: connectDestroyed_def assertInLoopThread_def)
  have lx: "life_ok E tid c w x"
  proof (cases "co_state (conns w c) = kConnected")
    case True
    then obtain v where v: "disableAll (en_poller E) tid (co_channel (conns w c)) (setState c kDisconnected w) = Inr v"
        "connectionCallback E c v = Inr x" using x(1) by auto
    note d = go_down [OF env inv v(1)]
    note k = connectionCallback_ok [OF env cb d(1) v(2)]
    have "hist_ok c x" using h True k d by (simp add: hist_ok_def edge_def connected_def)
    moreover have "stream E c v = stream E c w" "conn_frame c w v"
      using d by (simp_all add: stream_def conn_frame_def)
    ultimately show ?thesis using k by (auto simp: life_ok_def intro: conn_frame_trans)
  next
    case False
    then show ?thesis using x(1) life_op [OF h op_ok_refl [OF inv]] by simp
  qed
  then have ix: "conn_inv E tid c x" "hist_ok c x" by (simp_all add: life_ok_def)
  note f = chan_frameD [OF ch_remove_frame(1) [OF env_okD(2) [OF env] x(2)]]
  have "op_ok E tid c [] x w'"
    using ix(1) f by (simp add: op_ok_def conn_frame_eq stream_def edge_def conn_inv_def conn_wf_def)
  from life_trans [OF lx life_op [OF ix(2) this]] show ?thesis .
qed

lemma messageCallback_ok:
  assumes env: "env_ok E" and cb: "callbacks_ok E tid c script" and v: "conn_inv E tid c v" "hist_ok c v"
    and m: "messageCallback E c v = Inr w'"
  shows "life_ok E tid c v w'"
proof -
  let ?x = "log_sys (Ev_message c) v"
  have ox: "op_ok E tid c [] v ?x" by (rule op_ok_log [OF v(1)]) simp_all
  obtain f where f: "co_messageCallback (conns v c) = Some f"
    using m by (auto simp: messageCallback_def Let_def split: option.splits)
  have "\<exists>k. run_calls E tid c k ?x = Inr w'"
    using m f cb
    by (cases f) (auto simp: messageCallback_def Let_def callbacks_ok_def run_calls_def do_conn_call_def
        intro: exI [of _ "[\<lambda>_. Call_retrieveAll]"])
  then obtain acc where "op_ok E tid c acc ?x w'"
    using run_calls_ok [OF env op_ok_inv [OF ox]] by (metis sum.inject(2))
  from op_ok_trans [OF ox this] show ?thesis by (rule life_op [OF v(2)])
qed

lemma conn_handleRead_ok:
  assumes env: "env_ok E" and cb: "callbacks_ok E tid c script" and inv: "conn_inv E tid c w"
    and h: "hist_ok c w" and r: "conn_handleRead E tid c w = Inr w'"
  shows "life_ok E tid c w w'"
proof -
  obtain n e b u where u: "readFd (en_os E) (en_buffer E) (ch_fd (conn_chan c w))
      (co_inputBuffer (conns w c)) w = (n, e, b, u)" by (cases rule: prod_cases4) auto
  let ?v = "upd_conn c (\<lambda>co. co\<lparr>co_inputBuffer := b\<rparr>) u"
  have rd: "bo_wf (en_buffer E) b \<and> (\<exists>d. u = log_sys (Ev_readv (ch_fd (conn_chan c w)) d) w)"
    using env_okD(3) [OF env] env_okD(1) [OF env] conn_invD(4) [OF inv] u
    by (cases rule: readFd_cases) (use conn_invD(4) [OF inv] in auto)
  then obtain d where d: "u = log_sys (Ev_readv (ch_fd (conn_chan c w)) d) w" by blast
  have ou: "op_ok E tid c [] w u" unfolding d by (rule op_ok_log [OF inv]) simp_all
  have ov: "op_ok E tid c [] w ?v"
    using op_ok_trans [OF ou op_ok_input [OF op_ok_inv [OF ou] conjunct1 [OF rd]]] by simp
  have v: "conn_inv E tid c ?v" "hist_ok c ?v" using ov life_op [OF h ov] by (simp_all add: op_ok_def life_ok_def)
  have eq: "conn_handleRead E tid c w = (if 0 < n then messageCallback E c ?v
      else if n = 0 then handleClose E tid c ?v else Inr (handleError E c ?v))"
    using conn_invD(1) [OF inv] by (simp add: conn_handleRead_def assertInLoopThread_def u)
  have "life_ok E tid c ?v w'"
  proof -
    consider "0 < n" | "n = 0" | "n < 0" by linarith
    then show ?thesis
    proof cases
      case 1
      then have "messageCallback E c ?v = Inr w'" using r [unfolded eq] by simp
      then show ?thesis by (rule messageCallback_ok [OF env cb v])
    next
      case 2
      then have "handleClose E tid c ?v = Inr w'" using r [unfolded eq] by simp
      then show ?thesis using handleClose_ok [OF env cb v] by blast
    next
      case 3
      then obtain fd where w': "w' = log_sys (Ev_getsockopt fd) ?v"
        using r [unfolded eq] by (auto simp: handleError_def getSocketError_def case_prod_beta Let_def)
      show ?thesis unfolding w' by (rule life_op [OF v(2) op_ok_log [OF v(1)]]) simp_all
    qed
  qed
  from life_trans [OF life_op [OF h ov] this] show ?thesis .
qed

end
