(* ===== verification/Tcp_Properties.thy ===== *)
theory Tcp_Properties
  imports Tcp_Lifecycle
begin

text \<open>
  The correctness of \<open>TcpConnection\<close>: every byte accepted for sending reaches the socket once and
  in order, the write interest follows the output buffer, the write side is shut down only
  after the buffer has drained, the connection callback runs once up and once down, and calls
  from other threads only queue their work.
\<close>

section \<open>The invariant of every run\<close>

definition life_inv :: "('r, ('r, 'm) cworld_scheme) cenv \<Rightarrow> nat \<Rightarrow> nat
    \<Rightarrow> (nat \<Rightarrow> (('r, 'm) cworld_scheme \<Rightarrow> conn_call) list) \<Rightarrow> ('r, 'm) cworld_scheme \<Rightarrow> bool" where
  "life_inv E tid c script w \<longleftrightarrow>
     env_ok E \<and> callbacks_ok E tid c script \<and> conn_inv E tid c w \<and> hist_ok c w"

text \<open>A new connection whose callbacks have been set.\<close>

definition conn_init :: "('r, ('r, 'm) cworld_scheme) cenv \<Rightarrow> nat \<Rightarrow> nat
    \<Rightarrow> (nat \<Rightarrow> (('r, 'm) cworld_scheme \<Rightarrow> conn_call) list) \<Rightarrow> ('r, 'm) cworld_scheme \<Rightarrow> bool" where
  "conn_init E tid c script w \<longleftrightarrow>
     env_ok E \<and> callbacks_ok E tid c script \<and>
     (\<exists>ch l name fd la pa cc mc wc clc u.
        w = upd_conn c (\<lambda>co. co\<lparr>co_connectionCallback := cc, co_messageCallback := mc,
              co_writeCompleteCallback := wc, co_closeCallback := clc\<rparr>)
              (new_connection E c ch l name fd la pa u) \<and>
        isInLoopThread tid l u \<and> hist c (sys u) = [])"

lemma init_life: "conn_init E tid c script w \<Longrightarrow> life_inv E tid c script w"
  unfolding conn_init_def
proof (elim conjE exE)
  fix ch l name fd la pa cc mc wc clc u
  assume env: "env_ok E" and cb: "callbacks_ok E tid c script"
    and w: "w = upd_conn c (\<lambda>co. co\<lparr>co_connectionCallback := cc, co_messageCallback := mc,
              co_writeCompleteCallback := wc, co_closeCallback := clc\<rparr>)
              (new_connection E c ch l name fd la pa u)"
    and th: "isInLoopThread tid l u" and h: "hist c (sys u) = []"
  have "\<not> isWriting (new_channel l fd)"
    by (simp add: isWriting_def new_channel_def)
  then have "\<not> isWriting ((new_channel l fd)\<lparr>ch_readCallback := a, ch_writeCallback := b,
      ch_closeCallback := d, ch_errorCallback := e\<rparr>)" for a b d e
    by (simp add: isWriting_def)
  then have "conn_inv E tid c w"
    using th buffer_ok_new [OF env_okD(3) [OF env]]
    by (simp add: w conn_inv_def conn_wf_def new_connection_def setKeepAlive_def Let_def new_channel_def)
  moreover have "hist_ok c w"
    using h by (simp add: w hist_ok_def new_connection_def setKeepAlive_def Let_def)
  ultimately show "life_inv E tid c script w" using env cb by (simp add: life_inv_def)
qed

lemma step_life_ok:
  assumes "life_inv E tid c script w" and "conn_step E tid c w w'"
  shows "life_ok E tid c w w'"
  using assms(2)
proof (cases rule: conn_step.cases)
  case (foreign_step t k)
  have "conn_inv E tid c w" "hist_ok c w" using assms(1) by (simp_all add: life_inv_def)
  then show ?thesis using foreign_call_ok [OF _ foreign_step(1,2)] foreign_step(3) life_op by fastforce
next
  case (op_step op)
  have i: "env_ok E" "callbacks_ok E tid c script" "conn_inv E tid c w" "hist_ok c w"
    using assms(1) by (simp_all add: life_inv_def)
  have fin: "life_ok E tid c w w'" if "\<exists>v acc. r = Inr v \<and> op_ok E tid c acc w v" "r = Inr w'" for r
    using that life_op [OF i(4)] by auto
  show ?thesis
  proof (cases op)
    case (Op_call k)
    then show ?thesis using fin [OF do_conn_call_ok [OF i(1,3), of k]] op_step by (simp add: do_op_def)
  next
    case (Op_sendInLoop d)
    then show ?thesis using fin [OF sendInLoop_total [OF i(1,3), of d]] op_step by (simp add: do_op_def)
  next
    case Op_shutdownInLoop
    have "\<exists>v acc. shutdownInLoop tid c w = Inr v \<and> op_ok E tid c acc w v"
      using shutdownInLoop_ok [OF i(3)] by (elim exE conjE) (intro exI conjI)
    from fin [OF this] show ?thesis using op_step Op_shutdownInLoop by (simp add: do_op_def)
  next
    case Op_handleWrite
    have "\<exists>v acc. handleWrite E tid c w = Inr v \<and> op_ok E tid c acc w v"
      using handleWrite_ok [OF i(1,3)] unfolding flushed_def by (elim exE conjE) (intro exI conjI)
    from fin [OF this] show ?thesis using op_step Op_handleWrite by (simp add: do_op_def)
  next
    case Op_handleError
    then obtain fd where w': "w' = log_sys (Ev_getsockopt fd) w"
      using op_step by (auto simp: do_op_def handleError_def getSocketError_def case_prod_beta Let_def)
    show ?thesis unfolding w' by (rule life_op [OF i(4) op_ok_log [OF i(3)]]) simp_all
  next
    case Op_handleClose
    then have "handleClose E tid c w = Inr w'" using op_step by (simp add: do_op_def)
    then show ?thesis using handleClose_ok [OF i] by blast
  next
    case Op_forceCloseInLoop
    then have "forceCloseInLoop E tid c w = Inr w'" using op_step by (simp add: do_op_def)
    then show ?thesis by (rule forceCloseInLoop_ok [OF i])
  next
    case Op_connectEstablished
    then have "connectEstablished E tid c w = Inr w'" using op_step by (simp add: do_op_def)
    then show ?thesis by (rule connectEstablished_ok [OF i])
  next
    case Op_connectDestroyed
    then have "connectDestroyed E tid c w = Inr w'" using op_step by (simp add: do_op_def)
    then show ?thesis by (rule connectDestroyed_ok [OF i])
  next
    case Op_handleRead
    then have "conn_handleRead E tid c w = Inr w'" using op_step by (simp add: do_op_def)
    then show ?thesis by (rule conn_handleRead_ok [OF i])
  qed
qed

lemma step_life: "life_inv E tid c script w \<Longrightarrow> conn_step E tid c w w' \<Longrightarrow> life_inv E tid c script w'"
  using step_life_ok [of E tid c script w w'] by (simp add: life_inv_def life_ok_def)

interpretation life: inductive_invariant "conn_init E tid c script" "conn_step E tid c" "life_inv E tid c script"
  for E tid c script
  by unfold_locales (auto intro: init_life step_life)

interpretation send_op: in_loop_op "\<lambda>tid. sendInLoop E tid c data" "\<lambda>w. co_loop (conns w c)" for E c data
  by unfold_locales (simp add: sendInLoop_def assertInLoopThread_def)

interpretation shutdown_op: in_loop_op "\<lambda>tid. shutdownInLoop tid c" "\<lambda>w. co_loop (conns w c)" for c
  by unfold_locales (simp add: shutdownInLoop_def assertInLoopThread_def)

interpretation startRead_op: in_loop_op "\<lambda>tid. startReadInLoop E tid c" "\<lambda>w. co_loop (conns w c)" for E c
  by unfold_locales (simp add: startReadInLoop_def assertInLoopThread_def)

interpretation stopRead_op: in_loop_op "\<lambda>tid. stopReadInLoop E tid c" "\<lambda>w. co_loop (conns w c)" for E c
  by unfold_locales (simp add: stopReadInLoop_def assertInLoopThread_def)

interpretation addTimer_op: in_loop_op "\<lambda>tid. addTimerInLoop TS tid l a" "\<lambda>w. l" for TS l a
  by unfold_locales (simp add: addTimerInLoop_def assertInLoopThread_def)

interpretation cancel_op: in_loop_op "\<lambda>tid. cancelInLoop tid l i" "\<lambda>w. l" for l i
  by unfold_locales (simp add: cancelInLoop_def assertInLoopThread_def)

section \<open>A sample connection\<close>

text \<open>A connected socket 5 on loop 0 of thread 7, with a kernel that leaves the last byte of every
  write.\<close>

definition sample_poller :: poller_ops where
  "sample_poller = \<lparr>pl_updateChannel = (\<lambda>c ch m. (ch\<lparr>ch_index := 1\<rparr>, m(ch_fd ch \<mapsto> c))),
     pl_removeChannel = (\<lambda>c ch m. (ch\<lparr>ch_index := -1\<rparr>, m(ch_fd ch := None)))\<rparr>"

definition sample_ts_api :: ts_api where
  "sample_ts_api = \<lparr>ts_default = 0, ts_invalid = 0, ts_valid = (\<lambda>t. 0 < t),
     ts_addTime = (\<lambda>t s. t + \<lfloor>s * 1000000\<rfloor>), ts_usPerSecond = 1000000\<rparr>"

definition sample_env :: "(nat, nat cworld) cenv" where
  "sample_env = \<lparr>en_os = sample_os, en_poller = sample_poller, en_buffer = vector_ops,
     en_ts = sample_ts_api, en_alloc = (\<lambda>_. None), en_user = (\<lambda>_ _ w. Inr w), en_close = (\<lambda>_ _ w. Inr w)\<rparr>"

definition empty_queue :: timer_queue where
  "empty_queue = \<lparr>tq_timerfd = 9, tq_channel = 9, tq_timers = [], tq_activeTimers = [],
     tq_callingExpiredTimers = False, tq_cancelingTimers = [], tq_armed = None\<rparr>"

definition some_conn :: "nat conn" where
  "some_conn = \<lparr>co_loop = 0, co_name = [], co_state = kDisconnected, co_reading = False, co_socket = 0,
     co_channel = 0, co_localAddr = zero_addr, co_peerAddr = zero_addr, co_connectionCallback = None,
     co_messageCallback = None, co_writeCompleteCallback = None, co_highWaterMarkCallback = None,
     co_closeCallback = None, co_highWaterMark = 0, co_inputBuffer = bo_new vector_ops,
     co_outputBuffer = bo_new vector_ops, co_context = None\<rparr>"

definition blank_cworld :: "nat cworld" where
  "blank_cworld = \<lparr>loops = (\<lambda>_. fresh_event_loop 7), chans = (\<lambda>_. new_channel 0 0),
     threadLoop = (\<lambda>_. None), live = (\<lambda>_. True), sys = [], tqs = (\<lambda>_. empty_queue),
     theap = (\<lambda>_. None), numCreated = 0, clock = 0, conns = (\<lambda>_. some_conn)\<rparr>"

definition sample_conn :: "nat cworld" where
  "sample_conn = upd_conn 1 (\<lambda>co. co\<lparr>co_connectionCallback := Some CB_defaultConnection,
       co_messageCallback := Some CB_defaultMessage, co_writeCompleteCallback := None,
       co_closeCallback := Some 0\<rparr>)
     (new_connection sample_env 1 2 0 ''c'' 5 zero_addr zero_addr blank_cworld)"

lemma sample_poller_ok: "poller_ok sample_poller"
  by (auto simp: poller_ok_def sample_poller_def)

lemma sample_env_fields [simp]:
  "en_os sample_env = sample_os" "en_poller sample_env = sample_poller" "en_buffer sample_env = vector_ops"
  "en_user sample_env = (\<lambda>_ _ w. Inr w)" "en_close sample_env = (\<lambda>_ _ w. Inr w)"
  by (simp_all add: sample_env_def)

lemma sample_env_ok: "env_ok sample_env"
  by (simp add: env_ok_def sample_os_ok sample_poller_ok vector_ops_ok)

lemma sample_callbacks_ok: "callbacks_ok sample_env 7 1 (\<lambda>_. [])"
  by (simp add: callbacks_ok_def run_calls_def)

lemma sample_conn_init: "conn_init sample_env 7 1 (\<lambda>_. []) sample_conn"
proof -
  have "isInLoopThread 7 0 blank_cworld"
    by (simp add: isInLoopThread_def blank_cworld_def fresh_event_loop_def)
  moreover have "hist 1 (sys blank_cworld) = []" by (simp add: blank_cworld_def)
  ultimately show ?thesis
    unfolding conn_init_def sample_conn_def using sample_env_ok sample_callbacks_ok by blast
qed

lemma sample_conn_inv: "conn_inv sample_env 7 1 sample_conn"
  using init_life [OF sample_conn_init] by (simp add: life_inv_def)

lemma sample_conn_fields:
  "co_state (conns sample_conn 1) = kConnecting" "co_socket (conns sample_conn 1) = 5"
  "outgoing sample_env 1 sample_conn = []" "written 5 (sys sample_conn) = []"
  "co_loop (conns sample_conn 1) = 0" "co_channel (conns sample_conn 1) = 2"
  "sys sample_conn = [Ev_setsockopt 5 ''SO_KEEPALIVE'' True]"
  by (simp_all add: sample_conn_def new_connection_def setKeepAlive_def Let_def blank_cworld_def
      vector_ops_def written_def)

lemma sample_conn_established:
  "\<exists>w. connectEstablished sample_env 7 1 sample_conn = Inr w \<and> co_state (conns w 1) = kConnected"
proof -
  let ?u = "upd_chan 2 (ch_tie_to 1) (setState 1 kConnected sample_conn)"
  note i = conn_invD(1,2) [OF sample_conn_inv, unfolded sample_conn_fields]
  obtain v where v: "enableReading sample_poller 7 2 ?u = Inr v" "chan_frame 2 set_reading ?u v"
    using chan_ops_frame(1) [OF sample_poller_ok, of 7 ?u 2] i by (auto simp: ch_tie_to_def)
  have "co_connectionCallback (conns sample_conn 1) = Some CB_defaultConnection" by (simp add: sample_conn_def)
  then show ?thesis
    using v(1) i(1) chan_frameD(1) [OF v(2)] sample_conn_fields(1,5,6)
    by (simp add: connectEstablished_def assertInLoopThread_def connectionCallback_def defaultConnectionCallback_def Let_def)
qed

text \<open>The same connection, established, with two bytes waiting.\<close>

definition sample_busy :: "nat cworld" where
  "sample_busy = upd_chan 2 set_writing
     (upd_conn 1 (\<lambda>co. co\<lparr>co_state := kConnected,
        co_outputBuffer := bo_append vector_ops [1, 2] (co_outputBuffer co)\<rparr>) sample_conn)"

lemma sample_busy_fields:
  "co_state (conns sample_busy 1) = kConnected" "outgoing sample_env 1 sample_busy = [1, 2]"
  "co_socket (conns sample_busy 1) = 5" "co_loop (conns sample_busy 1) = 0"
  "co_channel (conns sample_busy 1) = 2"
  using sample_conn_fields buffer_okD(3) [OF vector_ops_ok, of "co_outputBuffer (conns sample_conn 1)"]
    conn_invD(5) [OF sample_conn_inv]
  by (simp_all add: sample_busy_def)

lemma sample_busy_inv: "conn_inv sample_env 7 1 sample_busy"
proof -
  have "conn_frame 1 sample_conn sample_busy" by (simp add: conn_frame_def sample_busy_def)
  then show ?thesis
    by (rule conn_inv_cong [OF sample_conn_inv])
      (use conn_invD [OF sample_conn_inv] sample_busy_fields sample_conn_fields
          buffer_okD(2) [OF vector_ops_ok] in \<open>simp_all add: sample_busy_def isWriting_ops\<close>)
qed

section \<open>Properties\<close>

text \<open>C4. \<open>sendInLoop\<close> on a connection that is not closed never fails and adds its message to the
  end of the stream of accepted bytes (what the kernel took, then what waits in the output
  buffer), whether it writes all, some or none of it directly; only when the direct write
  ends with \<open>EPIPE\<close> or \<open>ECONNRESET\<close> is the message dropped. Afterwards the channel waits for
  writability exactly when bytes wait in the buffer.\<close>

theorem send_keeps_stream:
  assumes "env_ok E" and "conn_inv E tid c w" and "co_state (conns w c) \<noteq> kDisconnected"
  shows "\<exists>w'. sendInLoop E tid c data w = Inr w' \<and> conn_inv E tid c w'
    \<and> written (co_socket (conns w c)) (sys w') @ outgoing E c w' =
        written (co_socket (conns w c)) (sys w) @ outgoing E c w @
          (if write_broken E c data w then [] else data)"
proof -
  obtain w' where w': "sendInLoop E tid c data w = Inr w'"
      "op_ok E tid c (if write_broken E c data w then [] else data) w w'"
    using sendInLoop_ok [OF assms] by blast
  then have "co_socket (conns w' c) = co_socket (conns w c)"
    by (intro conn_frameD(2)) (simp add: op_ok_def)
  with w' show ?thesis by (auto simp: op_ok_def stream_def)
qed

theorem send_keeps_stream_witness:
  "\<exists>w'. sendInLoop sample_env 7 1 [1, 2, 3] sample_busy = Inr w' \<and> conn_inv sample_env 7 1 w'
    \<and> written 5 (sys w') @ outgoing sample_env 1 w' =
        written 5 (sys sample_busy) @ [1, 2, 1, 2, 3]"
  using send_keeps_stream [OF sample_env_ok sample_busy_inv, of "[1, 2, 3]"] sample_busy_fields
  by (simp add: write_broken_def)

text \<open>C28. \<open>handleWrite\<close> never fails; it moves a prefix of the output buffer to the socket and
  keeps the rest, so that the stream of accepted bytes is unchanged. The write side is shut
  down in the same call exactly when the buffer has drained and the connection is
  disconnecting.\<close>

theorem handleWrite_drains:
  assumes "env_ok E" and "conn_inv E tid c w"
  shows "\<exists>w' n. handleWrite E tid c w = Inr w' \<and> conn_inv E tid c w'
    \<and> n \<le> length (outgoing E c w) \<and> outgoing E c w' = drop n (outgoing E c w)
    \<and> sys w' = sys w @
        (if isWriting (conn_chan c w)
         then Ev_write (co_socket (conns w c)) (take n (outgoing E c w)) #
           (if outgoing E c w' = [] \<and> co_state (conns w c) = kDisconnecting
            then [Ev_shutdown_write (co_socket (conns w c))] else [])
         else [])"
  using handleWrite_ok [OF assms] unfolding flushed_def by (elim exE conjE) (intro exI conjI op_ok_inv)

theorem handleWrite_drains_witness:
  "\<exists>w' n. handleWrite sample_env 7 1 sample_busy = Inr w' \<and> n \<le> length [1, 2 :: byte]
    \<and> outgoing sample_env 1 w' = drop n [1, 2]"
  using handleWrite_drains [OF sample_env_ok sample_busy_inv] unfolding sample_busy_fields(2)
  by (elim exE conjE) (intro exI conjI)



text \<open>C29. The stream of accepted bytes only grows at its end along any run, so that the bytes the
  kernel was given are at every moment a prefix of the bytes accepted so far: nothing that
  was accepted is lost, repeated or reordered while the connection lives.\<close>

theorem accepted_bytes_in_order:
  assumes "life_inv E tid c script w" and "(conn_step E tid c)\<^sup>*\<^sup>* w w'"
  shows "\<exists>acc. stream E c w' = stream E c w @ acc"
  using assms(2,1)
proof (induction rule: rtranclp_induct)
  case base
  then show ?case by simp
next
  case (step v v')
  have "life_inv E tid c script v" by (rule life.steps_inv [OF step.hyps(1) step.prems])
  from step_life_ok [OF this step.hyps(2)] step.IH [OF step.prems] show ?case
    by (auto simp: life_ok_def)
qed

theorem accepted_bytes_in_order_witness:
  "\<exists>w acc. sendInLoop sample_env 7 1 [1, 2] sample_conn = Inr w
    \<and> stream sample_env 1 w = stream sample_env 1 sample_conn @ acc"
proof -
  have i: "life_inv sample_env 7 1 (\<lambda>_. []) sample_conn" by (rule init_life [OF sample_conn_init])
  obtain w where w: "sendInLoop sample_env 7 1 [1, 2] sample_conn = Inr w"
    using sendInLoop_total [OF sample_env_ok sample_conn_inv] by blast
  then have "do_op sample_env 7 1 (Op_sendInLoop [1, 2]) sample_conn = Inr w" by (simp add: do_op_def)
  then have "conn_step sample_env 7 1 sample_conn w" by (rule op_step)
  then have "(conn_step sample_env 7 1)\<^sup>*\<^sup>* sample_conn w" by (rule r_into_rtranclp)
  from accepted_bytes_in_order [OF i this] w show ?thesis by blast
qed

text \<open>\<open>shutdown\<close> waits for pending output: called on a connected connection with bytes in the
  output buffer it makes the connection disconnecting and issues no \<open>shutdown(2)\<close>; called with
  an empty buffer it shuts the write side down at once.\<close>

lemma shutdown_waits_for_output:
  assumes "conn_inv E tid c w" and "co_state (conns w c) = kConnected"
  shows "\<exists>w'. shutdown tid c w = Inr w' \<and> co_state (conns w' c) = kDisconnecting
    \<and> outgoing E c w' = outgoing E c w
    \<and> sys w' = sys w @ (if outgoing E c w = [] then [Ev_shutdown_write (co_socket (conns w c))] else [])"
proof -
  let ?v = "setState c kDisconnecting w"
  have "conn_inv E tid c ?v" using op_ok_inv [OF op_ok_setState] assms by blast
  from shutdownInLoop_ok [OF this] obtain w' where w': "shutdownInLoop tid c ?v = Inr w'"
    "conns w' = conns ?v" "sys w' = sys ?v @ (if isWriting (conn_chan c ?v) then []
        else [Ev_shutdown_write (co_socket (conns ?v c))])" by blast
  have "shutdown tid c w = Inr w'"
    using w'(1) assms(2) conn_invD(1) [OF assms(1)] by (simp add: shutdown_def shutdown_rest_def runInLoop_def)
  with w'(2,3) assms(2) conn_invD(6) [OF assms(1)] show ?thesis by simp
qed

lemma shutdown_waits_for_output_witness:
  "\<exists>w'. shutdown 7 1 sample_busy = Inr w' \<and> sys w' = sys sample_busy
    \<and> co_state (conns w' 1) = kDisconnecting"
  using shutdown_waits_for_output [OF sample_busy_inv sample_busy_fields(1)] sample_busy_fields(2)
  by auto

text \<open>A call of \<open>send\<close> from another thread than the loop's touches neither the connection, nor
  its channel, nor the socket: it queues \<open>sendInLoop\<close> with a copy of the message and makes the
  eventfd of the loop readable. In a state other than connected it does nothing.\<close>

lemma send_from_other_thread:
  assumes "\<not> isInLoopThread tid (co_loop (conns w c)) w"
  shows "\<exists>w'. send E tid c message w = Inr w' \<and> conns w' = conns w \<and> chans w' = chans w \<and> sys w' = sys w
    \<and> (if co_state (conns w c) = kConnected
       then el_pendingFunctors (loops w' (co_loop (conns w c))) =
              el_pendingFunctors (loops w (co_loop (conns w c))) @ [F_sendInLoop c message]
            \<and> 0 < el_wakeups (loops w' (co_loop (conns w c)))
       else w' = w)"
proof (cases "co_state (conns w c) = kConnected")
  case True
  obtain w' where w': "runInLoop tid (co_loop (conns w c)) (F_sendInLoop c message) (sendInLoop E tid c message) w
      = Inr w'" "chans w' = chans w" "sys w' = sys w"
    "el_pendingFunctors (loops w' (co_loop (conns w c))) =
       el_pendingFunctors (loops w (co_loop (conns w c))) @ [F_sendInLoop c message]"
    "0 < el_wakeups (loops w' (co_loop (conns w c)))"
    using send_op.off_thread [OF assms] by blast
  moreover have "conns w' = conns w" using w'(1) assms by (auto simp: runInLoop_def)
  ultimately show ?thesis using True assms by (auto simp: send_def send_rest_def)
qed (simp add: send_def send_rest_def)

lemma send_from_other_thread_witness:
  "\<exists>w'. send sample_env 8 1 [1] sample_busy = Inr w' \<and> sys w' = sys sample_busy
    \<and> el_pendingFunctors (loops w' 0) = [F_sendInLoop 1 [1]]"
proof -
  have n: "\<not> isInLoopThread 8 (co_loop (conns sample_busy 1)) sample_busy"
    using conn_invD(1) [OF sample_busy_inv] by (simp add: isInLoopThread_def)
  have "el_pendingFunctors (loops sample_busy 0) = []"
    by (simp add: sample_busy_def sample_conn_def new_connection_def setKeepAlive_def Let_def blank_cworld_def
        fresh_event_loop_def)
  with send_from_other_thread [OF n, of sample_env "[1]"] sample_busy_fields show ?thesis by auto
qed



text \<open>C31. \<open>connectDestroyed\<close> ends the process when it finds the connection disconnecting with its
  channel still enabled, as the destructor of \<open>TcpServer\<close> does when a client has not yet
  answered a \<open>shutdown\<close>: only the state \<open>kConnected\<close> disables the channel, and \<open>remove\<close> asserts
  that it has no events.\<close>

theorem connectDestroyed_while_disconnecting:
  assumes "env_ok E" and "conn_inv E tid c w" and "co_state (conns w c) = kDisconnecting"
    and "isReading (conn_chan c w)"
  shows "connectDestroyed E tid c w = Inl Assertion_failed"
proof -
  have "\<not> isNoneEvent (conn_chan c w)" using assms(4) by (auto simp: isReading_def isNoneEvent_def kNoneEvent_def)
  then show ?thesis
    using conn_invD(1) [OF assms(2)] assms(3)
    by (simp add: connectDestroyed_def assertInLoopThread_def ch_remove_def)
qed

definition sample_half_closed :: "nat cworld" where
  "sample_half_closed = upd_chan 2 set_reading (setState 1 kDisconnecting sample_busy)"

theorem connectDestroyed_while_disconnecting_witness:
  "connectDestroyed sample_env 7 1 sample_half_closed = Inl Assertion_failed"
proof (rule connectDestroyed_while_disconnecting [OF sample_env_ok])
  have "conn_frame 1 sample_busy sample_half_closed"
    by (simp add: conn_frame_def sample_half_closed_def)
  then show "conn_inv sample_env 7 1 sample_half_closed"
    by (rule conn_inv_cong [OF sample_busy_inv])
      (use conn_invD [OF sample_busy_inv] sample_busy_fields in
        \<open>simp_all add: sample_half_closed_def isWriting_ops\<close>)
qed (simp_all add: sample_half_closed_def sample_busy_fields [unfolded One_nat_def] isReading_ops)

end
