(* ===== verification/Timer_Threads.thy ===== *)
theory Timer_Threads
  imports Timer_Properties Tcp_Properties
begin

text \<open>
  The timer queue of a loop that several threads use: the loop's own thread calls \<open>runAt\<close>,
  \<open>runAfter\<close>, \<open>runEvery\<close> and \<open>cancel\<close> and serves the timerfd, other threads call \<open>addTimer\<close> and
  \<open>cancel\<close>, which leave functors to the loop, and the loop runs the functors one by one. (The loop
  takes a batch of functors at a time; what is queued meanwhile is behind the batch, so that
  running the functors of the concatenation in order is the same.)

  A timer that another thread has created and the loop has not yet inserted is alive and in
  neither set: it is treated like the expired timers that \<open>handleRead\<close> holds.
\<close>

section \<open>Steps\<close>

fun added_by :: "Functor \<Rightarrow> addr list" where
  "added_by (F_addTimerInLoop a) = [a]"
| "added_by _ = []"

definition handed :: "nat \<Rightarrow> 'm world_scheme \<Rightarrow> addr list" where
  "handed l w = concat (map added_by (el_pendingFunctors (loops w l)))"

definition pop_functor :: "nat \<Rightarrow> 'm world_scheme \<Rightarrow> 'm world_scheme" where
  "pop_functor l = upd_loop l (\<lambda>el. el\<lparr>el_pendingFunctors := tl (el_pendingFunctors el)\<rparr>)"

definition run_timer_functor :: "ts_api \<Rightarrow> nat \<Rightarrow> nat \<Rightarrow> Functor \<Rightarrow> 'm tworld_scheme \<Rightarrow> 'm tworld_scheme res" where
  "run_timer_functor TS tid l f w =
     (case f of
        F_addTimerInLoop a \<Rightarrow> addTimerInLoop TS tid l a w
      | F_cancelInLoop i \<Rightarrow> cancelInLoop tid l i w
      | _ \<Rightarrow> Inr w)"

inductive tq_step :: "ts_api \<Rightarrow> ((addr \<Rightarrow> timer option) \<Rightarrow> addr option) \<Rightarrow> nat \<Rightarrow> nat
    \<Rightarrow> 'm tworld_scheme \<Rightarrow> 'm tworld_scheme \<Rightarrow> bool" for TS alloc tid l where
  own_call: "do_call TS alloc tid l c w = Inr v \<Longrightarrow> tq_step TS alloc tid l w v"
| own_round: "tq_handleRead TS (run_script TS alloc tid l script) tid l w = Inr v \<Longrightarrow> tq_step TS alloc tid l w v"
| own_functor: "el_pendingFunctors (loops w l) = f # fs \<Longrightarrow> run_timer_functor TS tid l f (pop_functor l w) = Inr v
    \<Longrightarrow> tq_step TS alloc tid l w v"
| other_add: "\<not> isInLoopThread t l w \<Longrightarrow> addTimer TS alloc t l cb t0 d w = Inr (i, v) \<Longrightarrow> tq_step TS alloc tid l w v"
| other_cancel: "\<not> isInLoopThread t l w \<Longrightarrow> tq_cancel t l i w = Inr v \<Longrightarrow> tq_step TS alloc tid l w v"
| other_functor: "added_by f = [] \<Longrightarrow> tq_step TS alloc tid l w (queueInLoop t l f w)"
| time_passes: "tq_step TS alloc tid l w (w\<lparr>clock := now\<rparr>)"

definition tq_start :: "poller_ops \<Rightarrow> nat \<Rightarrow> nat \<Rightarrow> 'm tworld_scheme \<Rightarrow> bool" where
  "tq_start P tid l w \<longleftrightarrow>
     (\<exists>timerfd c v. poller_ok P \<and> new_timer_queue P tid l timerfd c v = Inr w \<and> el_pendingFunctors (loops v l) = [])"

text \<open>\<open>addTimer\<close> in two parts, which are not atomic on another thread: up to and with \<open>runInLoop\<close>,
  and the construction of the \<open>TimerId\<close> that is returned.\<close>

definition addTimer_hand_over :: "ts_api \<Rightarrow> ((addr \<Rightarrow> timer option) \<Rightarrow> addr option) \<Rightarrow> nat \<Rightarrow> nat \<Rightarrow> tcallback
    \<Rightarrow> timestamp \<Rightarrow> real \<Rightarrow> 'm tworld_scheme \<Rightarrow> (addr \<times> 'm tworld_scheme) res" where
  "addTimer_hand_over TS alloc tid l cb t0 interval w =
     (case alloc (theap w) of
        None \<Rightarrow> Inl Bad_alloc
      | Some a \<Rightarrow>
         (let n = numCreated w + 1;
              w = w\<lparr>numCreated := n, theap := (theap w)(a \<mapsto> new_timer cb t0 interval n)\<rparr>
          in rbind (runInLoop tid l (F_addTimerInLoop a) (addTimerInLoop TS tid l a) w) (\<lambda>w. Inr (a, w))))"

definition addTimer_id :: "addr \<Rightarrow> 'm tworld_scheme \<Rightarrow> timerId res" where
  "addTimer_id a w = deref a w (\<lambda>tm. Inr (a, tm_sequence tm))"

lemma addTimer_parts:
  "addTimer TS alloc tid l cb t0 d w = rbind (addTimer_hand_over TS alloc tid l cb t0 d w)
     (\<lambda>(a, w). rbind (addTimer_id a w) (\<lambda>i. Inr (i, w)))"
  by (auto simp: addTimer_def addTimer_hand_over_def addTimer_id_def deref_def Let_def rbind_def
      split: option.splits sum.splits)

section \<open>The invariant\<close>

definition shared_inv :: "nat \<Rightarrow> nat \<Rightarrow> 'm tworld_scheme \<Rightarrow> bool" where
  "shared_inv tid l w \<longleftrightarrow> (\<exists>E. tq_inv tid l False E w \<and> map snd E = handed l w)"

lemma tq_inv_cong:
  assumes "theap w' = theap w" and "tqs w' l = tqs w l" and "isInLoopThread tid l w' = isInLoopThread tid l w"
  shows "tq_inv tid l b E w' = tq_inv tid l b E w"
  using assms tq_ok_cong [of w' w l] by (simp add: tq_inv_def)

lemma handed_simps [simp]:
  "handed l (w\<lparr>theap := h\<rparr>) = handed l w" "handed l (upd_tq m g w) = handed l w"
  "handed l (w\<lparr>numCreated := n\<rparr>) = handed l w" "handed l (w\<lparr>clock := now\<rparr>) = handed l w"
  "handed l (log_sys ev w) = handed l w"
  for w :: "'m tworld_scheme"
  by (simp_all add: handed_def)

lemma handed_queue [simp]:
  "handed l (queueInLoop t l f w) = handed l w @ added_by f"
  by (simp add: handed_def queueInLoop_def el_queueInLoop_def el_push_def el_wakeup_def Let_def)

lemma handed_pop:
  "el_pendingFunctors (loops w l) = f # fs \<Longrightarrow> handed l w = added_by f @ handed l (pop_functor l w)"
  by (simp add: handed_def pop_functor_def)

lemma queue_tworld [simp]:
  "theap (queueInLoop t l f w) = theap w" "tqs (queueInLoop t l f w) = tqs w"
  "theap (pop_functor l w) = theap w" "tqs (pop_functor l w) = tqs w"
  "isInLoopThread u k (pop_functor l w) = isInLoopThread u k w"
  for w :: "'m tworld_scheme"
  by (simp_all add: queueInLoop_def pop_functor_def upd_loop_def isInLoopThread_def)

lemma handed_ops [simp]:
  "handed k (inserted l a tm w) = handed k w" "handed k (erased l a tm w) = handed k w"
  "handed k (created a tm w) = handed k w" "handed k (resetTimerfd TS l x w) = handed k w"
  "handed k (added TS l a tm w) = handed k w" "handed k (cancelled l i w) = handed k w"
  "handed k (calling l w) = handed k w" "handed k (called l w) = handed k w"
  "handed k (reset_state TS now l a w) = handed k w"
  for w :: "'m tworld_scheme"
  by (simp_all add: inserted_def erased_def created_def resetTimerfd_def added_def cancelled_def cancel_noted_def
      calling_def called_def reset_state_def Let_def)

section \<open>The steps of the loop thread\<close>

lemma do_call_handed:
  assumes "tq_inv tid l b E w" and "alloc_ok alloc" and "do_call TS alloc tid l c w = Inr v"
  shows "tq_inv tid l b E v \<and> handed l v = handed l w"
proof -
  have "handed l v' = handed l w" if "addTimer TS alloc tid l cb t0 d w = Inr (i, v')" for cb t0 d i v'
  proof (cases "alloc (theap w)")
    case None
    then show ?thesis using that by (simp add: addTimer_def)
  next
    case (Some a)
    then show ?thesis using addTimer_eq(1) [OF assms(1,2) Some refl, of TS cb t0 d] that by auto
  qed
  then have "handed l v = handed l w"
    using assms(3) cancel_safe [OF assms(1)]
    by (cases c) (auto simp: do_call_def runAt_def runAfter_def runEvery_def)
  then show ?thesis
    using safe_keepsD(1) [OF do_call_safe [OF assms(2), of tid l b E TS "\<lambda>_. c"] assms(1) assms(3)] by simp
qed

lemma script_handed:
  assumes "alloc_ok alloc"
  shows "safe_keeps {Bad_alloc} (\<lambda>w. tq_inv tid l b E w \<and> handed l w = H) (\<lambda>w. tq_inv tid l b E w \<and> handed l w = H)
    (runs (\<lambda>c w. do_call TS alloc tid l (c w) w) cs)"
proof (rule safe_runs, rule safe_keepsI)
  fix c s e assume "tq_inv tid l b E s \<and> handed l s = H" and "do_call TS alloc tid l (c s) s = Inl e"
  then show "e \<in> {Bad_alloc}" using safe_keepsD(2) [OF do_call_safe [OF assms]] by blast
next
  fix c s s' assume "tq_inv tid l b E s \<and> handed l s = H" and "do_call TS alloc tid l (c s) s = Inr s'"
  then show "tq_inv tid l b E s' \<and> handed l s' = H" using do_call_handed [OF _ assms] by blast
qed

lemma timers_handed:
  assumes "alloc_ok alloc" and "set D \<subseteq> set E"
  shows "safe_keeps {Bad_alloc} (\<lambda>w. tq_inv tid l b E w \<and> handed l w = H) (\<lambda>w. tq_inv tid l b E w \<and> handed l w = H)
    (runs (run_timer (run_script TS alloc tid l script)) D)"
proof (rule safe_runs)
  fix e assume e: "e \<in> set D"
  show "safe_keeps {Bad_alloc} (\<lambda>w. tq_inv tid l b E w \<and> handed l w = H) (\<lambda>w. tq_inv tid l b E w \<and> handed l w = H)
      (run_timer (run_script TS alloc tid l script) e)"
    unfolding safe_keeps_def
  proof (intro allI impI)
    fix w :: "'a tworld_scheme" assume inv: "tq_inv tid l b E w \<and> handed l w = H"
    then have "entry_ok w e" using assms(2) e by (auto simp: tq_inv_def held_ok_def)
    then obtain tm where "theap w (snd e) = Some tm" by (auto simp: entry_ok_def)
    then show "case run_timer (run_script TS alloc tid l script) e w of
        Inl f \<Rightarrow> f \<in> {Bad_alloc} | Inr v \<Rightarrow> tq_inv tid l b E v \<and> handed l v = H"
      using script_handed [OF assms(1), of tid l b E H TS "script (tm_callback tm)"] inv
      by (simp add: run_timer_def deref_def run_script_def safe_keeps_def)
  qed
qed

lemma reset_handed:
  assumes "tq_ok l w" and "held_ok l (D @ F) w" and "isInLoopThread tid l w" and "runs (reset_one TS tid l now) D w = Inr v"
  shows "held_ok l F v \<and> handed l v = handed l w"
  using assms
proof (induction D arbitrary: w)
  case (Cons e D)
  note r = reset_one_eq [OF Cons.prems(1) Cons.prems(2) [unfolded append_Cons] Cons.prems(3), of TS now]
  show ?case
    using Cons.IH [OF r(2,3)] Cons.prems(3,4) r(1) by simp
qed simp

lemma round_handed:
  fixes w :: "'m tworld_scheme"
  assumes inv: "tq_inv tid l False F w" and al: "alloc_ok alloc"
    and r: "tq_handleRead TS (run_script TS alloc tid l script) tid l w = Inr v"
  shows "tq_inv tid l False F v \<and> handed l v = handed l w"
proof -
  let ?D = "due (clock w) (tq_timers (tqs w l))" and ?run = "run_script TS alloc tid l script"
  obtain A where A: "getExpired l (clock w) (readTimerfd l w) = Inr (?D, upd_tq l A (readTimerfd l w))"
    using getExpired_eq [of l "readTimerfd l w" "clock w"] inv tq_ok_cong(1) [of "readTimerfd l w" w l]
    by (auto simp: tq_inv_def)
  let ?u = "calling l (upd_tq l A (readTimerfd l w))"
  have u: "tq_inv tid l True (?D @ F) ?u" "handed l ?u = handed l w"
    using calling_inv(1) [OF inv A] by (simp_all add: readTimerfd_def)
  obtain x where x: "runs (run_timer ?run) ?D ?u = Inr x" "tq_reset TS tid l ?D (clock w) (called l x) = Inr v"
    using r inv by (auto simp: tq_handleRead_def assertInLoopThread_def tq_inv_def A Let_def calling_def called_def)
  have "tq_inv tid l True (?D @ F) x \<and> handed l x = handed l w"
    by (rule safe_keepsD(1) [OF timers_handed [OF al] _ x(1)]) (use u in auto)
  then have ix: "tq_inv tid l True (?D @ F) x" "handed l x = handed l w" by simp_all
  note c = called_inv [OF ix(1)]
  obtain y where y: "runs (reset_one TS tid l (clock w)) ?D (called l x) = Inr y"
      "v = y \<or> (\<exists>z. v = resetTimerfd TS l z y)"
    using x(2) by (auto simp: tq_reset_def split: if_splits)
  have "held_ok l F y \<and> handed l y = handed l (called l x)" by (rule reset_handed [OF c(1-3) y(1)])
  moreover have "tq_ok l v" "isInLoopThread tid l v" "\<not> tq_callingExpiredTimers (tqs v l)"
    using tq_reset_eq [OF c(1) _ c(3), of ?D TS "clock w"] c(2,4) x(2) by (auto simp: held_append)
  ultimately show ?thesis using y(2) ix(2) by (auto simp: tq_inv_def)
qed

lemma functor_handed:
  assumes inv: "tq_inv tid l False E w" and E: "map snd E = added_by f @ handed l w"
  shows "\<exists>v. run_timer_functor TS tid l f w = Inr v \<and> shared_inv tid l v
    \<and> (\<forall>a. f = F_addTimerInLoop a \<longrightarrow> a \<in> snd ` set (tq_timers (tqs v l)))"
proof (cases "\<exists>a. f = F_addTimerInLoop a")
  case True
  then obtain a where f: "f = F_addTimerInLoop a" by blast
  then obtain t F where EF: "E = (t, a) # F" "map snd F = handed l w" using E by (cases E) auto
  have tq: "tq_ok l w" "held_ok l E w" "isInLoopThread tid l w" using inv by (simp_all add: tq_inv_def)
  then obtain tm where tm: "theap w a = Some tm" "a \<noteq> UINTPTR_MAX" "a \<notin> snd ` set (tq_timers (tqs w l))"
      "a \<notin> snd ` set F" "held_ok l F w"
    using EF(1) by (auto simp: held_ok_def entry_ok_def)
  then have fr: "free_addr l a w" by (simp add: free_addr_def)
  let ?v = "added TS l a tm w"
  have "addTimerInLoop TS tid l a w = Inr ?v" by (rule addTimerInLoop_eq [OF tq(1) tm(1) fr tq(3)])
  moreover have "tq_inv tid l False F ?v"
    using inserted_ok [OF tq(1) tm(1) fr] held_inserted [OF tm(5,4), of tm] inv by (simp add: tq_inv_def added_def)
  moreover have "a \<in> snd ` set (tq_timers (tqs ?v l))" by force
  ultimately show ?thesis using EF(2) f by (auto simp: run_timer_functor_def shared_inv_def)
next
  case False
  then have n: "added_by f = []" by (cases f) auto
  have "tq_inv tid l False E (cancelled l i w)" for i using cancel_safe [OF inv] by blast
  moreover have "cancelInLoop tid l i w = Inr (cancelled l i w)" for i
    using inv by (auto simp: tq_inv_def intro: cancelInLoop_eq)
  ultimately show ?thesis
    using False inv E n by (cases f) (auto simp: run_timer_functor_def shared_inv_def)
qed

section \<open>Every step\<close>

lemma other_add_inv:
  assumes inv: "tq_inv tid l False E w" and E: "map snd E = handed l w" and al: "alloc_ok alloc"
    and t: "\<not> isInLoopThread t l w" and r: "addTimer TS alloc t l cb t0 d w = Inr (i, v)"
  shows "shared_inv tid l v"
proof -
  obtain a where a: "alloc (theap w) = Some a" using r by (cases "alloc (theap w)") (auto simp: addTimer_def)
  define tm where "tm = new_timer cb t0 d (numCreated w + 1)"
  have N: "theap w a = None" "a \<noteq> UINTPTR_MAX" using al a by (simp_all add: alloc_ok_def)
  have tq: "tq_ok l w" "held_ok l E w" using inv by (simp_all add: tq_inv_def)
  note c = created_ok [OF tq(1) N(1)]
  have v: "v = queueInLoop t l (F_addTimerInLoop a) (created a tm w)"
    using r a t by (auto simp: addTimer_def Let_def runInLoop_def deref_def tm_def created_def isInLoopThread_def new_timer_def)
  have "a \<notin> snd ` set E" using tq(2) N(1) by (auto simp: held_ok_def entry_ok_def)
  then have "held_ok l (E @ [(tm_expiration tm, a)]) (created a tm w)"
    using c(2) [OF tq(2)] c(3) N(2) by (auto simp: held_append) (simp add: held_ok_def entry_ok_def)
  then have "tq_inv tid l False (E @ [(tm_expiration tm, a)]) (created a tm w)"
    using inv c(1) by (simp add: tq_inv_def)
  then have "tq_inv tid l False (E @ [(tm_expiration tm, a)]) v"
    using tq_inv_cong [of v "created a tm w" l tid] by (simp add: v)
  moreover have "map snd (E @ [(tm_expiration tm, a)]) = handed l v" by (simp add: v E)
  ultimately show ?thesis by (auto simp: shared_inv_def)
qed

lemma queue_inv:
  assumes "shared_inv tid l w" and "added_by f = []"
  shows "shared_inv tid l (queueInLoop t l f w)"
  using assms tq_inv_cong [of "queueInLoop t l f w" w l tid] by (auto simp: shared_inv_def)

lemma shared_step:
  assumes "alloc_ok alloc" and inv: "shared_inv tid l w" and "tq_step TS alloc tid l w v"
  shows "shared_inv tid l v"
proof -
  obtain E where E: "tq_inv tid l False E w" "map snd E = handed l w" using inv by (auto simp: shared_inv_def)
  from assms(3) show ?thesis
  proof cases
    case (own_call c)
    then show ?thesis using do_call_handed [OF E(1) assms(1)] E(2) by (auto simp: shared_inv_def)
  next
    case (own_round script)
    then show ?thesis using round_handed [OF E(1) assms(1)] E(2) by (auto simp: shared_inv_def)
  next
    case (own_functor f fs)
    have "tq_inv tid l False E (pop_functor l w)" using E(1) tq_inv_cong [of "pop_functor l w" w l tid] by simp
    from functor_handed [OF this, of f TS] own_functor E(2) handed_pop [OF own_functor(1)] show ?thesis by auto
  next
    case (other_add t cb t0 d i)
    then show ?thesis using other_add_inv [OF E assms(1)] by blast
  next
    case (other_cancel t i)
    then show ?thesis using queue_inv [OF inv, of "F_cancelInLoop i" t] by (simp add: tq_cancel_def runInLoop_def)
  next
    case (other_functor f t)
    then show ?thesis using queue_inv [OF inv] by simp
  next
    case (time_passes now)
    then show ?thesis using E tq_inv_cong [of v w l tid] by (auto simp: shared_inv_def isInLoopThread_def)
  qed
qed

definition queue_made :: "nat \<Rightarrow> int \<Rightarrow> nat \<Rightarrow> 'm tworld_scheme \<Rightarrow> 'm tworld_scheme" where
  "queue_made l timerfd c w =
     upd_chan c (\<lambda>_. set_reading (setReadCallback (Cb_timer_handleRead l) (new_channel l timerfd)))
       (upd_tq l (\<lambda>_. \<lparr>tq_timerfd = timerfd, tq_channel = c, tq_timers = [], tq_activeTimers = [],
          tq_callingExpiredTimers = False, tq_cancelingTimers = [], tq_armed = None\<rparr>) w)"

lemma new_timer_queue_eq:
  assumes "poller_ok P"
  shows "\<exists>i. new_timer_queue P tid l timerfd c w =
    check (0 \<le> timerfd) Log_fatal (check (isInLoopThread tid l w) Not_in_loop_thread
      (Inr (registered i c (queue_made l timerfd c w))))"
proof -
  let ?u = "queue_made l timerfd c w"
  have "new_timer_queue P tid l timerfd c w = check (0 \<le> timerfd) Log_fatal (ch_update P tid c ?u)"
    by (simp add: new_timer_queue_def createTimerfd_def enableReading_def queue_made_def Let_def world_ops
        upd_tq_def check_def)
  moreover obtain i where "ch_update P tid c ?u =
      check (isInLoopThread tid (ch_loop (chans ?u c)) ?u) Not_in_loop_thread (Inr (registered i c ?u))"
    using ch_update_eq [OF assms] by blast
  moreover have "ch_loop (chans ?u c) = l" "isInLoopThread tid l ?u = isInLoopThread tid l w"
    by (simp_all add: queue_made_def set_reading_def setReadCallback_def new_channel_def isInLoopThread_def)
  ultimately show ?thesis by auto
qed

lemma start_shared:
  assumes "tq_start P tid l w"
  shows "shared_inv tid l w"
proof -
  obtain timerfd c v where v: "poller_ok P" "new_timer_queue P tid l timerfd c v = Inr w" "el_pendingFunctors (loops v l) = []"
    using assms by (auto simp: tq_start_def)
  obtain i where w: "w = registered i c (queue_made l timerfd c v)" "isInLoopThread tid l v"
    using new_timer_queue_eq [OF v(1), of tid l timerfd c v] v(2) by (auto simp: check_def split: if_splits)
  have "tqs w l = tqs (queue_made l timerfd c v) l" "isInLoopThread tid l w" "el_pendingFunctors (loops w l) = []"
    using w(2) v(3)
    by (simp_all add: w(1) registered_def upd_loop_def upd_chan_def isInLoopThread_def queue_made_def upd_tq_def)
  then show ?thesis
    by (simp add: shared_inv_def tq_inv_def tq_ok_def held_ok_def handed_def queue_made_def upd_chan_def)
qed

interpretation shared_queue: inductive_invariant "tq_start P tid l" "tq_step TS alloc tid l"
  "\<lambda>w. alloc_ok alloc \<longrightarrow> shared_inv tid l w" for P TS alloc tid l
  by unfold_locales (auto intro: start_shared shared_step)

section \<open>A sample queue\<close>

text \<open>The queue of the loop 0 of the thread 7 as constructed, and then with a timer that the
  thread 3 has handed over.\<close>

definition fresh_queue :: "nat cworld" where
  "fresh_queue = (case new_timer_queue sample_poller 7 0 9 9 blank_cworld of Inr w \<Rightarrow> w | Inl _ \<Rightarrow> blank_cworld)"

definition queue_handed :: "nat cworld" where
  "queue_handed = (case addTimer sample_ts sample_alloc 3 0 (TC_user 1) 5 0 fresh_queue of
     Inr (_, w) \<Rightarrow> w | Inl _ \<Rightarrow> fresh_queue)"

lemma fresh_queue_start: "tq_start sample_poller 7 0 fresh_queue"
proof -
  have "isInLoopThread 7 0 blank_cworld" "el_pendingFunctors (loops blank_cworld 0) = []"
    by (simp_all add: isInLoopThread_def blank_cworld_def fresh_event_loop_def)
  moreover from this obtain w where "new_timer_queue sample_poller 7 0 9 9 blank_cworld = Inr w"
    using new_timer_queue_eq [OF sample_poller_ok, of 7 0 9 9 blank_cworld] by auto
  ultimately show ?thesis
    unfolding tq_start_def fresh_queue_def using sample_poller_ok
    by (intro exI [of _ 9] exI [of _ 9] exI [of _ blank_cworld]) simp
qed

lemma fresh_queue_state:
  "theap fresh_queue = Map.empty" "clock fresh_queue = 0" "numCreated fresh_queue = 0"
  "el_pendingFunctors (loops fresh_queue 0) = []" "isInLoopThread t 0 fresh_queue \<longleftrightarrow> t = 7"
proof -
  obtain i where "new_timer_queue sample_poller 7 0 9 9 blank_cworld =
      Inr (registered i 9 (queue_made 0 9 9 blank_cworld))"
    using new_timer_queue_eq [OF sample_poller_ok, of 7 0 9 9 blank_cworld]
    by (auto simp: isInLoopThread_def blank_cworld_def fresh_event_loop_def)
  then have q: "fresh_queue = registered i 9 (queue_made 0 9 9 blank_cworld)" by (simp add: fresh_queue_def)
  show "theap fresh_queue = Map.empty" "clock fresh_queue = 0" "numCreated fresh_queue = 0"
    "el_pendingFunctors (loops fresh_queue 0) = []" "isInLoopThread t 0 fresh_queue \<longleftrightarrow> t = 7"
    unfolding q
    by (auto simp: registered_def queue_made_def blank_cworld_def fresh_event_loop_def isInLoopThread_def
        upd_loop_def upd_chan_def upd_tq_def)
qed

lemma queue_handed_step:
  "tq_step sample_ts sample_alloc 7 0 fresh_queue queue_handed"
  "el_pendingFunctors (loops queue_handed 0) = [F_addTimerInLoop 0x40]"
proof -
  have "\<exists>i w. addTimer sample_ts sample_alloc 3 0 (TC_user 1) 5 0 fresh_queue = Inr (i, w)
      \<and> el_pendingFunctors (loops w 0) = [F_addTimerInLoop 0x40]"
    using fresh_queue_state(5) [of 3]
    by (simp add: addTimer_def sample_alloc_def fresh_queue_state runInLoop_def deref_def Let_def isInLoopThread_def)
  then obtain i w where w: "addTimer sample_ts sample_alloc 3 0 (TC_user 1) 5 0 fresh_queue = Inr (i, w)"
      "el_pendingFunctors (loops w 0) = [F_addTimerInLoop 0x40]" by blast
  have "\<not> isInLoopThread 3 0 fresh_queue" by (simp add: fresh_queue_state)
  from tq_step.other_add [OF this w(1)] w
  show "tq_step sample_ts sample_alloc 7 0 fresh_queue queue_handed"
    "el_pendingFunctors (loops queue_handed 0) = [F_addTimerInLoop 0x40]"
    by (simp_all add: queue_handed_def)
qed

section \<open>Properties\<close>

text \<open>C5. In every state that the loop's thread and any number of other threads can reach, with
  timers added and cancelled from the loop, from timer callbacks and from other threads, rounds of
  the timerfd and functors in any order: \<open>timers_\<close> and \<open>activeTimers_\<close> are ordered without
  duplicates and of the same length, every entry of \<open>timers_\<close> points to a live timer with that
  expiration, \<open>activeTimers_\<close> holds exactly the identities of these timers, and the functor at the
  head of the queue runs without a failed assertion or a read of freed memory; one that adds a
  timer puts it into \<open>timers_\<close>.\<close>

theorem shared_queue_well_formed:
  assumes "alloc_ok alloc" and "reach (tq_start P tid l) (tq_step TS alloc tid l) w"
  shows "set_ok (tq_timers (tqs w l)) \<and> set_ok (tq_activeTimers (tqs w l))
    \<and> length (tq_timers (tqs w l)) = length (tq_activeTimers (tqs w l))
    \<and> (\<forall>(t, a)\<in>set (tq_timers (tqs w l)). \<exists>tm. theap w a = Some tm \<and> tm_expiration tm = t)
    \<and> set (tq_activeTimers (tqs w l)) = (\<lambda>(t, a). (a, seq_of w a)) ` set (tq_timers (tqs w l))
    \<and> (\<forall>f fs. el_pendingFunctors (loops w l) = f # fs \<longrightarrow>
         (\<exists>v. run_timer_functor TS tid l f (pop_functor l w) = Inr v
            \<and> (\<forall>a. f = F_addTimerInLoop a \<longrightarrow> a \<in> snd ` set (tq_timers (tqs v l)))))"
proof -
  have "shared_inv tid l w" using shared_queue.reach_inv [OF assms(2)] assms(1) by blast
  then obtain E where E: "tq_inv tid l False E w" "map snd E = handed l w" by (auto simp: shared_inv_def)
  then have ok: "tq_ok l w" by (simp add: tq_inv_def)
  have "\<exists>v. run_timer_functor TS tid l f (pop_functor l w) = Inr v
      \<and> (\<forall>a. f = F_addTimerInLoop a \<longrightarrow> a \<in> snd ` set (tq_timers (tqs v l)))"
    if f: "el_pendingFunctors (loops w l) = f # fs" for f fs
  proof -
    have "tq_inv tid l False E (pop_functor l w)" using E(1) tq_inv_cong [of "pop_functor l w" w l tid] by simp
    from functor_handed [OF this, of f TS] E(2) handed_pop [OF f] show ?thesis by auto
  qed
  moreover have "set (tq_activeTimers (tqs w l)) = (\<lambda>(t, a). (a, seq_of w a)) ` set (tq_timers (tqs w l))"
    using ok by (simp add: tq_ok_def entry_id_def [abs_def] case_prod_beta')
  moreover have "\<forall>(t, a)\<in>set (tq_timers (tqs w l)). \<exists>tm. theap w a = Some tm \<and> tm_expiration tm = t"
    using ok by (auto simp: tq_ok_def entry_ok_def)
  ultimately show ?thesis using ok tq_ok_length [OF ok] by (simp add: tq_ok_def)
qed

theorem shared_queue_well_formed_witness:
  "\<exists>v. run_timer_functor sample_ts 7 0 (F_addTimerInLoop 0x40) (pop_functor 0 queue_handed) = Inr v
    \<and> 0x40 \<in> snd ` set (tq_timers (tqs v 0))"
proof -
  have "reach (tq_start sample_poller 7 0) (tq_step sample_ts sample_alloc 7 0) queue_handed"
    by (rule reach_step [where s = fresh_queue]) (intro reach_init fresh_queue_start queue_handed_step(1))+
  from shared_queue_well_formed [OF sample_alloc_ok this] queue_handed_step(2) show ?thesis by auto
qed

text \<open>C26. \<open>addTimer\<close> on another thread reads the timer after it has given it away. When the loop
  has no other functor, inserts the timer, which does not repeat, and serves the timerfd after its
  expiration, all before the calling thread goes on, the timer is deleted, and the
  \<open>timer->sequence()\<close> of the return statement reads freed memory.\<close>

theorem foreign_add_races:
  assumes "alloc_ok alloc" and "alloc (theap w) = Some a" and "\<not> isInLoopThread t l w"
    and "tq_inv tid l False [] w" and "el_pendingFunctors (loops w l) = []"
    and "\<not> 0 < interval" and "t0 \<le> now"
  shows "\<exists>u v x. addTimer_hand_over TS alloc t l cb t0 interval w = Inr (a, u)
    \<and> el_pendingFunctors (loops u l) = [F_addTimerInLoop a]
    \<and> run_timer_functor TS tid l (F_addTimerInLoop a) (pop_functor l u) = Inr v
    \<and> tq_handleRead TS (run_script TS alloc tid l (\<lambda>_. [])) tid l (v\<lparr>clock := now\<rparr>) = Inr x
    \<and> addTimer_id a x = Inl Use_after_free"
proof -
  define tm where "tm = new_timer cb t0 interval (numCreated w + 1)"
  define u where "u = queueInLoop t l (F_addTimerInLoop a) (created a tm w)"
  have N: "theap w a = None" "a \<noteq> UINTPTR_MAX" using assms(1,2) by (simp_all add: alloc_ok_def)
  have tq: "tq_ok l w" "isInLoopThread tid l w" using assms(4) by (simp_all add: tq_inv_def)
  note c = created_ok [OF tq(1) N(1)]
  have u: "addTimer_hand_over TS alloc t l cb t0 interval w = Inr (a, u)"
      "el_pendingFunctors (loops u l) = [F_addTimerInLoop a]"
    using assms(2,3,5)
    by (simp_all add: addTimer_hand_over_def Let_def runInLoop_def tm_def created_def isInLoopThread_def u_def new_timer_def)
  let ?p = "pop_functor l u"
  have p: "tq_ok l ?p" "theap ?p a = Some tm" "free_addr l a ?p" "isInLoopThread tid l ?p"
    using c(1) [of tm] c(3) tq N(2) tq_ok_cong(1) [of ?p "created a tm w" l] by (simp_all add: u_def free_addr_def)
  let ?v = "added TS l a tm ?p"
  have v: "run_timer_functor TS tid l (F_addTimerInLoop a) ?p = Inr ?v"
    using addTimerInLoop_eq [OF p] by (simp add: run_timer_functor_def)
  have "tq_inv tid l False [] ?v"
    using inserted_ok [OF p(1-3)] p(4) assms(4) by (simp add: tq_inv_def held_ok_def added_def u_def)
  then have "tq_inv tid l False [] (?v\<lparr>clock := now\<rparr>)"
    using tq_inv_cong [of "?v\<lparr>clock := now\<rparr>" ?v l tid] by (simp add: isInLoopThread_def)
  from idle_round [OF this, of TS alloc] obtain x
    where x: "tq_handleRead TS (run_script TS alloc tid l (\<lambda>_. [])) tid l (?v\<lparr>clock := now\<rparr>) = Inr x"
      "\<forall>e\<in>set (due now (tq_timers (tqs ?v l))). \<forall>tm. theap ?v (snd e) = Some tm \<and> \<not> tm_repeat tm
         \<longrightarrow> theap x (snd e) = None" by auto
  have "(t0, a) \<in> set (due now (tq_timers (tqs ?v l)))" "theap ?v a = Some tm" "\<not> tm_repeat tm"
    using assms(6,7) p(2) by (simp_all add: due_def tm_def new_timer_def)
  then have "theap x a = None" using x(2) by force
  then show ?thesis using u v x(1) by (auto simp: addTimer_id_def deref_def)
qed

theorem foreign_add_races_witness:
  "\<exists>u v x. addTimer_hand_over sample_ts sample_alloc 3 0 (TC_user 1) 5 0 fresh_queue = Inr (0x40, u)
    \<and> run_timer_functor sample_ts 7 0 (F_addTimerInLoop 0x40) (pop_functor 0 u) = Inr v
    \<and> tq_handleRead sample_ts (run_script sample_ts sample_alloc 7 0 (\<lambda>_. [])) 7 0 (v\<lparr>clock := 6\<rparr>) = Inr x
    \<and> addTimer_id 0x40 x = Inl Use_after_free"
proof -
  have "tq_inv 7 0 False [] fresh_queue"
    using start_shared [OF fresh_queue_start] by (simp add: shared_inv_def handed_def fresh_queue_state)
  moreover have "sample_alloc (theap fresh_queue) = Some 0x40" "\<not> isInLoopThread 3 0 fresh_queue"
    by (simp_all add: sample_alloc_def fresh_queue_state)
  ultimately show ?thesis
    using foreign_add_races [OF sample_alloc_ok, of fresh_queue "0x40" 3 0 7 0 5 6 sample_ts "TC_user 1"]
    by (auto simp: fresh_queue_state)
qed

end
