(* ===== verification/Tcp_Server.thy ===== *)
theory Tcp_Server
  imports Tcp_Lifecycle "HOL-Library.List_Lexorder" "HOL-Library.Char_ord"
begin

text \<open>
  The classes \<open>Acceptor\<close> (\<open>Acceptor.h\<close>, \<open>Acceptor.cc\<close>) and \<open>TcpServer\<close> (\<open>TcpServer.h\<close>,
  \<open>TcpServer.cc\<close>).

  \<open>connections_\<close> is a list of pairs in the order of the names, as \<open>std::map\<close> keeps it.
  \<open>InetAddress\<close> and \<open>EventLoopThreadPool\<close> are not part of the sources: the printed listening
  address, the next loop of the pool (as a function of the number of calls made before) and
  the start of the pool are arguments. The address of a new object is an argument as well.
  The number of connections of a server stays below \<open>2\<^sup>3\<^sup>1\<close>, the range of \<open>nextConnId_\<close>.
\<close>

section \<open>Ordered maps\<close>

fun map_put :: "'k::linorder \<Rightarrow> 'v \<Rightarrow> ('k \<times> 'v) list \<Rightarrow> ('k \<times> 'v) list" where
  "map_put k v [] = [(k, v)]"
| "map_put k v ((k', v') # m) =
     (if k < k' then (k, v) # (k', v') # m
      else if k = k' then (k, v) # m else (k', v') # map_put k v m)"

fun map_erase :: "'k::linorder \<Rightarrow> ('k \<times> 'v) list \<Rightarrow> ('k \<times> 'v) list \<times> nat" where
  "map_erase k [] = ([], 0)"
| "map_erase k ((k', v') # m) =
     (if k = k' then (m, 1) else (let (m', n) = map_erase k m in ((k', v') # m', n)))"

section \<open>State\<close>

record acceptor =
  ac_loop :: nat
  ac_socket :: int
  ac_channel :: nat
  ac_newConnectionCallback :: "nat option"
  ac_listenning :: bool
  ac_idleFd :: int

record server =
  sv_loop :: nat
  sv_ipPort :: string
  sv_name :: string
  sv_acceptor :: nat
  sv_numThreads :: int
  sv_poolCalls :: nat
  sv_connectionCallback :: connection_cb
  sv_messageCallback :: message_cb
  sv_writeCompleteCallback :: "nat option"
  sv_threadInitCallback :: "nat option"
  sv_started :: int
  sv_nextConnId :: int
  sv_connections :: "(string \<times> nat) list"

record 'r sworld = "'r cworld" +
  acceptors :: "nat \<Rightarrow> acceptor"
  servers :: "nat \<Rightarrow> server"

definition upd_acceptor :: "nat \<Rightarrow> (acceptor \<Rightarrow> acceptor) \<Rightarrow> ('r, 'm) sworld_scheme \<Rightarrow> ('r, 'm) sworld_scheme" where
  "upd_acceptor a f w = w\<lparr>acceptors := (acceptors w)(a := f (acceptors w a))\<rparr>"

definition upd_server :: "nat \<Rightarrow> (server \<Rightarrow> server) \<Rightarrow> ('r, 'm) sworld_scheme \<Rightarrow> ('r, 'm) sworld_scheme" where
  "upd_server s f w = w\<lparr>servers := (servers w)(s := f (servers w s))\<rparr>"

section \<open>Acceptor\<close>

definition open_devnull :: "os \<Rightarrow> ('r, 'm) sworld_scheme \<Rightarrow> int \<times> ('r, 'm) sworld_scheme" where
  "open_devnull OS w = (os_open OS (sys w), log_sys Ev_open w)"

definition new_acceptor :: "os \<Rightarrow> bool \<Rightarrow> nat \<Rightarrow> nat \<Rightarrow> nat \<Rightarrow> nat \<Rightarrow> bool \<Rightarrow> ('r, 'm) sworld_scheme
    \<Rightarrow> ('r, 'm) sworld_scheme res" where
  "new_acceptor OS has_reuseport a l ch family reuseport w =
     rbind (createNonblockingOrDie OS family w) (\<lambda>(fd, w).
       let w = upd_chan ch (\<lambda>_. new_channel l fd) w;
           (idleFd, w) = open_devnull OS w;
           w = upd_acceptor a (\<lambda>_. \<lparr>ac_loop = l, ac_socket = fd, ac_channel = ch,
                 ac_newConnectionCallback = None, ac_listenning = False, ac_idleFd = idleFd\<rparr>) w
       in check (0 \<le> idleFd) Assertion_failed
           (let w = setReuseAddr fd True w; w = setReusePort has_reuseport fd reuseport w
            in rbind (bindAddress OS fd w) (\<lambda>w.
                 Inr (upd_chan ch (setReadCallback (Cb_acceptor_handleRead a)) w))))"

definition destroy_acceptor :: "poller_ops \<Rightarrow> nat \<Rightarrow> nat \<Rightarrow> ('r, 'm) sworld_scheme
    \<Rightarrow> ('r, 'm) sworld_scheme res" where
  "destroy_acceptor P tid a w =
     (let ac = acceptors w a in
      rbind (disableAll P tid (ac_channel ac) w) (\<lambda>w.
      rbind (ch_remove P tid (ac_channel ac) w) (\<lambda>w.
      let w = log_sys (Ev_close (ac_idleFd ac)) w in
      rbind (destroy_channel tid (ac_channel ac) w) (\<lambda>_.
      Inr (destroy_socket (ac_socket ac) w)))))"

definition acceptor_listen :: "os \<Rightarrow> poller_ops \<Rightarrow> nat \<Rightarrow> nat \<Rightarrow> ('r, 'm) sworld_scheme
    \<Rightarrow> ('r, 'm) sworld_scheme res" where
  "acceptor_listen OS P tid a w =
     assertInLoopThread tid (ac_loop (acceptors w a)) w
      (let w = upd_acceptor a (\<lambda>ac. ac\<lparr>ac_listenning := True\<rparr>) w in
       rbind (socket_listen OS (ac_socket (acceptors w a)) w) (\<lambda>w.
         enableReading P tid (ac_channel (acceptors w a)) w))"

text \<open>The reserve descriptor when the process is out of descriptors.\<close>

definition shed_connection :: "os \<Rightarrow> nat \<Rightarrow> ('r, 'm) sworld_scheme \<Rightarrow> ('r, 'm) sworld_scheme" where
  "shed_connection OS a w =
     (let fd = ac_socket (acceptors w a);
          w = log_sys (Ev_close (ac_idleFd (acceptors w a))) w;
          (idleFd, _, _) = os_accept OS (sys w) fd;
          w = upd_acceptor a (\<lambda>ac. ac\<lparr>ac_idleFd := idleFd\<rparr>) (log_sys (Ev_accept fd) w);
          w = log_sys (Ev_close (ac_idleFd (acceptors w a))) w;
          (idleFd, w) = open_devnull OS w
      in upd_acceptor a (\<lambda>ac. ac\<lparr>ac_idleFd := idleFd\<rparr>) w)"

definition acceptor_handleRead :: "os \<Rightarrow> bool \<Rightarrow> (nat \<Rightarrow> int \<Rightarrow> sockaddr_in6 \<Rightarrow> ('r, 'm) sworld_scheme
      \<Rightarrow> ('r, 'm) sworld_scheme res)
    \<Rightarrow> nat \<Rightarrow> nat \<Rightarrow> ('r, 'm) sworld_scheme \<Rightarrow> ('r, 'm) sworld_scheme res" where
  "acceptor_handleRead OS no_accept4 onNew tid a w =
     assertInLoopThread tid (ac_loop (acceptors w a)) w
      (rbind (socket_accept OS no_accept4 (ac_socket (acceptors w a)) zero_addr w)
        (\<lambda>(connfd, err, peerAddr, w).
          if 0 \<le> connfd
          then (case ac_newConnectionCallback (acceptors w a) of
                  Some s \<Rightarrow> onNew s connfd peerAddr w
                | None \<Rightarrow> Inr (sockets_close connfd w))
          else if err = EMFILE then Inr (shed_connection OS a w) else Inr w))"

definition setNewConnectionCallback :: "nat \<Rightarrow> nat \<Rightarrow> ('r, 'm) sworld_scheme \<Rightarrow> ('r, 'm) sworld_scheme" where
  "setNewConnectionCallback a s = upd_acceptor a (\<lambda>ac. ac\<lparr>ac_newConnectionCallback := Some s\<rparr>)"

section \<open>TcpServer\<close>

definition new_server :: "os \<Rightarrow> bool \<Rightarrow> nat \<Rightarrow> nat \<Rightarrow> nat \<Rightarrow> nat \<Rightarrow> nat \<Rightarrow> string \<Rightarrow> string \<Rightarrow> bool
    \<Rightarrow> ('r, 'm) sworld_scheme \<Rightarrow> ('r, 'm) sworld_scheme res" where
  "new_server OS has_reuseport s a ch l family ipPort nameArg reuseport w =
     rbind (new_acceptor OS has_reuseport a l ch family reuseport w) (\<lambda>w.
       let w = upd_server s (\<lambda>_. \<lparr>sv_loop = l, sv_ipPort = ipPort, sv_name = nameArg, sv_acceptor = a,
             sv_numThreads = 0, sv_poolCalls = 0,
             sv_connectionCallback = CB_defaultConnection, sv_messageCallback = CB_defaultMessage,
             sv_writeCompleteCallback = None, sv_threadInitCallback = None, sv_started = 0, sv_nextConnId = 1,
             sv_connections = []\<rparr>) w
       in Inr (setNewConnectionCallback a s w))"

definition server_setConnectionCallback :: "nat \<Rightarrow> connection_cb \<Rightarrow> ('r, 'm) sworld_scheme \<Rightarrow> ('r, 'm) sworld_scheme" where
  "server_setConnectionCallback s cb = upd_server s (\<lambda>sv. sv\<lparr>sv_connectionCallback := cb\<rparr>)"

definition server_setMessageCallback :: "nat \<Rightarrow> message_cb \<Rightarrow> ('r, 'm) sworld_scheme \<Rightarrow> ('r, 'm) sworld_scheme" where
  "server_setMessageCallback s cb = upd_server s (\<lambda>sv. sv\<lparr>sv_messageCallback := cb\<rparr>)"

definition server_setWriteCompleteCallback :: "nat \<Rightarrow> nat option \<Rightarrow> ('r, 'm) sworld_scheme
    \<Rightarrow> ('r, 'm) sworld_scheme" where
  "server_setWriteCompleteCallback s cb = upd_server s (\<lambda>sv. sv\<lparr>sv_writeCompleteCallback := cb\<rparr>)"

definition setThreadInitCallback :: "nat \<Rightarrow> nat option \<Rightarrow> ('r, 'm) sworld_scheme \<Rightarrow> ('r, 'm) sworld_scheme" where
  "setThreadInitCallback s cb = upd_server s (\<lambda>sv. sv\<lparr>sv_threadInitCallback := cb\<rparr>)"

definition setThreadNum :: "nat \<Rightarrow> int \<Rightarrow> ('r, 'm) sworld_scheme \<Rightarrow> ('r, 'm) sworld_scheme res" where
  "setThreadNum s numThreads w =
     check (0 \<le> numThreads) Assertion_failed
       (Inr (upd_server s (\<lambda>sv. sv\<lparr>sv_numThreads := numThreads\<rparr>) w))"

definition server_start :: "os \<Rightarrow> poller_ops \<Rightarrow> (nat option \<Rightarrow> ('r, 'm) sworld_scheme
      \<Rightarrow> ('r, 'm) sworld_scheme res) \<Rightarrow> nat \<Rightarrow> nat \<Rightarrow> ('r, 'm) sworld_scheme \<Rightarrow> ('r, 'm) sworld_scheme res" where
  "server_start OS P pool_start tid s w =
     (let old = sv_started (servers w s);
          w = upd_server s (\<lambda>sv. sv\<lparr>sv_started := 1\<rparr>) w
      in if old = 0
         then rbind (pool_start (sv_threadInitCallback (servers w s)) w) (\<lambda>w.
           check (\<not> ac_listenning (acceptors w (sv_acceptor (servers w s)))) Assertion_failed
             (runInLoop tid (sv_loop (servers w s)) (F_acceptorListen (sv_acceptor (servers w s)))
               (acceptor_listen OS P tid (sv_acceptor (servers w s))) w))
         else Inr w)"

text \<open>\<open>snprintf(buf, sizeof buf, "-%s#%d", ipPort_.c_str(), nextConnId_)\<close> with \<open>char buf[64]\<close>.\<close>

definition conn_suffix :: "string \<Rightarrow> int \<Rightarrow> string" where
  "conn_suffix ipPort n = take 63 (''-'' @ ipPort @ ''#'' @ show_int n)"

definition newConnection :: "('r, ('r, 'm) sworld_scheme) cenv \<Rightarrow> (nat \<Rightarrow> nat \<Rightarrow> nat) \<Rightarrow> nat \<Rightarrow> nat \<Rightarrow> nat
    \<Rightarrow> nat \<Rightarrow> int \<Rightarrow> sockaddr_in6 \<Rightarrow> ('r, 'm) sworld_scheme \<Rightarrow> ('r, 'm) sworld_scheme res" where
  "newConnection E getNextLoop tid c ch s sockfd peerAddr w =
     assertInLoopThread tid (sv_loop (servers w s)) w
      (let ioLoop = getNextLoop s (sv_poolCalls (servers w s));
           w = upd_server s (\<lambda>sv. sv\<lparr>sv_poolCalls := sv_poolCalls sv + 1\<rparr>) w;
           buf = conn_suffix (sv_ipPort (servers w s)) (sv_nextConnId (servers w s));
           w = upd_server s (\<lambda>sv. sv\<lparr>sv_nextConnId := sv_nextConnId sv + 1\<rparr>) w;
           connName = sv_name (servers w s) @ buf;
           localAddr = getLocalAddr (en_os E) sockfd w;
           w = new_connection E c ch ioLoop connName sockfd localAddr peerAddr
                 (w\<lparr>live := (live w)(c := True)\<rparr>);
           w = upd_server s (\<lambda>sv. sv\<lparr>sv_connections := map_put connName c (sv_connections sv)\<rparr>) w;
           sv = servers w s;
           w = setConnectionCallback c (sv_connectionCallback sv) w;
           w = setMessageCallback c (sv_messageCallback sv) w;
           w = setWriteCompleteCallback c (sv_writeCompleteCallback sv) w;
           w = setCloseCallback c s w
       in runInLoop tid ioLoop (F_connectEstablished c) (connectEstablished E tid c) w)"

definition removeConnectionInLoop :: "nat \<Rightarrow> nat \<Rightarrow> nat \<Rightarrow> ('r, 'm) sworld_scheme
    \<Rightarrow> ('r, 'm) sworld_scheme res" where
  "removeConnectionInLoop tid s c w =
     assertInLoopThread tid (sv_loop (servers w s)) w
      (let (m, n) = map_erase (co_name (conns w c)) (sv_connections (servers w s));
           w = upd_server s (\<lambda>sv. sv\<lparr>sv_connections := m\<rparr>) w
       in check (n = 1) Assertion_failed
           (Inr (queueInLoop tid (co_loop (conns w c)) (F_connectDestroyed c) w)))"

definition removeConnection :: "nat \<Rightarrow> nat \<Rightarrow> nat \<Rightarrow> ('r, 'm) sworld_scheme
    \<Rightarrow> ('r, 'm) sworld_scheme res" where
  "removeConnection tid s c w =
     runInLoop tid (sv_loop (servers w s)) (F_removeConnectionInLoop s c) (removeConnectionInLoop tid s c) w"

definition destroy_one :: "('r, ('r, 'm) sworld_scheme) cenv \<Rightarrow> nat \<Rightarrow> string \<times> nat
    \<Rightarrow> ('r, 'm) sworld_scheme \<Rightarrow> ('r, 'm) sworld_scheme res" where
  "destroy_one E tid entry w =
     runInLoop tid (co_loop (conns w (snd entry))) (F_connectDestroyed (snd entry))
       (connectDestroyed E tid (snd entry)) w"

definition destroy_server :: "('r, ('r, 'm) sworld_scheme) cenv \<Rightarrow> nat \<Rightarrow> nat \<Rightarrow> ('r, 'm) sworld_scheme
    \<Rightarrow> ('r, 'm) sworld_scheme res" where
  "destroy_server E tid s w =
     assertInLoopThread tid (sv_loop (servers w s)) w
      (rbind (runs (destroy_one E tid) (sv_connections (servers w s)) w) (\<lambda>w.
         destroy_acceptor (en_poller E) tid (sv_acceptor (servers w s)) w))"

end
