(* ===== verification/Tcp_Server_Properties.thy ===== *)
theory Tcp_Server_Properties
  imports Tcp_Server Tcp_Properties
begin

text \<open>
  The correctness of \<open>Acceptor\<close> and \<open>TcpServer\<close>: the names of the connections are unique, the
  map holds exactly the connections that were accepted and not yet closed, a closed connection
  leaves the map and is destroyed on its loop, and \<open>start\<close> listens once.
\<close>

section \<open>Ordered maps\<close>

definition map_ok :: "('k::linorder \<times> 'v) list \<Rightarrow> bool" where
  "map_ok m \<longleftrightarrow> sorted_wrt (<) (map fst m)"

lemma map_put_keys: "fst ` set (map_put k v m) = insert k (fst ` set m)"
  by (induction k v m rule: map_put.induct) auto

lemma map_put_ok: "map_ok m \<Longrightarrow> map_ok (map_put k v m)"
proof (induction k v m rule: map_put.induct)
  case (2 k v k' v' m)
  have "x < k \<Longrightarrow> k < y \<Longrightarrow> x < y" for x y :: 'a by (rule less_trans)
  with 2 map_put_keys [of k v m] show ?case by (force simp: map_ok_def)
qed (simp add: map_ok_def)

lemma map_ok_distinct: "map_ok m \<Longrightarrow> distinct (map fst m)"
  by (simp add: map_ok_def strict_sorted_iff)

lemma map_put_of: "map_ok m \<Longrightarrow> map_of (map_put k v m) = (map_of m)(k \<mapsto> v)"
proof (induction k v m rule: map_put.induct)
  case (2 k v k' v' m)
  then show ?case by (auto simp: map_ok_def fun_eq_iff)
qed auto

lemma map_erase_of: "map_ok m \<Longrightarrow> map_of (fst (map_erase k m)) = (map_of m)(k := None)"
proof (induction k m rule: map_erase.induct)
  case (2 k k' v' m)
  have "k \<notin> fst ` set m \<Longrightarrow> map_of m k = None" by (simp add: map_of_eq_None_iff)
  with 2 show ?case by (auto simp: map_ok_def fun_eq_iff case_prod_beta Let_def map_of_eq_None_iff)
qed auto

lemma map_erase_subset: "set (fst (map_erase k m)) \<subseteq> set m"
  by (induction k m rule: map_erase.induct) (auto simp: case_prod_beta Let_def)

lemma map_erase_ok: "map_ok m \<Longrightarrow> map_ok (fst (map_erase k m))"
proof (induction k m rule: map_erase.induct)
  case (2 k k' v' m)
  then show ?case
    using map_erase_subset [of k m] by (auto simp: map_ok_def case_prod_beta Let_def)
qed simp

lemma map_erase_count: "map_ok m \<Longrightarrow> snd (map_erase k m) = (if k \<in> dom (map_of m) then 1 else 0)"
proof (induction k m rule: map_erase.induct)
  case (2 k k' v' m)
  then show ?case by (auto simp: map_ok_def case_prod_beta Let_def)
qed simp

section \<open>What a connection's operations leave of the server\<close>

text \<open>What the operations of a connection leave alone: the part of the world above the
  connections, the names and close callbacks, the threads of the loops, and which connections
  are alive.\<close>

definition frame_of :: "('r, 'm) cworld_scheme
    \<Rightarrow> 'm \<times> (nat \<Rightarrow> string) \<times> (nat \<Rightarrow> nat option) \<times> (nat \<Rightarrow> nat) \<times> (nat \<Rightarrow> bool)" where
  "frame_of w = (cworld.more w, \<lambda>d. co_name (conns w d), \<lambda>d. co_closeCallback (conns w d),
     \<lambda>l. el_threadId (loops w l), live w)"

lemma frame_of_upd [simp]:
  "el_threadId (f (loops w l)) = el_threadId (loops w l) \<Longrightarrow> frame_of (upd_loop l f w) = frame_of w"
  "frame_of (upd_chan ch g w) = frame_of w"
  "frame_of (log_sys e w) = frame_of w"
  "frame_of (queueInLoop tid l cb w) = frame_of w"
  "frame_of (setState c s w) = frame_of w"
  "co_name (h (conns w c)) = co_name (conns w c) \<Longrightarrow>
   co_closeCallback (h (conns w c)) = co_closeCallback (conns w c) \<Longrightarrow> frame_of (upd_conn c h w) = frame_of w"
  by (auto simp: frame_of_def upd_loop_def upd_chan_def log_sys_def queueInLoop_def upd_conn_def setState_def)

lemma frame_ofD:
  fixes w w' :: "('r, 'm) sworld_scheme"
  assumes "frame_of w' = frame_of w"
  shows "servers w' = servers w" "acceptors w' = acceptors w" "co_name (conns w' d) = co_name (conns w d)"
    "co_closeCallback (conns w' d) = co_closeCallback (conns w d)"
    "isInLoopThread t l w' = isInLoopThread t l w" "live w' = live w"
proof -
  have m: "cworld.more w' = cworld.more w" using assms by (simp add: frame_of_def)
  then show "servers w' = servers w" "acceptors w' = acceptors w" by (cases w; cases w'; simp)+
  show "co_name (conns w' d) = co_name (conns w d)" "co_closeCallback (conns w' d) = co_closeCallback (conns w d)"
    "isInLoopThread t l w' = isInLoopThread t l w" "live w' = live w"
    using assms by (auto simp: frame_of_def fun_eq_iff isInLoopThread_def)
qed

lemma frame_ch_update:
  assumes "ch_update P tid ch w = Inr w'"
  shows "frame_of w' = frame_of w"
  using assms
  by (auto simp: ch_update_def updateChannel_def assertInLoopThread_def Let_def split: prod.splits)

lemma frame_chan_ops:
  "enableReading P tid ch w = Inr w' \<Longrightarrow> frame_of w' = frame_of w"
  "disableReading P tid ch w = Inr w' \<Longrightarrow> frame_of w' = frame_of w"
  "enableWriting P tid ch w = Inr w' \<Longrightarrow> frame_of w' = frame_of w"
  "disableWriting P tid ch w = Inr w' \<Longrightarrow> frame_of w' = frame_of w"
  "disableAll P tid ch w = Inr w' \<Longrightarrow> frame_of w' = frame_of w"
  by (auto simp: enableReading_def disableReading_def enableWriting_def disableWriting_def disableAll_def
      dest: frame_ch_update)

lemma frame_sendInLoop: "sendInLoop E tid c data w = Inr w' \<Longrightarrow> frame_of w' = frame_of w"
  by (auto simp: sendInLoop_def write_directly_def sockets_write_def assertInLoopThread_def Let_def
      dest!: frame_chan_ops split: prod.splits if_splits)

lemma frame_do_conn_call: "do_conn_call E tid c k w = Inr w' \<Longrightarrow> frame_of w' = frame_of w"
  by (cases k)
    (auto simp: do_conn_call_def send_def send_rest_def send_buffer_def shutdown_def shutdown_rest_def shutdownInLoop_def shutdownWrite_def
      forceClose_def forceClose_rest_def startRead_def stopRead_def startReadInLoop_def stopReadInLoop_def runInLoop_def
      assertInLoopThread_def defaultMessageCallback_def
      dest!: frame_sendInLoop frame_chan_ops split: if_splits)

lemma frame_run_calls: "run_calls E tid c ks w = Inr w' \<Longrightarrow> frame_of w' = frame_of w"
  by (induction ks arbitrary: w) (auto simp: run_calls_def dest!: frame_do_conn_call)

lemma frame_connectionCallback:
  assumes "callbacks_ok E tid c script" and "connectionCallback E c w = Inr w'"
  shows "frame_of w' = frame_of w"
  using assms
  by (auto simp: connectionCallback_def defaultConnectionCallback_def callbacks_ok_def Let_def
      dest!: frame_run_calls split: option.splits connection_cb.splits)

lemma frame_connectEstablished:
  assumes "callbacks_ok E tid c script" and "connectEstablished E tid c w = Inr w'"
  shows "frame_of w' = frame_of w"
  using assms(2)
  by (auto simp: connectEstablished_def assertInLoopThread_def Let_def
      dest!: frame_chan_ops frame_connectionCallback [OF assms(1)])

section \<open>The names of the connections\<close>

lemma conn_suffix_full:
  assumes "length ipPort \<le> 51" and "0 \<le> n" and "n < 2 ^ 31"
  shows "conn_suffix ipPort n = ''-'' @ ipPort @ ''#'' @ show_nat (nat n)"
proof -
  have "nat n < 10 ^ 10" using assms(2,3) by simp
  then have "length (show_nat (nat n)) \<le> 10" by (intro show_nat_length) simp_all
  then show ?thesis using assms by (simp add: conn_suffix_def show_int_def)
qed

definition conn_name :: "server \<Rightarrow> int \<Rightarrow> string" where
  "conn_name sv n = sv_name sv @ conn_suffix (sv_ipPort sv) n"

lemma conn_name_inj:
  assumes "length (sv_ipPort sv) \<le> 51" and "0 \<le> m" "m < 2 ^ 31" "0 \<le> n" "n < 2 ^ 31"
    and "conn_name sv m = conn_name sv n"
  shows "m = n"
  using assms conn_suffix_full [OF assms(1-3)] conn_suffix_full [OF assms(1,4,5)]
  by (simp add: conn_name_def) (metis eq_nat_nat_iff show_nat_inj)

text \<open>Every entry of the map points to a connection of that name, made from a number that was
  already used.\<close>

definition server_ok :: "nat \<Rightarrow> ('r, 'm) sworld_scheme \<Rightarrow> bool" where
  "server_ok s w \<longleftrightarrow>
     map_ok (sv_connections (servers w s)) \<and> 1 \<le> sv_nextConnId (servers w s) \<and>
     length (sv_ipPort (servers w s)) \<le> 51 \<and>
     (\<forall>(k, c)\<in>set (sv_connections (servers w s)).
        co_name (conns w c) = k \<and> co_closeCallback (conns w c) = Some s \<and>
        (\<exists>n. 1 \<le> n \<and> n < sv_nextConnId (servers w s) \<and> k = conn_name (servers w s) n))"

definition conn_map :: "nat \<Rightarrow> ('r, 'm) sworld_scheme \<Rightarrow> string \<rightharpoonup> nat" where
  "conn_map s w = map_of (sv_connections (servers w s))"

lemma server_ok_fresh:
  assumes "server_ok s w" and "sv_nextConnId (servers w s) < 2 ^ 31"
  shows "conn_name (servers w s) (sv_nextConnId (servers w s)) \<notin> dom (conn_map s w)"
proof
  let ?n = "sv_nextConnId (servers w s)"
  assume "conn_name (servers w s) ?n \<in> dom (conn_map s w)"
  then obtain c where "(conn_name (servers w s) ?n, c) \<in> set (sv_connections (servers w s))"
    by (auto simp: conn_map_def dest: map_of_SomeD)
  then obtain m where m: "1 \<le> m" "m < ?n" "conn_name (servers w s) ?n = conn_name (servers w s) m"
    using assms(1) by (auto simp: server_ok_def)
  have "?n = m"
    by (rule conn_name_inj [OF _ _ _ _ _ m(3)]) (use assms m in \<open>simp_all add: server_ok_def\<close>)
  with m(2) show False by simp
qed

lemma upd_server_fields [simp]:
  "servers (upd_server s f w) = (servers w)(s := f (servers w s))"
  "conns (upd_server s f w) = conns w" "chans (upd_server s f w) = chans w"
  "loops (upd_server s f w) = loops w" "sys (upd_server s f w) = sys w"
  "acceptors (upd_server s f w) = acceptors w" "live (upd_server s f w) = live w"
  "isInLoopThread tid l (upd_server s f w) = isInLoopThread tid l w"
  by (simp_all add: upd_server_def isInLoopThread_def)

lemma upd_acceptor_fields [simp]:
  "acceptors (upd_acceptor a f w) = (acceptors w)(a := f (acceptors w a))"
  "servers (upd_acceptor a f w) = servers w" "conns (upd_acceptor a f w) = conns w"
  "loops (upd_acceptor a f w) = loops w" "sys (upd_acceptor a f w) = sys w"
  "chans (upd_acceptor a f w) = chans w"
  "isInLoopThread tid l (upd_acceptor a f w) = isInLoopThread tid l w"
  by (simp_all add: upd_acceptor_def isInLoopThread_def)

lemma servers_upd [simp]:
  "servers (upd_loop l f w) = servers w" "servers (upd_chan ch g w) = servers w"
  "servers (log_sys e w) = servers w" "servers (queueInLoop tid l cb w) = servers w"
  "servers (upd_conn c h w) = servers w" "servers (setState c st w) = servers w"
  "acceptors (upd_loop l f w) = acceptors w" "acceptors (upd_chan ch g w) = acceptors w"
  "acceptors (log_sys e w) = acceptors w" "acceptors (queueInLoop tid l cb w) = acceptors w"
  "acceptors (upd_conn c h w) = acceptors w"
  by (simp_all add: upd_loop_def upd_chan_def log_sys_def queueInLoop_def upd_conn_def setState_def)

text \<open>The state in which \<open>newConnection\<close> hands the connection to its loop.\<close>

definition enrolled :: "('r, ('r, 'm) sworld_scheme) cenv \<Rightarrow> nat \<Rightarrow> nat \<Rightarrow> nat \<Rightarrow> nat \<Rightarrow> int
    \<Rightarrow> ('r, 'm) sworld_scheme \<Rightarrow> ('r, 'm) sworld_scheme \<Rightarrow> bool" where
  "enrolled E tid c s l sockfd w w' \<longleftrightarrow>
     (let sv = servers w s; name = conn_name sv (sv_nextConnId sv) in
      servers w' = (servers w)(s := sv\<lparr>sv_poolCalls := sv_poolCalls sv + 1,
        sv_nextConnId := sv_nextConnId sv + 1,
        sv_connections := map_put name c (sv_connections sv)\<rparr>) \<and>
      (\<forall>d. d \<noteq> c \<longrightarrow> conns w' d = conns w d) \<and>
      co_name (conns w' c) = name \<and> co_closeCallback (conns w' c) = Some s \<and>
      co_loop (conns w' c) = l \<and> co_socket (conns w' c) = sockfd \<and>
      co_state (conns w' c) = kConnecting \<and> co_connectionCallback (conns w' c) \<noteq> None \<and>
      (env_ok E \<and> isInLoopThread tid l w \<longrightarrow> conn_inv E tid c w'))"

text \<open>The rest of that state: what \<open>newConnection\<close> leaves of the loops and channels.\<close>

definition placed :: "('r, ('r, 'm) sworld_scheme) cenv \<Rightarrow> nat \<Rightarrow> nat \<Rightarrow> nat \<Rightarrow> nat \<Rightarrow> int
    \<Rightarrow> ('r, 'm) sworld_scheme \<Rightarrow> ('r, 'm) sworld_scheme \<Rightarrow> bool" where
  "placed E c ch s l sockfd w w' \<longleftrightarrow>
     loops w' = loops w \<and> live w' = (live w)(c := True) \<and>
     sys w' = sys w @ [Ev_setsockopt sockfd ''SO_KEEPALIVE'' True] \<and>
     chans w' = (chans w)(ch := (new_channel l sockfd)\<lparr>ch_readCallback := Some (Cb_conn_handleRead c),
       ch_writeCallback := Some (Cb_conn_handleWrite c), ch_closeCallback := Some (Cb_conn_handleClose c),
       ch_errorCallback := Some (Cb_conn_handleError c)\<rparr>) \<and>
     co_channel (conns w' c) = ch \<and>
     co_connectionCallback (conns w' c) = Some (sv_connectionCallback (servers w s)) \<and>
     (\<forall>t. env_ok E \<longrightarrow> isInLoopThread t l w \<longrightarrow> conn_inv E t c w')"

lemma new_connection_fields:
  "d \<noteq> c \<Longrightarrow> conns (new_connection E c ch l nm fd la pa u) d = conns u d"
  "servers (new_connection E c ch l nm fd la pa u) = servers u"
  "isInLoopThread t k (new_connection E c ch l nm fd la pa u) = isInLoopThread t k u"
  "co_name (conns (new_connection E c ch l nm fd la pa u) c) = nm"
  "co_loop (conns (new_connection E c ch l nm fd la pa u) c) = l"
  "co_socket (conns (new_connection E c ch l nm fd la pa u) c) = fd"
  "co_state (conns (new_connection E c ch l nm fd la pa u) c) = kConnecting"
  by (simp_all add: new_connection_def setKeepAlive_def Let_def)

lemma new_connection_inv:
  assumes env: "env_ok E" and th: "isInLoopThread tid l u"
  shows "conn_inv E tid c (new_connection E c ch l nm fd la pa u)"
proof -
  have "\<not> isWriting ((new_channel l fd)\<lparr>ch_readCallback := a, ch_writeCallback := b,
      ch_closeCallback := d, ch_errorCallback := e\<rparr>)" for a b d e
    by (simp add: isWriting_def new_channel_def)
  then show ?thesis
    using th buffer_ok_new [OF env_okD(3) [OF env]]
    by (simp add: conn_inv_def conn_wf_def new_connection_def setKeepAlive_def Let_def new_channel_def)
qed

lemma conn_inv_setState:
  "conn_inv E tid c w \<Longrightarrow> co_state (conns w c) \<noteq> kDisconnected \<Longrightarrow> conn_inv E tid c (setState c kConnected w)"
  by (simp add: conn_inv_def conn_wf_def isInLoopThread_def)

lemma conn_inv_upd_server [simp]: "conn_inv E tid c (upd_server s f w) = conn_inv E tid c w"
  by (simp add: conn_inv_def conn_wf_def isInLoopThread_def)

lemmas conn_setters = setConnectionCallback_def setMessageCallback_def setWriteCompleteCallback_def
  setCloseCallback_def

lemma conn_inv_setters:
  "conn_inv E tid c (setConnectionCallback c cc w) = conn_inv E tid c w"
  "conn_inv E tid c (setMessageCallback c mc w) = conn_inv E tid c w"
  "conn_inv E tid c (setWriteCompleteCallback c wc w) = conn_inv E tid c w"
  "conn_inv E tid c (setCloseCallback c s w) = conn_inv E tid c w"
  by (simp_all add: conn_setters conn_inv_def conn_wf_def isInLoopThread_def)

lemma conn_inv_set_callbacks:
  "conn_inv E tid c (upd_conn c (\<lambda>co. co\<lparr>co_connectionCallback := cc, co_messageCallback := mc,
     co_writeCompleteCallback := wc, co_closeCallback := clc\<rparr>) w) = conn_inv E tid c w"
  by (simp add: conn_inv_def conn_wf_def isInLoopThread_def)

lemma newConnection_split:
  assumes "isInLoopThread tid (sv_loop (servers w s)) w"
    and l: "l = getNextLoop s (sv_poolCalls (servers w s))"
  shows "\<exists>v. enrolled E tid c s l sockfd w v \<and> placed E c ch s l sockfd w v \<and>
    (\<forall>t k. isInLoopThread t k v = isInLoopThread t k w) \<and>
    newConnection E getNextLoop tid c ch s sockfd peer w =
      runInLoop tid l (F_connectEstablished c) (connectEstablished E tid c) v"
proof -
  let ?sv = "servers w s"
  let ?name = "conn_name ?sv (sv_nextConnId ?sv)"
  let ?w1 = "upd_server s (\<lambda>sv. sv\<lparr>sv_nextConnId := sv_nextConnId sv + 1\<rparr>)
      (upd_server s (\<lambda>sv. sv\<lparr>sv_poolCalls := sv_poolCalls sv + 1\<rparr>) w)"
  let ?w2 = "new_connection E c ch l ?name sockfd (getLocalAddr (en_os E) sockfd ?w1) peer
      (?w1\<lparr>live := (live ?w1)(c := True)\<rparr>)"
  let ?w3 = "upd_server s (\<lambda>sv. sv\<lparr>sv_connections := map_put ?name c (sv_connections sv)\<rparr>) ?w2"
  let ?v = "setCloseCallback c s (setWriteCompleteCallback c (sv_writeCompleteCallback (servers ?w3 s))
      (setMessageCallback c (sv_messageCallback (servers ?w3 s))
      (setConnectionCallback c (sv_connectionCallback (servers ?w3 s)) ?w3)))"
  have "newConnection E getNextLoop tid c ch s sockfd peer w =
      runInLoop tid l (F_connectEstablished c) (connectEstablished E tid c) ?v"
    using assms by (simp add: newConnection_def assertInLoopThread_def Let_def conn_name_def)
  moreover have th: "isInLoopThread t k (?w1\<lparr>live := (live ?w1)(c := True)\<rparr>) = isInLoopThread t k w" for t k
    by (simp add: isInLoopThread_def)
  then have inv: "env_ok E \<Longrightarrow> isInLoopThread t l w \<Longrightarrow> conn_inv E t c ?v" for t
    by (simp add: conn_inv_setters new_connection_inv)
  then have "enrolled E tid c s l sockfd w ?v"
    by (simp add: enrolled_def Let_def new_connection_fields conn_setters)
  moreover have "placed E c ch s l sockfd w ?v"
    using inv unfolding placed_def
    by (intro conjI) (simp_all add: conn_setters new_connection_def setKeepAlive_def Let_def)
  moreover have "isInLoopThread t k ?v = isInLoopThread t k w" for t k
    using th by (simp add: new_connection_fields conn_setters)
  ultimately show ?thesis by blast
qed

section \<open>The invariant of the server\<close>

lemma server_ok_entries:
  "server_ok s w \<longleftrightarrow> map_ok (sv_connections (servers w s)) \<and> 1 \<le> sv_nextConnId (servers w s) \<and>
     length (sv_ipPort (servers w s)) \<le> 51 \<and>
     (\<forall>k c. conn_map s w k = Some c \<longrightarrow> co_name (conns w c) = k \<and> co_closeCallback (conns w c) = Some s \<and>
        (\<exists>n. 1 \<le> n \<and> n < sv_nextConnId (servers w s) \<and> k = conn_name (servers w s) n))"
  by (auto simp: server_ok_def conn_map_def map_ok_distinct)

lemma server_ok_put:
  assumes ok: "server_ok s w" and fresh: "c \<notin> ran (conn_map s w)" and v: "enrolled E tid c s l sockfd w v"
    and f: "servers w' = servers v" "\<And>d. co_name (conns w' d) = co_name (conns v d)"
      "\<And>d. co_closeCallback (conns w' d) = co_closeCallback (conns v d)"
  defines "name \<equiv> conn_name (servers w s) (sv_nextConnId (servers w s))"
  shows "conn_map s w' = (conn_map s w)(name \<mapsto> c)" "server_ok s w'"
proof -
  let ?sv = "servers w s"
  have m: "map_ok (sv_connections ?sv)" using ok by (simp add: server_ok_def)
  have sv: "servers w' s = ?sv\<lparr>sv_poolCalls := sv_poolCalls ?sv + 1, sv_nextConnId := sv_nextConnId ?sv + 1,
      sv_connections := map_put name c (sv_connections ?sv)\<rparr>"
    using v f(1) by (simp add: enrolled_def Let_def name_def)
  show cm: "conn_map s w' = (conn_map s w)(name \<mapsto> c)"
    using map_put_of [OF m, of name c] by (simp add: conn_map_def sv)
  have nm: "conn_name (servers w' s) n = conn_name ?sv n" for n by (simp add: sv conn_name_def)
  have id: "sv_nextConnId (servers w' s) = sv_nextConnId ?sv + 1" by (simp add: sv)
  have e: "co_name (conns w' d) = k \<and> co_closeCallback (conns w' d) = Some s \<and>
      (\<exists>n. 1 \<le> n \<and> n < sv_nextConnId (servers w' s) \<and> k = conn_name (servers w' s) n)"
    if kd: "conn_map s w' k = Some d" for k d
  proof (cases "k = name")
    case True
    then have "d = c" using kd cm by simp
    moreover have "1 \<le> sv_nextConnId ?sv" using ok by (simp add: server_ok_def)
    ultimately show ?thesis
      using v True f(2,3) nm by (auto simp: enrolled_def Let_def id name_def intro!: exI [of _ "sv_nextConnId ?sv"])
  next
    case False
    then have o: "conn_map s w k = Some d" using kd cm by simp
    then have "d \<noteq> c" using fresh by (auto simp: ran_def)
    then have "conns v d = conns w d" using v by (simp add: enrolled_def Let_def)
    moreover obtain n where "1 \<le> n" "n < sv_nextConnId ?sv" "k = conn_name ?sv n"
      "co_name (conns w d) = k" "co_closeCallback (conns w d) = Some s"
      using ok o by (auto simp: server_ok_entries)
    ultimately show ?thesis using f(2,3) nm by (intro conjI exI [of _ n]) (simp_all add: id)
  qed
  show "server_ok s w'"
    using ok e map_put_ok [OF m, of name c] by (simp add: server_ok_entries sv)
qed

section \<open>Removal\<close>

lemma removeConnection_frame:
  assumes "removeConnection tid s c w = Inr w'"
  shows "conns w' = conns w" "chans w' = chans w" "sys w' = sys w"
    "isInLoopThread t l w' = isInLoopThread t l w"
  using assms
  by (auto simp: removeConnection_def removeConnectionInLoop_def runInLoop_def assertInLoopThread_def
      Let_def isInLoopThread_def split: if_splits prod.splits)

text \<open>The close callback that the server installs meets the contract of the connection's
  handlers.\<close>

lemma removeConnection_callbacks_ok:
  assumes "\<And>i w. en_user E i c w = run_calls E tid c (script i) w"
    and "\<And>s w. en_close E s c w = removeConnection tid s c w"
  shows "callbacks_ok E tid c script"
  using assms by (auto simp: callbacks_ok_def dest: removeConnection_frame)

lemma server_ok_erase:
  assumes ok: "server_ok s w" and nm: "conn_map s w k = Some c"
    and w': "servers w' = (servers w)(s := (servers w s)\<lparr>sv_connections :=
        fst (map_erase k (sv_connections (servers w s)))\<rparr>)"
      "\<And>d. co_name (conns w' d) = co_name (conns w d)"
      "\<And>d. co_closeCallback (conns w' d) = co_closeCallback (conns w d)"
  shows "server_ok s w'" "conn_map s w' = (conn_map s w)(k := None)"
proof -
  have "map_ok (sv_connections (servers w s))" using ok by (simp add: server_ok_def)
  note m = map_erase_of [OF this, of k] map_erase_ok [OF this, of k]
  show "conn_map s w' = (conn_map s w)(k := None)" using m(1) by (simp add: conn_map_def w'(1))
  have "conn_name (f (servers w s)) n = conn_name (servers w s) n"
    if "f = (\<lambda>sv. sv\<lparr>sv_connections := xs\<rparr>)" for f n xs using that by (simp add: conn_name_def)
  then show "server_ok s w'"
    using ok m(2) map_erase_subset [of k "sv_connections (servers w s)"]
    by (auto simp: server_ok_def w' conn_name_def)
qed

lemma removeConnection_ok:
  assumes ok: "server_ok s w" and nm: "conn_map s w (co_name (conns w c)) = Some c"
    and th: "isInLoopThread tid (sv_loop (servers w s)) w"
  shows "\<exists>w'. removeConnection tid s c w = Inr w' \<and> server_ok s w'
    \<and> conn_map s w' = (conn_map s w)(co_name (conns w c) := None) \<and> conns w' = conns w
    \<and> el_pendingFunctors (loops w' (co_loop (conns w c))) =
        el_pendingFunctors (loops w (co_loop (conns w c))) @ [F_connectDestroyed c]"
proof -
  let ?k = "co_name (conns w c)"
  let ?v = "upd_server s (\<lambda>sv. sv\<lparr>sv_connections := fst (map_erase ?k (sv_connections (servers w s)))\<rparr>) w"
  let ?w' = "queueInLoop tid (co_loop (conns w c)) (F_connectDestroyed c) ?v"
  have "map_ok (sv_connections (servers w s))" using ok by (simp add: server_ok_def)
  from map_erase_count [OF this, of ?k] nm
  have "snd (map_erase ?k (sv_connections (servers w s))) = 1" by (auto simp: conn_map_def)
  then have "removeConnection tid s c w = Inr ?w'"
    using th by (simp add: removeConnection_def removeConnectionInLoop_def runInLoop_def
        assertInLoopThread_def case_prod_beta Let_def)
  moreover have "server_ok s ?w'" "conn_map s ?w' = (conn_map s w)(?k := None)"
    by (rule server_ok_erase [OF ok nm]; simp)+
  ultimately show ?thesis by (intro exI [of _ ?w']) simp
qed

section \<open>The callbacks return\<close>

lemma connectionCallback_total:
  assumes "env_ok E" and "callbacks_ok E tid c script" and "conn_inv E tid c w"
    and "co_connectionCallback (conns w c) \<noteq> None"
  shows "\<exists>w'. connectionCallback E c w = Inr w'"
proof -
  let ?u = "log_sys (Ev_connection c (connected (conns w c))) w"
  have "conn_inv E tid c ?u" using assms(3) by (simp add: conn_inv_def conn_wf_def)
  then have "\<exists>w'. run_calls E tid c (script i) ?u = Inr w'" for i
    using run_calls_ok [OF assms(1)] by blast
  then show ?thesis
    using assms(2,4) by (auto simp: connectionCallback_def callbacks_ok_def Let_def split: connection_cb.split)
qed

lemma connectEstablished_total:
  assumes env: "env_ok E" and cb: "callbacks_ok E tid c script" and inv: "conn_inv E tid c w"
    and st: "co_state (conns w c) = kConnecting" and cc: "co_connectionCallback (conns w c) \<noteq> None"
  shows "\<exists>w'. connectEstablished E tid c w = Inr w'"
proof -
  let ?u = "upd_chan (co_channel (conns w c)) (ch_tie_to c) (setState c kConnected w)"
  note i = conn_invD [OF inv]
  have tie: "ch_loop (ch_tie_to c ch) = ch_loop ch" "ch_fd (ch_tie_to c ch) = ch_fd ch"
    "isWriting (ch_tie_to c ch) = isWriting ch" for ch by (simp_all add: ch_tie_to_def isWriting_def)
  obtain v where v: "enableReading (en_poller E) tid (co_channel (conns w c)) ?u = Inr v"
      "chan_frame (co_channel (conns w c)) set_reading ?u v"
    using chan_ops_frame(1) [OF env_okD(2) [OF env], of tid ?u "co_channel (conns w c)"] i tie by auto
  note f = chan_frameD [OF v(2)]
  have fr: "conn_frame c w v" using f(1) by (simp add: conn_frame_def)
  have "conn_inv E tid c v"
    by (rule conn_inv_cong [OF inv fr]) (use i f st tie in \<open>simp_all add: isWriting_ops\<close>)
  moreover have "co_connectionCallback (conns v c) \<noteq> None" using cc f(1) by simp
  ultimately obtain w' where "connectionCallback E c v = Inr w'"
    using connectionCallback_total [OF env cb] by blast
  then show ?thesis
    using v(1) i(1) st by (auto simp: connectEstablished_def assertInLoopThread_def Let_def)
qed

lemma handleClose_total:
  fixes w :: "('r, 'm) sworld_scheme"
  assumes env: "env_ok E" and cb: "callbacks_ok E tid c script" and inv: "conn_inv E tid c w"
    and mc: "may_close (conns w c)" and cc: "co_connectionCallback (conns w c) \<noteq> None"
  shows "\<exists>x. handleClose E tid c w = closeCallback E c x \<and> conn_frame c w x
    \<and> frame_of x = frame_of w \<and> conn_inv E tid c x \<and> co_state (conns x c) = kDisconnected"
proof -
  let ?u = "setState c kDisconnected w"
  note i = conn_invD [OF inv]
  obtain v where v: "disableAll (en_poller E) tid (co_channel (conns w c)) ?u = Inr v"
    using chan_ops_frame(5) [OF env_okD(2) [OF env], of tid ?u "co_channel (conns w c)"] i by auto
  note d = go_down [OF env inv v]
  obtain x where x: "connectionCallback E c v = Inr x"
    using connectionCallback_total [OF env cb d(1)] cc d(2) by auto
  note k = connectionCallback_ok [OF env cb d(1) x]
  have "conn_frame c w v" using d(2) by (simp add: conn_frame_def)
  then have "conn_frame c w x" using k conn_frame_trans by blast
  moreover have "frame_of x = frame_of w"
    using frame_connectionCallback [OF cb x] frame_chan_ops(5) [OF v] by simp
  moreover have "co_state (conns x c) = kDisconnected" using k d(2) by (auto simp: edge_def)
  ultimately show ?thesis
    using v x k i(1) mc by (intro exI [of _ x]) (simp add: handleClose_def assertInLoopThread_def)
qed

lemma listen_servers: "acceptor_listen OS P tid a w = Inr w' \<Longrightarrow> servers w' = servers w"
  by (auto simp: acceptor_listen_def assertInLoopThread_def listenOrDie_def Let_def check_def
      dest!: frame_chan_ops(1) [THEN frame_ofD(1)] split: if_splits)

section \<open>A sample server\<close>

text \<open>Server 0 on loop 0 of thread 7, its acceptor on socket 5 with reserve descriptor 8.\<close>

definition server_env :: "(nat, nat sworld) cenv" where
  "server_env = \<lparr>en_os = sample_os, en_poller = sample_poller, en_buffer = vector_ops,
     en_ts = sample_ts_api, en_alloc = (\<lambda>_. None), en_user = (\<lambda>_ _ w. Inr w),
     en_close = (\<lambda>s c w. removeConnection 7 s c w)\<rparr>"

definition sample_server :: server where
  "sample_server = \<lparr>sv_loop = 0, sv_ipPort = ''0.0.0.0:80'', sv_name = ''echo'', sv_acceptor = 0,
     sv_numThreads = 0, sv_poolCalls = 0, sv_connectionCallback = CB_defaultConnection,
     sv_messageCallback = CB_defaultMessage, sv_writeCompleteCallback = None, sv_threadInitCallback = None, sv_started = 0,
     sv_nextConnId = 1, sv_connections = []\<rparr>"

definition sample_acceptor :: acceptor where
  "sample_acceptor = \<lparr>ac_loop = 0, ac_socket = 5, ac_channel = 3, ac_newConnectionCallback = Some 0,
     ac_listenning = False, ac_idleFd = 8\<rparr>"

definition blank_sworld :: "nat sworld" where
  "blank_sworld = \<lparr>loops = (\<lambda>_. fresh_event_loop 7), chans = (\<lambda>_. new_channel 0 0),
     threadLoop = (\<lambda>_. None), live = (\<lambda>_. True), sys = [], tqs = (\<lambda>_. empty_queue),
     theap = (\<lambda>_. None), numCreated = 0, clock = 0, conns = (\<lambda>_. some_conn),
     acceptors = (\<lambda>_. sample_acceptor), servers = (\<lambda>_. sample_server)\<rparr>"

definition sample_serving :: "nat sworld" where
  "sample_serving = upd_server 0 (\<lambda>sv. sv\<lparr>sv_nextConnId := 2, sv_connections := [(''echo-0.0.0.0:80#1'', 1)]\<rparr>)
     (upd_conn 1 (\<lambda>co. co\<lparr>co_connectionCallback := Some CB_defaultConnection,
        co_messageCallback := Some CB_defaultMessage, co_writeCompleteCallback := None,
        co_closeCallback := Some 0\<rparr>)
     (setState 1 kConnected
     (new_connection server_env 1 2 0 ''echo-0.0.0.0:80#1'' 6 zero_addr zero_addr blank_sworld)))"

lemma server_env_fields [simp]:
  "en_os server_env = sample_os" "en_poller server_env = sample_poller" "en_buffer server_env = vector_ops"
  "en_user server_env = (\<lambda>_ _ w. Inr w)" "en_close server_env = removeConnection 7"
  by (simp_all add: server_env_def fun_eq_iff)

lemma server_env_ok: "env_ok server_env"
  by (simp add: env_ok_def sample_os_ok sample_poller_ok vector_ops_ok)

lemma server_env_callbacks: "callbacks_ok server_env 7 1 (\<lambda>_. [])"
  by (rule removeConnection_callbacks_ok) (simp_all add: run_calls_def)

lemma blank_sworld_fields [simp]:
  "servers blank_sworld s = sample_server" "isInLoopThread 7 l blank_sworld"
  "acceptors blank_sworld a = sample_acceptor" "sys blank_sworld = []"
  by (simp_all add: blank_sworld_def isInLoopThread_def fresh_event_loop_def)

lemma blank_server_ok: "server_ok 0 blank_sworld" "conn_map 0 blank_sworld = Map.empty"
  by (simp_all add: server_ok_def conn_map_def sample_server_def map_ok_def)

lemma sample_name: "conn_name sample_server 1 = ''echo-0.0.0.0:80#1''"
  by (simp add: conn_name_def conn_suffix_def sample_server_def show_int_def show_nat.simps)

lemma sample_serving_fields:
  "may_close (conns sample_serving 1)" "co_connectionCallback (conns sample_serving 1) \<noteq> None"
  "co_loop (conns sample_serving 1) = 0" "sv_loop (servers sample_serving 0) = 0"
  by (simp_all add: sample_serving_def may_close_def new_connection_fields sample_server_def)

lemma blank_start: "\<exists>w'. server_start sample_os sample_poller (\<lambda>_. Inr) 7 0 blank_sworld = Inr w'"
proof -
  let ?v = "log_sys (Ev_listen 5) (upd_acceptor 0 (\<lambda>ac. ac\<lparr>ac_listenning := True\<rparr>)
      (upd_server 0 (\<lambda>sv. sv\<lparr>sv_started := 1\<rparr>) blank_sworld))"
  have "isInLoopThread 7 (ch_loop (chans ?v 3)) ?v"
    by (simp add: isInLoopThread_def blank_sworld_def upd_server_def upd_acceptor_def log_sys_def fresh_event_loop_def)
  then obtain w' where "enableReading sample_poller 7 3 ?v = Inr w'"
    using chan_ops_frame(1) [OF sample_poller_ok] by blast
  then show ?thesis
    by (simp add: server_start_def runInLoop_def acceptor_listen_def assertInLoopThread_def Let_def
        listenOrDie_def sample_acceptor_def sample_server_def sample_os_def check_def)
qed

lemma sample_serving_ok: "server_ok 0 sample_serving"
  "conn_map 0 sample_serving = [''echo-0.0.0.0:80#1'' \<mapsto> 1]" "conn_inv server_env 7 1 sample_serving"
  "isInLoopThread 7 0 sample_serving"
proof -
  show "conn_map 0 sample_serving = [''echo-0.0.0.0:80#1'' \<mapsto> 1]" by (simp add: sample_serving_def conn_map_def)
  have "conn_name sample_server 1 = ''echo-0.0.0.0:80#1''" by (rule sample_name)
  then show "server_ok 0 sample_serving"
    by (simp add: server_ok_def map_ok_def sample_serving_def new_connection_fields)
       (simp add: sample_server_def conn_name_def exI [of _ 1])
  show "isInLoopThread 7 0 sample_serving"
    by (simp add: sample_serving_def new_connection_fields)
  have "conn_inv server_env 7 1 (setState 1 kConnected
      (new_connection server_env 1 2 0 ''echo-0.0.0.0:80#1'' 6 zero_addr zero_addr blank_sworld))"
    by (intro conn_inv_setState new_connection_inv server_env_ok) (simp_all add: new_connection_fields)
  then show "conn_inv server_env 7 1 sample_serving"
    unfolding sample_serving_def by (simp add: conn_inv_set_callbacks)
qed

section \<open>Properties\<close>

text \<open>C32. \<open>newConnection\<close> on the server's loop never fails and enters the connection under a name of
  its own: the name is not yet in the map, the map gains exactly this entry, and the invariant
  of the server is kept. The buffer of 64 bytes is long enough for every printed IPv4 or IPv6
  address and every connection number.\<close>

theorem new_connection_enrolled:
  assumes "server_ok s w" and "sv_nextConnId (servers w s) < 2 ^ 31" and "c \<notin> ran (conn_map s w)"
    and "isInLoopThread tid (sv_loop (servers w s)) w" and "env_ok E" and "callbacks_ok E tid c script"
  defines "name \<equiv> conn_name (servers w s) (sv_nextConnId (servers w s))"
  shows "\<exists>w'. newConnection E getNextLoop tid c ch s sockfd peer w = Inr w'
    \<and> name \<notin> dom (conn_map s w) \<and> conn_map s w' = (conn_map s w)(name \<mapsto> c) \<and> server_ok s w'"
proof -
  let ?l = "getNextLoop s (sv_poolCalls (servers w s))"
  obtain v where v: "enrolled E tid c s ?l sockfd w v" "\<And>t k. isInLoopThread t k v = isInLoopThread t k w"
      "newConnection E getNextLoop tid c ch s sockfd peer w =
        runInLoop tid ?l (F_connectEstablished c) (connectEstablished E tid c) v"
    using newConnection_split [OF assms(4) refl] by blast
  have "\<exists>w'. connectEstablished E tid c v = Inr w'" if "isInLoopThread tid ?l w"
    using connectEstablished_total [OF assms(5,6)] v(1) that assms(5) by (simp add: enrolled_def Let_def)
  then obtain w' where w': "newConnection E getNextLoop tid c ch s sockfd peer w = Inr w'"
    using v(2,3) by (auto simp: runInLoop_def split: if_splits)
  have "frame_of w' = frame_of v"
    using w' v(3) frame_connectEstablished [OF assms(6)]
    by (auto simp: runInLoop_def split: if_splits)
  note f = frame_ofD [OF this]
  show ?thesis
    using w' server_ok_put [OF assms(1,3) v(1) f(1) f(3) f(4)] server_ok_fresh [OF assms(1,2)]
    by (auto simp: name_def)
qed

theorem new_connection_enrolled_witness:
  "\<exists>w'. newConnection server_env (\<lambda>_ _. 0) 7 1 2 0 6 zero_addr blank_sworld = Inr w'
    \<and> dom (conn_map 0 w') = {''echo-0.0.0.0:80#1''}"
proof -
  have "conn_name sample_server 1 = ''echo-0.0.0.0:80#1''" by (rule sample_name)
  with new_connection_enrolled [of 0 blank_sworld 1 7 server_env "\<lambda>_. []" "\<lambda>_ _. 0" 2 6 zero_addr]
    blank_server_ok server_env_ok server_env_callbacks
  show ?thesis by (auto simp: sample_server_def)
qed

text \<open>C12. When the peer closes (or an error or \<open>forceClose\<close> ends) a connection whose loop is the server's
  loop, \<open>handleClose\<close> never fails: the user hears of the end, the connection leaves the map of
  the server and no other entry changes, and its \<open>connectDestroyed\<close> is the last functor queued
  on its loop.\<close>

theorem close_removes_connection:
  assumes "server_ok s w" and "conn_map s w k = Some c"
    and "isInLoopThread tid (sv_loop (servers w s)) w" and "env_ok E" and "conn_inv E tid c w"
    and "may_close (conns w c)" and "co_connectionCallback (conns w c) \<noteq> None"
    and "\<And>i v. en_user E i c v = run_calls E tid c (script i) v"
    and "\<And>s v. en_close E s c v = removeConnection tid s c v"
  shows "\<exists>w' fs. handleClose E tid c w = Inr w' \<and> conn_map s w' = (conn_map s w)(k := None)
    \<and> server_ok s w' \<and> co_state (conns w' c) = kDisconnected
    \<and> el_pendingFunctors (loops w' (co_loop (conns w c))) = fs @ [F_connectDestroyed c]"
proof -
  have cb: "callbacks_ok E tid c script" using assms(8,9) by (rule removeConnection_callbacks_ok)
  obtain x where x: "handleClose E tid c w = closeCallback E c x" "conn_frame c w x" "frame_of x = frame_of w"
      "conn_inv E tid c x" "co_state (conns x c) = kDisconnected"
    using handleClose_total [OF assms(4) cb assms(5-7)] by blast
  note f = frame_ofD [OF x(3)]
  have e: "co_name (conns w c) = k" "co_closeCallback (conns w c) = Some s"
    using assms(1,2) by (auto simp: server_ok_entries)
  have cm: "conn_map s x = conn_map s w" by (simp add: conn_map_def f(1))
  have sx: "server_ok s x" using assms(1) by (simp add: server_ok_def f)
  have th: "isInLoopThread tid (sv_loop (servers x s)) x"
    using assms(3) f(1,5) by simp
  from removeConnection_ok [OF sx _ th, of c] e f(3) cm assms(2)
  obtain w' where w': "removeConnection tid s c x = Inr w'" "server_ok s w'"
      "conn_map s w' = (conn_map s x)(k := None)" "conns w' = conns x"
      "el_pendingFunctors (loops w' (co_loop (conns x c))) =
        el_pendingFunctors (loops x (co_loop (conns x c))) @ [F_connectDestroyed c]" by auto
  have "handleClose E tid c w = Inr w'"
    using x(1) w'(1) e(2) f(4) assms(9) by (simp add: closeCallback_def)
  then show ?thesis
    using w' x(5) cm conn_frameD(1) [OF x(2)] by auto
qed

theorem close_removes_connection_witness:
  "\<exists>w' fs. handleClose server_env 7 1 sample_serving = Inr w' \<and> conn_map 0 w' = Map.empty
    \<and> el_pendingFunctors (loops w' 0) = fs @ [F_connectDestroyed 1]"
  using close_removes_connection [of 0 sample_serving "''echo-0.0.0.0:80#1''" 1 7 server_env "\<lambda>_. []"]
    sample_serving_ok server_env_ok sample_serving_fields
  by (auto simp: run_calls_def)

text \<open>\<open>TcpServer::start\<close> is idempotent: whatever it did the first time (start the pool, listen or
  queue the call of \<open>listen\<close>), a second call changes nothing, provided that the start of the
  pool does not touch the server.\<close>

lemma start_listens_once:
  assumes "\<And>cb v v'. pool_start cb v = Inr v' \<Longrightarrow> servers v' = servers v"
    and "server_start OS P pool_start tid s w = Inr w'"
  shows "server_start OS P pool_start tid s w' = Inr w'"
proof -
  let ?u = "upd_server s (\<lambda>sv. sv\<lparr>sv_started := 1\<rparr>) w"
  have s: "sv_started (servers w' s) = 1"
  proof (cases "sv_started (servers w s) = 0")
    case True
    then obtain v where v: "pool_start (sv_threadInitCallback (servers ?u s)) ?u = Inr v"
        "runInLoop tid (sv_loop (servers v s)) (F_acceptorListen (sv_acceptor (servers v s)))
          (acceptor_listen OS P tid (sv_acceptor (servers v s))) v = Inr w'"
      using assms(2) by (auto simp: server_start_def Let_def)
    have "servers w' = servers v"
      using v(2) listen_servers by (auto simp: runInLoop_def split: if_splits)
    then show ?thesis using assms(1) [OF v(1)] by simp
  next
    case False
    then show ?thesis using assms(2) by (auto simp: server_start_def Let_def)
  qed
  then have "(servers w' s)\<lparr>sv_started := 1\<rparr> = servers w' s" by (cases "servers w' s") simp
  then have "upd_server s (\<lambda>sv. sv\<lparr>sv_started := 1\<rparr>) w' = w'" by (simp add: upd_server_def)
  with s show ?thesis by (simp add: server_start_def Let_def)
qed

lemma start_listens_once_witness:
  "\<exists>w'. server_start sample_os sample_poller (\<lambda>_. Inr) 7 0 blank_sworld = Inr w'
    \<and> server_start sample_os sample_poller (\<lambda>_. Inr) 7 0 w' = Inr w'"
proof -
  obtain w' where "server_start sample_os sample_poller (\<lambda>_. Inr) 7 0 blank_sworld = Inr w'"
    using blank_start by blast
  with start_listens_once [of "\<lambda>_. Inr" sample_os sample_poller 7 0 blank_sworld w'] show ?thesis by auto
qed

text \<open>C33. When \<open>accept\<close> fails because the process is out of descriptors, \<open>Acceptor::handleRead\<close> gives up
  its reserve descriptor, accepts the connection with it, closes that connection at once and
  opens a new reserve: no callback runs and the acceptor holds a reserve descriptor again.\<close>

theorem out_of_descriptors_sheds:
  assumes "isInLoopThread tid (ac_loop (acceptors w a)) w"
    and "os_accept OS (sys w) (ac_socket (acceptors w a)) = (-1, EMFILE, addr)"
  defines "fd \<equiv> ac_socket (acceptors w a)"
  defines "evs \<equiv> sys w @ [Ev_accept fd, Ev_close (ac_idleFd (acceptors w a))]"
  defines "evs' \<equiv> evs @ [Ev_accept fd, Ev_close (fst (os_accept OS evs fd))]"
  shows "\<exists>w'. acceptor_handleRead OS False onNew tid a w = Inr w' \<and> sys w' = evs' @ [Ev_open]
    \<and> acceptors w' = (acceptors w)(a := (acceptors w a)\<lparr>ac_idleFd := os_open OS evs'\<rparr>)
    \<and> servers w' = servers w \<and> conns w' = conns w"
proof -
  let ?w1 = "log_sys (Ev_accept fd) w"
  have "socket_accept OS False fd zero_addr w = Inr (-1, EMFILE, zero_addr, ?w1)"
    using assms(2) by (simp add: fd_def socket_accept_def accept_def expected_accept_error_def check_def)
  then have "acceptor_handleRead OS False onNew tid a w = Inr (shed_connection OS a ?w1)"
    using assms(1) by (simp add: acceptor_handleRead_def assertInLoopThread_def fd_def)
  moreover have "sys (shed_connection OS a ?w1) = evs' @ [Ev_open]"
    "acceptors (shed_connection OS a ?w1) = (acceptors w)(a := (acceptors w a)\<lparr>ac_idleFd := os_open OS evs'\<rparr>)"
    "servers (shed_connection OS a ?w1) = servers w" "conns (shed_connection OS a ?w1) = conns w"
    by (simp_all add: shed_connection_def open_devnull_def evs'_def evs_def fd_def case_prod_beta Let_def)
  ultimately show ?thesis by blast
qed

theorem out_of_descriptors_sheds_witness:
  "\<exists>w'. acceptor_handleRead sample_os False (\<lambda>_ _ _. Inr) 7 0 blank_sworld = Inr w'
    \<and> sys w' = [Ev_accept 5, Ev_close 8, Ev_accept 5, Ev_close (-1), Ev_open]
    \<and> ac_idleFd (acceptors w' 0) = 4"
  using out_of_descriptors_sheds [of 7 blank_sworld 0 sample_os zero_addr "\<lambda>_ _ _. Inr"]
  by (auto simp: sample_os_def sample_acceptor_def)

end
