(* ===== verification/Server_Loop.thy ===== *)
theory Server_Loop
  imports Tcp_Server_Properties
begin

text \<open>
  The components put together: what the functors that were bound with \<open>boost::bind\<close> and the
  callbacks of the channels and timers do when the loop calls them. With these the loop of
  \<open>Reactor_Loop\<close> is the loop of a server: its events reach the wakeup channel, the timer queue, the
  acceptor and the connections, and its functors are the calls that other threads, or the
  components themselves, have left for it.

  \<open>user\<close> stands for the functors and timer callbacks of the program that uses the library, \<open>fresh\<close>
  for the addresses of the next connection and its channel, \<open>getNextLoop\<close> for the thread pool.
\<close>

section \<open>Functors, timers and channels\<close>

text \<open>\<open>send\<close>, \<open>shutdown\<close>, \<open>startRead\<close> and \<open>stopRead\<close> bind the plain pointer \<open>this\<close>: to run their functor after the
  connection was destroyed is a use of freed memory. The other functors of a connection hold a
  shared pointer.\<close>

definition run_functor :: "('r, ('r, 'm) sworld_scheme) cenv
    \<Rightarrow> (nat \<Rightarrow> ('r, 'm) sworld_scheme \<Rightarrow> ('r, 'm) sworld_scheme res) \<Rightarrow> nat \<Rightarrow> nat \<Rightarrow> Functor
    \<Rightarrow> ('r, 'm) sworld_scheme \<Rightarrow> ('r, 'm) sworld_scheme res" where
  "run_functor E user tid l f w =
     (case f of
        F_addTimerInLoop a \<Rightarrow> addTimerInLoop (en_ts E) tid l a w
      | F_cancelInLoop i \<Rightarrow> cancelInLoop tid l i w
      | F_sendInLoop c message \<Rightarrow> check (live w c) Use_after_free (sendInLoop E tid c message w)
      | F_shutdownInLoop c \<Rightarrow> check (live w c) Use_after_free (shutdownInLoop tid c w)
      | F_forceCloseInLoop c \<Rightarrow> forceCloseInLoop E tid c w
      | F_startReadInLoop c \<Rightarrow> check (live w c) Use_after_free (startReadInLoop E tid c w)
      | F_stopReadInLoop c \<Rightarrow> check (live w c) Use_after_free (stopReadInLoop E tid c w)
      | F_connectEstablished c \<Rightarrow> connectEstablished E tid c w
      | F_connectDestroyed c \<Rightarrow> connectDestroyed E tid c w
      | F_writeComplete cb c \<Rightarrow> en_user E cb c w
      | F_highWaterMark cb c len \<Rightarrow> en_user E cb c w
      | F_removeConnectionInLoop s c \<Rightarrow> removeConnectionInLoop tid s c w
      | F_acceptorListen a \<Rightarrow> acceptor_listen (en_os E) (en_poller E) tid a w
      | F_user i \<Rightarrow> user i w)"

text \<open>\<open>forceCloseWithDelay\<close> binds a weak pointer: the timer does nothing when the connection is gone.\<close>

definition run_timer_cb :: "(nat \<Rightarrow> ('r, 'm) sworld_scheme \<Rightarrow> ('r, 'm) sworld_scheme res) \<Rightarrow> nat \<Rightarrow> tcallback
    \<Rightarrow> ('r, 'm) sworld_scheme \<Rightarrow> ('r, 'm) sworld_scheme res" where
  "run_timer_cb user tid cb w =
     (case cb of
        TC_forceClose c \<Rightarrow> Inr (if live w c then forceClose tid c w else w)
      | TC_user i \<Rightarrow> user i w)"

definition run_channel_cb :: "('r, ('r, 'm) sworld_scheme) cenv
    \<Rightarrow> (nat \<Rightarrow> ('r, 'm) sworld_scheme \<Rightarrow> ('r, 'm) sworld_scheme res)
    \<Rightarrow> (('r, 'm) sworld_scheme \<Rightarrow> nat \<times> nat) \<Rightarrow> (nat \<Rightarrow> nat \<Rightarrow> nat) \<Rightarrow> bool \<Rightarrow> nat \<Rightarrow> chan_cb \<Rightarrow> timestamp
    \<Rightarrow> ('r, 'm) sworld_scheme \<Rightarrow> ('r, 'm) sworld_scheme res" where
  "run_channel_cb E user fresh getNextLoop no_accept4 tid cb t w =
     (case cb of
        Cb_loop_handleRead l \<Rightarrow> Inr (upd_loop l el_handleRead w)
      | Cb_timer_handleRead l \<Rightarrow> tq_handleRead (en_ts E) (run_timer_cb user tid) tid l w
      | Cb_acceptor_handleRead a \<Rightarrow>
          acceptor_handleRead (en_os E) no_accept4
            (\<lambda>s connfd peer w. newConnection E getNextLoop tid (fst (fresh w)) (snd (fresh w)) s connfd peer w)
            tid a w
      | Cb_conn_handleRead c \<Rightarrow> conn_handleRead E tid c w
      | Cb_conn_handleWrite c \<Rightarrow> handleWrite E tid c w
      | Cb_conn_handleClose c \<Rightarrow> handleClose E tid c w
      | Cb_conn_handleError c \<Rightarrow> Inr (handleError E c w)
      | Cb_user i \<Rightarrow> user i w)"

section \<open>Queues seen from a server\<close>

lemma queue_keeps [simp]:
  "el_wakeupChannel (el_queueInLoop tid cb el) = el_wakeupChannel el"
  "el_channels (el_queueInLoop tid cb el) = el_channels el"
  "el_eventHandling (el_queueInLoop tid cb el) = el_eventHandling el"
  by (simp_all add: el_queueInLoop_def el_push_def el_wakeup_def Let_def)

lemma foreign_queue_wakes: "\<not> isInLoopThread tid l w \<Longrightarrow> 0 < el_wakeups (el_queueInLoop tid cb (loops w l))"
  by (simp add: el_queueInLoop_wakes el_needs_wakeup_def isInLoopThread_def)

lemma isInLoopThread_loop [simp]:
  "el_threadId (f (loops w l)) = el_threadId (loops w l) \<Longrightarrow> isInLoopThread tid j (upd_loop l f w) = isInLoopThread tid j w"
  by (simp add: isInLoopThread_def)

section \<open>Messages of other threads\<close>

text \<open>The wakeup channel of a loop as its constructor sets it up, and a system in which a write never
  finds the connection reset.\<close>

definition wakeup_wired :: "nat \<Rightarrow> 'm world_scheme \<Rightarrow> bool" where
  "wakeup_wired l w \<longleftrightarrow>
     ch_readCallback (chans w (el_wakeupChannel (loops w l))) = Some (Cb_loop_handleRead l) \<and>
     \<not> ch_tied (chans w (el_wakeupChannel (loops w l)))"

definition never_reset :: "os \<Rightarrow> bool" where
  "never_reset OS \<longleftrightarrow> (\<forall>evs fd d n err. os_write OS evs fd d = (n, err) \<longrightarrow> n < 0 \<longrightarrow> err \<notin> {EPIPE, ECONNRESET})"

abbreviation foreign_sends :: "('r, 'w) cenv \<Rightarrow> nat \<Rightarrow> (nat \<times> byte list) list \<Rightarrow> ('r, 'm) cworld_scheme
    \<Rightarrow> ('r, 'm) cworld_scheme res" where
  "foreign_sends E c ms \<equiv> runs (\<lambda>(t, m). send E t c m) ms"

lemma foreign_sends_queue:
  assumes "co_state (conns w c) = kConnected" and "l = co_loop (conns w c)"
    and "\<forall>(t, m)\<in>set ms. \<not> isInLoopThread t l w"
  shows "\<exists>w'. foreign_sends E c ms w = Inr w' \<and> conns w' = conns w \<and> chans w' = chans w \<and> sys w' = sys w \<and> live w' = live w
    \<and> (\<forall>t. isInLoopThread t l w' = isInLoopThread t l w)
    \<and> el_pendingFunctors (loops w' l) = el_pendingFunctors (loops w l) @ map (\<lambda>(t, m). F_sendInLoop c m) ms
    \<and> el_wakeupChannel (loops w' l) = el_wakeupChannel (loops w l)
    \<and> (ms \<noteq> [] \<or> 0 < el_wakeups (loops w l) \<longrightarrow> 0 < el_wakeups (loops w' l))"
  using assms
proof (induction ms arbitrary: w)
  case (Cons x ms)
  obtain t m where x: "x = (t, m)" by force
  let ?v = "queueInLoop t l (F_sendInLoop c m) w"
  have n: "\<not> isInLoopThread t l w" using Cons.prems(3) x by simp
  have s: "send E t c m w = Inr ?v" using Cons.prems(1,2) n by (simp add: send_def send_rest_def runInLoop_def)
  have v: "conns ?v = conns w" "chans ?v = chans w" "sys ?v = sys w" "live ?v = live w" "\<And>u. isInLoopThread u l ?v = isInLoopThread u l w"
    "el_pendingFunctors (loops ?v l) = el_pendingFunctors (loops w l) @ [F_sendInLoop c m]"
    "el_wakeupChannel (loops ?v l) = el_wakeupChannel (loops w l)" "0 < el_wakeups (loops ?v l)"
    using n by (simp_all add: queueInLoop_def isInLoopThread_def el_queueInLoop_def el_needs_wakeup_def el_push_def
        el_wakeup_def)
  have "\<forall>(t, m)\<in>set ms. \<not> isInLoopThread t l ?v" using Cons.prems(3) v(5) by auto
  from Cons.IH [OF _ _ this] Cons.prems(1,2) v show ?case by (auto simp: x s)
qed simp

lemma run_functor_send: "live w c \<Longrightarrow> run_functor E user tid l (F_sendInLoop c m) w = sendInLoop E tid c m w"
  by (simp add: run_functor_def)

lemma run_sends:
  fixes w :: "('r, 'm) sworld_scheme"
  assumes "env_ok E" and "never_reset (en_os E)"
  shows "conn_inv E tid c w \<Longrightarrow> co_state (conns w c) \<noteq> kDisconnected \<Longrightarrow> live w c \<Longrightarrow>
    \<exists>w'. runs (run_functor E user tid l) (map (\<lambda>(t, m). F_sendInLoop c m) ms) w = Inr w' \<and> conn_inv E tid c w'
      \<and> stream E c w' = stream E c w @ concat (map snd ms)"
proof (induction ms arbitrary: w)
  case (Cons x ms)
  have nb: "\<not> write_broken E c (snd x) w"
    using assms(2) by (fastforce simp: write_broken_def never_reset_def split: prod.splits)
  obtain v where v: "sendInLoop E tid c (snd x) w = Inr v" "op_ok E tid c (snd x) w v"
      "co_state (conns v c) = co_state (conns w c)"
    using sendInLoop_ok [OF assms(1) Cons.prems(1,2), of "snd x"] nb by auto
  moreover have "live v c" using frame_ofD(6) [OF frame_sendInLoop [OF v(1)]] Cons.prems(3) by simp
  ultimately obtain w' where "runs (run_functor E user tid l) (map (\<lambda>(t, m). F_sendInLoop c m) ms) v = Inr w'"
      "conn_inv E tid c w'" "stream E c w' = stream E c v @ concat (map snd ms)"
    using Cons.IH [of v] Cons.prems(2) by (auto simp: op_ok_def)
  with v Cons.prems(3) show ?case by (cases x) (auto simp: op_ok_def run_functor_send)
qed simp

section \<open>Passes of the loop\<close>

abbreviation server_pass :: "('r, ('r, 'm) sworld_scheme) cenv
    \<Rightarrow> (nat \<Rightarrow> ('r, 'm) sworld_scheme \<Rightarrow> ('r, 'm) sworld_scheme res)
    \<Rightarrow> (('r, 'm) sworld_scheme \<Rightarrow> nat \<times> nat) \<Rightarrow> (nat \<Rightarrow> nat \<Rightarrow> nat) \<Rightarrow> bool \<Rightarrow> nat \<Rightarrow> nat \<Rightarrow> poll_result
    \<Rightarrow> ('r, 'm) sworld_scheme \<Rightarrow> ('r, 'm) sworld_scheme res" where
  "server_pass E user fresh getNextLoop no_accept4 tid l \<equiv>
     loop_body (run_channel_cb E user fresh getNextLoop no_accept4 tid) (run_functor E user tid l) l"

abbreviation functors_done :: "nat \<Rightarrow> ('r, 'm) sworld_scheme \<Rightarrow> ('r, 'm) sworld_scheme" where
  "functors_done l \<equiv> upd_loop l (\<lambda>el. el\<lparr>el_callingPendingFunctors := False\<rparr>)"

abbreviation handling :: "nat \<Rightarrow> bool \<Rightarrow> ('r, 'm) sworld_scheme \<Rightarrow> ('r, 'm) sworld_scheme" where
  "handling ch b \<equiv> upd_chan ch (\<lambda>c. c\<lparr>ch_eventHandling := b\<rparr>)"

lemmas poll_masks = POLLIN_def POLLHUP_def POLLERR_def POLLNVAL_def POLLPRI_def POLLRDHUP_def POLLOUT_def

subsection \<open>A pass that finds only the wakeup channel readable\<close>

lemma wakeup_event:
  assumes "ch_revents (chans w wc) = POLLIN" and "ch_readCallback (chans w wc) = Some (Cb_loop_handleRead l)"
    and "\<not> ch_tied (chans w wc)"
  shows "handleEvent (run_channel_cb E user fresh getNextLoop no_accept4 tid) wc t w =
    Inr (upd_loop l el_handleRead (handling wc False w))"
  using assms
  by (simp add: handleEvent_def handleEventWithGuard_def call_opt_def run_channel_cb_def world_ops poll_masks)

text \<open>The state in which such a pass runs the functors.\<close>

definition woken :: "nat \<Rightarrow> timestamp \<Rightarrow> ('r, 'm) sworld_scheme \<Rightarrow> ('r, 'm) sworld_scheme" where
  "woken l t w =
     upd_loop l (\<lambda>el. el\<lparr>el_activeChannels := [el_wakeupChannel el], el_pollReturnTime := t,
         el_iteration := el_iteration el + 1, el_wakeups := 0, el_currentActiveChannel := None,
         el_eventHandling := False, el_callingPendingFunctors := True, el_pendingFunctors := []\<rparr>)
       (upd_chan (el_wakeupChannel (loops w l)) (\<lambda>ch. ch\<lparr>ch_revents := POLLIN, ch_eventHandling := False\<rparr>) w)"

lemma wakeup_pass:
  assumes "wakeup_wired l w"
  shows "server_pass E user fresh getNextLoop no_accept4 tid l (t, [(el_wakeupChannel (loops w l), POLLIN)]) w =
    rbind (runs (run_functor E user tid l) (el_pendingFunctors (loops w l)) (woken l t w)) (\<lambda>v. Inr (functors_done l v))"
  using assms
  by (simp add: loop_body_def wakeup_event wakeup_wired_def set_revents_def doPendingFunctors_def woken_def world_ops
      el_handleRead_def comp_def)

lemma woken_fields [simp]:
  "conns (woken l t w) = conns w" "sys (woken l t w) = sys w" "live (woken l t w) = live w"
  "servers (woken l t w) = servers w" "isInLoopThread u j (woken l t w) = isInLoopThread u j w"
  "el_wakeupChannel (loops (woken l t w) j) = el_wakeupChannel (loops w j)"
  "el_channels (loops (woken l t w) j) = el_channels (loops w j)"
  "el_pendingFunctors (loops (woken l t w) j) = (if j = l then [] else el_pendingFunctors (loops w j))"
  "\<not> el_eventHandling (loops (woken l t w) l)"
  "ch \<noteq> el_wakeupChannel (loops w l) \<Longrightarrow> chans (woken l t w) ch = chans w ch"
  "ch_readCallback (chans (woken l t w) ch) = ch_readCallback (chans w ch)"
  "ch_tied (chans (woken l t w) ch) = ch_tied (chans w ch)"
  by (simp_all add: woken_def isInLoopThread_def)

lemma pass_delivers:
  fixes w :: "('r, 'm) sworld_scheme"
  assumes "env_ok E" and "never_reset (en_os E)" and "conn_inv E tid c w" and "co_state (conns w c) = kConnected" and "live w c"
    and l: "l = co_loop (conns w c)" and "wakeup_wired l w" and "el_wakeupChannel (loops w l) \<noteq> co_channel (conns w c)"
    and p: "el_pendingFunctors (loops w l) = map (\<lambda>(t, m). F_sendInLoop c m) ms"
  shows "\<exists>w'. server_pass E user fresh getNextLoop no_accept4 tid l (t, [(el_wakeupChannel (loops w l), POLLIN)]) w = Inr w'
    \<and> stream E c w' = stream E c w @ concat (map snd ms) \<and> conn_inv E tid c w'"
proof -
  let ?u = "woken l t w"
  have u: "conn_inv E tid c ?u" "co_state (conns ?u c) \<noteq> kDisconnected" "stream E c ?u = stream E c w" "live ?u c"
    using assms(3,4,5,8) by (auto simp: conn_inv_def conn_wf_def stream_def)
  from run_sends [OF assms(1,2) u(1,2,4)] obtain v where
    v: "runs (run_functor E user tid l) (map (\<lambda>(t, m). F_sendInLoop c m) ms) ?u = Inr v" "conn_inv E tid c v"
      "stream E c v = stream E c ?u @ concat (map snd ms)" by blast
  have "conn_inv E tid c (functors_done l v)" "stream E c (functors_done l v) = stream E c v"
    using v(2) by (auto simp: conn_inv_def conn_wf_def isInLoopThread_def stream_def)
  then show ?thesis unfolding wakeup_pass [OF assms(7)] p using v u(3) by simp
qed

subsection \<open>A pass that finds one channel active\<close>

text \<open>The state in which the loop dispatches the event \<open>r\<close> of the channel \<open>ch\<close>, and the state in which
  \<open>doPendingFunctors\<close> runs the functors afterwards.\<close>

definition polled :: "nat \<Rightarrow> nat \<Rightarrow> 32 word \<Rightarrow> timestamp \<Rightarrow> ('r, 'm) sworld_scheme \<Rightarrow> ('r, 'm) sworld_scheme" where
  "polled l ch r t w =
     upd_loop l (\<lambda>el. el\<lparr>el_activeChannels := [ch], el_pollReturnTime := t, el_iteration := el_iteration el + 1,
         el_eventHandling := True, el_currentActiveChannel := Some ch\<rparr>)
       (upd_chan ch (\<lambda>c. c\<lparr>ch_revents := r\<rparr>) w)"

definition swept :: "nat \<Rightarrow> nat \<Rightarrow> ('r, 'm) sworld_scheme \<Rightarrow> ('r, 'm) sworld_scheme" where
  "swept l ch w =
     upd_loop l (\<lambda>el. el\<lparr>el_currentActiveChannel := None, el_eventHandling := False,
         el_callingPendingFunctors := True, el_pendingFunctors := []\<rparr>) (handling ch False w)"

lemma polled_fields [simp]:
  "conns (polled l ch r t w) = conns w" "sys (polled l ch r t w) = sys w" "servers (polled l ch r t w) = servers w"
  "acceptors (polled l ch r t w) = acceptors w"
  "live (polled l ch r t w) = live w" "isInLoopThread u j (polled l ch r t w) = isInLoopThread u j w"
  "chans (polled l ch r t w) = (chans w)(ch := (chans w ch)\<lparr>ch_revents := r\<rparr>)"
  "el_wakeupChannel (loops (polled l ch r t w) j) = el_wakeupChannel (loops w j)"
  "el_channels (loops (polled l ch r t w) j) = el_channels (loops w j)"
  "el_wakeups (loops (polled l ch r t w) j) = el_wakeups (loops w j)"
  "el_pendingFunctors (loops (polled l ch r t w) j) = el_pendingFunctors (loops w j)"
  by (simp_all add: polled_def isInLoopThread_def)

lemma swept_fields [simp]:
  "conns (swept l ch w) = conns w" "sys (swept l ch w) = sys w" "servers (swept l ch w) = servers w"
  "live (swept l ch w) = live w" "isInLoopThread t j (swept l ch w) = isInLoopThread t j w"
  "chans (swept l ch w) = (chans w)(ch := (chans w ch)\<lparr>ch_eventHandling := False\<rparr>)"
  "\<not> el_eventHandling (loops (swept l ch w) l)"
  "el_wakeupChannel (loops (swept l ch w) j) = el_wakeupChannel (loops w j)"
  "el_channels (loops (swept l ch w) j) = el_channels (loops w j)"
  "el_wakeups (loops (swept l ch w) j) = el_wakeups (loops w j)"
  "el_pendingFunctors (loops (swept l ch w) j) = (if j = l then [] else el_pendingFunctors (loops w j))"
  by (simp_all add: swept_def isInLoopThread_def)

lemma one_channel_pass:
  assumes "handleEvent (run_channel_cb E user fresh getNextLoop no_accept4 tid) ch t (polled l ch r t w) = Inr (handling ch False v)"
  shows "server_pass E user fresh getNextLoop no_accept4 tid l (t, [(ch, r)]) w =
    rbind (runs (run_functor E user tid l) (el_pendingFunctors (loops v l)) (swept l ch v)) (\<lambda>w. Inr (functors_done l w))"
proof -
  have "(upd_loop l (\<lambda>el. el\<lparr>el_currentActiveChannel := Some ch\<rparr>)
      (upd_loop l (\<lambda>el. el\<lparr>el_activeChannels := [ch], el_pollReturnTime := t, el_iteration := el_iteration el + 1,
         el_eventHandling := True\<rparr>) (upd_chan ch (\<lambda>c. c\<lparr>ch_revents := r\<rparr>) w))) = polled l ch r t w"
    by (simp add: polled_def world_ops comp_def)
  then show ?thesis
    by (simp add: loop_body_def set_revents_def assms doPendingFunctors_def swept_def) (simp add: world_ops comp_def)
qed

text \<open>The peer of a connection has hung up.\<close>

abbreviation closing :: "nat \<Rightarrow> nat \<Rightarrow> timestamp \<Rightarrow> ('r, 'm) sworld_scheme \<Rightarrow> ('r, 'm) sworld_scheme" where
  "closing l ch t w \<equiv> handling ch True (polled l ch POLLHUP t w)"

lemma hang_up_pass:
  assumes "ch_closeCallback (chans w ch) = Some (Cb_conn_handleClose c)" and "ch_tie (chans w ch) = Some c" and "live w c"
    and v: "handleClose E tid c (closing l ch t w) = Inr v" "ch_revents (chans v ch) = POLLHUP"
  shows "server_pass E user fresh getNextLoop no_accept4 tid l (t, [(ch, POLLHUP)]) w =
    rbind (runs (run_functor E user tid l) (el_pendingFunctors (loops v l)) (swept l ch v)) (\<lambda>w. Inr (functors_done l w))"
  by (rule one_channel_pass)
    (simp add: handleEvent_def handleEventWithGuard_def call_opt_def run_channel_cb_def v assms(1-3), simp add: poll_masks)

text \<open>A channel that is not tied is readable.\<close>

lemma readable_pass:
  assumes "ch_readCallback (chans w ch) = Some cb" and "\<not> ch_tied (chans w ch)"
    and v: "run_channel_cb E user fresh getNextLoop no_accept4 tid cb t (handling ch True (polled l ch POLLIN t w)) = Inr v"
      "ch_revents (chans v ch) = POLLIN"
  shows "server_pass E user fresh getNextLoop no_accept4 tid l (t, [(ch, POLLIN)]) w =
    rbind (runs (run_functor E user tid l) (el_pendingFunctors (loops v l)) (swept l ch v)) (\<lambda>w. Inr (functors_done l w))"
  by (rule one_channel_pass)
    (simp add: handleEvent_def handleEventWithGuard_def call_opt_def v assms(1,2), simp add: poll_masks v)

end
