(* ===== verification/Server_Teardown.thy ===== *)
theory Server_Teardown
  imports Server_Loop
begin

text \<open>
  The end of a connection, through all the components that take part: the channel reports the
  hang-up, \<open>TcpConnection::handleClose\<close> tells the user and the server, \<open>TcpServer::removeConnection\<close> takes the
  connection out of its map, \<open>connectDestroyed\<close> takes the channel out of the poller, and the
  destructor closes the socket. When the connection lives on the loop of the server this is one pass
  of that loop. When it lives on a loop of the thread pool it takes three passes of two
  loops, which hand the work over through their functor queues.
\<close>

section \<open>What handleClose leaves\<close>

text \<open>A connection of the server \<open>s\<close>, with the default connection callback.\<close>

definition served :: "('r, ('r, 'm) sworld_scheme) cenv \<Rightarrow> nat \<Rightarrow> nat \<Rightarrow> nat \<Rightarrow> string \<Rightarrow> ('r, 'm) sworld_scheme \<Rightarrow> bool" where
  "served E tid s c k w \<longleftrightarrow>
     conn_inv E tid c w \<and> may_close (conns w c) \<and> server_ok s w \<and> conn_map s w k = Some c \<and>
     co_connectionCallback (conns w c) = Some CB_defaultConnection \<and>
     (\<forall>v. en_close E s c v = removeConnection tid s c v)"

lemma servedD:
  assumes "served E tid s c k w"
  shows "conn_inv E tid c w" "may_close (conns w c)" "server_ok s w" "conn_map s w k = Some c"
    "co_name (conns w c) = k" "snd (map_erase k (sv_connections (servers w s))) = 1"
  using assms map_erase_count [of "sv_connections (servers w s)" k]
  by (auto simp: served_def server_ok_entries server_ok_def conn_map_def)

text \<open>The wiring of an established connection: the close callback of its channel, and the tie to the
  connection, which is alive.\<close>

definition wired :: "nat \<Rightarrow> ('r, 'm) sworld_scheme \<Rightarrow> bool" where
  "wired c w \<longleftrightarrow> ch_closeCallback (conn_chan c w) = Some (Cb_conn_handleClose c) \<and> ch_tie (conn_chan c w) = Some c \<and> live w c"

lemma registered_frame [simp]:
  "servers (registered i ch w) = servers w" "conns (registered i ch w) = conns w" "sys (registered i ch w) = sys w"
  "isInLoopThread tid l (registered i ch w) = isInLoopThread tid l w" "live (registered i ch w) = live w"
  "chans (registered i ch w) = (chans w)(ch := (chans w ch)\<lparr>ch_addedToLoop := True, ch_index := i\<rparr>)"
  "el_pendingFunctors (loops (registered i ch w) j) = el_pendingFunctors (loops w j)"
  "el_wakeupChannel (loops (registered i ch w) j) = el_wakeupChannel (loops w j)"
  "el_wakeups (loops (registered i ch w) j) = el_wakeups (loops w j)"
  for w :: "('r, 'm) sworld_scheme"
  by (simp_all add: registered_def isInLoopThread_def)

lemma unregistered_frame [simp]:
  "servers (unregistered i ch w) = servers w" "conns (unregistered i ch w) = conns w" "sys (unregistered i ch w) = sys w"
  "isInLoopThread tid l (unregistered i ch w) = isInLoopThread tid l w" "live (unregistered i ch w) = live w"
  "chans (unregistered i ch w) = (chans w)(ch := (chans w ch)\<lparr>ch_addedToLoop := False, ch_index := i\<rparr>)"
  "el_pendingFunctors (loops (unregistered i ch w) j) = el_pendingFunctors (loops w j)"
  "el_wakeupChannel (loops (unregistered i ch w) j) = el_wakeupChannel (loops w j)"
  for w :: "('r, 'm) sworld_scheme"
  by (simp_all add: unregistered_def isInLoopThread_def)

text \<open>The state in which \<open>handleClose\<close> calls the close callback.\<close>

definition disconnected_by :: "nat \<Rightarrow> int \<Rightarrow> ('r, 'm) sworld_scheme \<Rightarrow> ('r, 'm) sworld_scheme" where
  "disconnected_by c i w =
     log_sys (Ev_connection c False)
       (registered i (co_channel (conns w c)) (upd_chan (co_channel (conns w c)) clear_all (setState c kDisconnected w)))"

lemma disconnected_by_fields [simp]:
  "conns (disconnected_by c i w) = (conns w)(c := (conns w c)\<lparr>co_state := kDisconnected\<rparr>)"
  "sys (disconnected_by c i w) = sys w @ [Ev_connection c False]"
  "live (disconnected_by c i w) = live w" "servers (disconnected_by c i w) = servers w"
  "isInLoopThread t j (disconnected_by c i w) = isInLoopThread t j w"
  "chans (disconnected_by c i w) = (chans w)(co_channel (conns w c) :=
     (clear_all (conn_chan c w))\<lparr>ch_addedToLoop := True, ch_index := i\<rparr>)"
  "el_pendingFunctors (loops (disconnected_by c i w) j) = el_pendingFunctors (loops w j)"
  "el_wakeupChannel (loops (disconnected_by c i w) j) = el_wakeupChannel (loops w j)"
  "el_wakeups (loops (disconnected_by c i w) j) = el_wakeups (loops w j)"
  by (simp_all add: disconnected_by_def setState_def)

lemma handleClose_default:
  assumes env: "env_ok E" and th: "isInLoopThread tid (co_loop (conns w c)) w" "ch_loop (conn_chan c w) = co_loop (conns w c)"
    and "may_close (conns w c)" and "co_connectionCallback (conns w c) = Some CB_defaultConnection"
  shows "\<exists>i. handleClose E tid c w = closeCallback E c (disconnected_by c i w)"
proof -
  let ?ch = "co_channel (conns w c)"
  obtain i where "disableAll (en_poller E) tid ?ch (setState c kDisconnected w) =
      Inr (registered i ?ch (upd_chan ?ch clear_all (setState c kDisconnected w)))"
    using ch_update_eq [OF env_okD(2) [OF env], of tid ?ch "upd_chan ?ch clear_all (setState c kDisconnected w)"] th
    by (auto simp: disableAll_def)
  then have "handleClose E tid c w = closeCallback E c (disconnected_by c i w)"
    using th assms(4,5)
    by (simp add: handleClose_def assertInLoopThread_def connectionCallback_def connected_def
        defaultConnectionCallback_def disconnected_by_def)
  then show ?thesis by blast
qed

lemma served_closing:
  assumes "served E tid s c k w"
  shows "served E tid s c k (closing l ch t w)"
  using assms
  by (auto simp: served_def polled_def conn_inv_def conn_wf_def isInLoopThread_def server_ok_def conn_map_def
      isWriting_def)

lemma handleClose_served:
  assumes env: "env_ok E" and sv: "served E tid s c k w"
  shows "\<exists>i. handleClose E tid c w = removeConnection tid s c (disconnected_by c i w)"
proof -
  have "co_closeCallback (conns w c) = Some s" using sv by (auto simp: served_def server_ok_entries)
  moreover obtain i where "handleClose E tid c w = closeCallback E c (disconnected_by c i w)"
    using handleClose_default [OF env, of tid w c] conn_invD(1,2) [OF servedD(1) [OF sv]] sv by (auto simp: served_def)
  ultimately show ?thesis using sv by (auto simp: closeCallback_def served_def)
qed

text \<open>The removal from the map, on the loop of the server.\<close>

definition forgotten :: "nat \<Rightarrow> nat \<Rightarrow> string \<Rightarrow> ('r, 'm) sworld_scheme \<Rightarrow> ('r, 'm) sworld_scheme" where
  "forgotten s c k w = upd_server s (\<lambda>sv. sv\<lparr>sv_connections := fst (map_erase k (sv_connections (servers w s)))\<rparr>) w"

lemma removeConnectionInLoop_once:
  assumes "isInLoopThread tid (sv_loop (servers w s)) w" and "co_name (conns w c) = k"
  shows "removeConnectionInLoop tid s c w =
    check (snd (map_erase k (sv_connections (servers w s))) = 1) Assertion_failed
      (Inr (queueInLoop tid (co_loop (conns w c)) (F_connectDestroyed c) (forgotten s c k w)))"
  using assms by (simp add: removeConnectionInLoop_def assertInLoopThread_def case_prod_beta Let_def forgotten_def)

lemma forgotten_fields [simp]:
  "conns (forgotten s c k w) = conns w" "sys (forgotten s c k w) = sys w" "live (forgotten s c k w) = live w"
  "chans (forgotten s c k w) = chans w" "loops (forgotten s c k w) = loops w"
  "isInLoopThread t j (forgotten s c k w) = isInLoopThread t j w"
  "sv_connections (servers (forgotten s c k w) s) = fst (map_erase k (sv_connections (servers w s)))"
  "sv_loop (servers (forgotten s c k w) s) = sv_loop (servers w s)"
  by (simp_all add: forgotten_def isInLoopThread_def)

section \<open>connectDestroyed and the destructor\<close>

lemma connectDestroyed_closed:
  assumes env: "env_ok E" and "co_state (conns w c) = kDisconnected" and "isInLoopThread tid (co_loop (conns w c)) w"
    and "ch_loop (conn_chan c w) = co_loop (conns w c)" and "isNoneEvent (conn_chan c w)"
    and "\<not> el_eventHandling (loops w (co_loop (conns w c)))"
  shows "\<exists>j. connectDestroyed E tid c w = Inr (unregistered j (co_channel (conns w c)) w)"
  using ch_remove_eq [OF env_okD(2) [OF env], of tid "co_channel (conns w c)" w] assms(2-6)
  by (auto simp: connectDestroyed_def assertInLoopThread_def may_remove_def Let_def)

text \<open>A connection that has gone through \<open>connectDestroyed\<close>.\<close>

definition torn_down :: "nat \<Rightarrow> ('r, 'm) sworld_scheme \<Rightarrow> bool" where
  "torn_down c w \<longleftrightarrow>
     co_state (conns w c) = kDisconnected \<and> \<not> ch_eventHandling (conn_chan c w) \<and> \<not> ch_addedToLoop (conn_chan c w) \<and>
     ch_loop (conn_chan c w) = co_loop (conns w c) \<and> ch_fd (conn_chan c w) = co_socket (conns w c) \<and>
     el_channels (loops w (co_loop (conns w c))) (co_socket (conns w c)) = None"

lemma destroy_torn_down:
  assumes "torn_down c w"
  shows "destroy_connection tid c w =
    Inr (destroy_socket (co_socket (conns w c)) (w\<lparr>live := (live w)(c := False)\<rparr>))"
  using assms
  by (auto simp: torn_down_def destroy_connection_def destroy_channel_def hasChannel_def pl_hasChannel_def
      assertInLoopThread_def check_def)

lemma torn_down_unregistered:
  fixes w :: "('r, 'm) sworld_scheme"
  assumes "co_state (conns w c) = kDisconnected" and "\<not> ch_eventHandling (conn_chan c w)"
    and "ch_loop (conn_chan c w) = co_loop (conns w c)" and "ch_fd (conn_chan c w) = co_socket (conns w c)"
  shows "torn_down c (functors_done l (unregistered j (co_channel (conns w c)) w))"
  using assms by (simp add: torn_down_def unregistered_def)

section \<open>On the loop of the server\<close>

lemma local_teardown:
  fixes w :: "('r, 'm) sworld_scheme"
  assumes env: "env_ok E" and sv: "served E tid s c k w" and "wired c w"
    and l: "l = co_loop (conns w c)" "sv_loop (servers w s) = l" and ch: "ch = co_channel (conns w c)"
    and p: "el_pendingFunctors (loops w l) = []"
  obtains w1 where "server_pass E user fresh getNextLoop no_accept4 tid l (t, [(ch, POLLHUP)]) w = Inr w1" "torn_down c w1"
    "conns w1 = (conns w)(c := (conns w c)\<lparr>co_state := kDisconnected\<rparr>)"
    "sys w1 = sys w @ [Ev_connection c False]" "live w1 = live w"
    "sv_connections (servers w1 s) = fst (map_erase k (sv_connections (servers w s)))" "sv_loop (servers w1 s) = l"
    "\<forall>u j. isInLoopThread u j w1 = isInLoopThread u j w" "el_pendingFunctors (loops w1 l) = []"
    "el_wakeupChannel (loops w1 l) = el_wakeupChannel (loops w l)"
    "\<forall>d. d \<noteq> ch \<longrightarrow> chans w1 d = chans w d"
proof -
  let ?u = "closing l ch t w"
  note sd = servedD [OF sv] and th = conn_invD(1-3) [OF servedD(1) [OF sv], folded l(1) ch]
  obtain i where i: "handleClose E tid c ?u = removeConnection tid s c (disconnected_by c i ?u)"
    using handleClose_served [OF env served_closing [OF sv]] by blast
  let ?v = "queueInLoop tid l (F_connectDestroyed c) (forgotten s c k (disconnected_by c i ?u))"
  have "removeConnection tid s c (disconnected_by c i ?u) = Inr ?v"
    using th(1) l sd(5,6) by (simp add: removeConnection_def runInLoop_def removeConnectionInLoop_once [where k = k])
  then have v: "handleClose E tid c ?u = Inr ?v" using i by simp
  have r: "ch_revents (chans ?v ch) = POLLHUP" by (simp add: ch clear_all_def)
  have q: "el_pendingFunctors (loops ?v l) = [F_connectDestroyed c]" using p by simp
  let ?x = "swept l ch ?v"
  have "isNoneEvent (chans ?x ch)" by (simp add: ch isNoneEvent_def clear_all_def)
  then obtain j where j: "connectDestroyed E tid c ?x = Inr (unregistered j ch ?x)"
    using connectDestroyed_closed [OF env, of ?x c tid] th by (auto simp: l(1) ch)
  let ?w1 = "functors_done l (unregistered j ch ?x)"
  have "server_pass E user fresh getNextLoop no_accept4 tid l (t, [(ch, POLLHUP)]) w = Inr ?w1"
    using hang_up_pass [OF _ _ _ v r] assms(3) j unfolding q by (simp add: wired_def ch run_functor_def)
  moreover have "torn_down c ?w1"
    using torn_down_unregistered [of ?x c l j] th by (simp add: ch l(1))
  ultimately show ?thesis
    using l(2) by (intro that [of ?w1]) (simp_all add: ch)
qed

section \<open>On another loop\<close>

text \<open>First the loop of the connection: it tells the user and leaves the rest to the loop of the server.\<close>

lemma remote_close_pass:
  fixes w :: "('r, 'm) sworld_scheme"
  assumes env: "env_ok E" and sv: "served E tid s c k w" and "wired c w"
    and l: "l = co_loop (conns w c)" "sv_loop (servers w s) = b" "b \<noteq> l" "\<not> isInLoopThread tid b w"
    and ch: "ch = co_channel (conns w c)" and p: "el_pendingFunctors (loops w l) = []"
  obtains w1 where "server_pass E user fresh getNextLoop no_accept4 tid l (t, [(ch, POLLHUP)]) w = Inr w1"
    "conns w1 = (conns w)(c := (conns w c)\<lparr>co_state := kDisconnected\<rparr>)"
    "sys w1 = sys w @ [Ev_connection c False]" "servers w1 = servers w"
    "\<forall>u j. isInLoopThread u j w1 = isInLoopThread u j w" "el_pendingFunctors (loops w1 l) = []"
    "0 < el_wakeups (loops w1 b)"
    "el_pendingFunctors (loops w1 b) = el_pendingFunctors (loops w b) @ [F_removeConnectionInLoop s c]"
    "\<forall>j. el_wakeupChannel (loops w1 j) = el_wakeupChannel (loops w j)"
    "\<forall>d. d \<noteq> ch \<longrightarrow> chans w1 d = chans w d" "isNoneEvent (chans w1 ch)"
    "\<not> ch_eventHandling (chans w1 ch)" "ch_loop (chans w1 ch) = ch_loop (chans w ch)"
    "ch_fd (chans w1 ch) = ch_fd (chans w ch)"
proof -
  let ?u = "closing l ch t w"
  obtain i where i: "handleClose E tid c ?u = removeConnection tid s c (disconnected_by c i ?u)"
    using handleClose_served [OF env served_closing [OF sv]] by blast
  let ?v = "queueInLoop tid b (F_removeConnectionInLoop s c) (disconnected_by c i ?u)"
  have v: "handleClose E tid c ?u = Inr ?v" using i l(2,4) by (simp add: removeConnection_def runInLoop_def)
  have r: "ch_revents (chans ?v ch) = POLLHUP" by (simp add: ch clear_all_def)
  have q: "el_pendingFunctors (loops ?v l) = []" using p l(3) by simp
  let ?w1 = "functors_done l (swept l ch ?v)"
  have "server_pass E user fresh getNextLoop no_accept4 tid l (t, [(ch, POLLHUP)]) w = Inr ?w1"
    using hang_up_pass [OF _ _ _ v r] assms(3) unfolding q by (simp add: wired_def ch)
  moreover have "0 < el_wakeups (loops ?w1 b)"
    using l(3,4) foreign_queue_wakes [of tid b "disconnected_by c i ?u"] by simp
  ultimately show ?thesis
    using l(3) by (intro that [of ?w1]) (simp_all add: ch isNoneEvent_def clear_all_def)
qed

text \<open>Then the loop of the server: it takes the connection out of the map.\<close>

lemma remove_pass:
  fixes w :: "('r, 'm) sworld_scheme"
  assumes "wakeup_wired b w" and p: "el_pendingFunctors (loops w b) = [F_removeConnectionInLoop s c]"
    and "sv_loop (servers w s) = b" and "isInLoopThread tid b w" and "co_name (conns w c) = k"
    and "snd (map_erase k (sv_connections (servers w s))) = 1"
    and l: "l = co_loop (conns w c)" "l \<noteq> b" "\<not> isInLoopThread tid l w"
  obtains w2 where
    "server_pass E user fresh getNextLoop no_accept4 tid b (t, [(el_wakeupChannel (loops w b), POLLIN)]) w = Inr w2"
    "conns w2 = conns w" "sys w2 = sys w" "\<forall>u j. isInLoopThread u j w2 = isInLoopThread u j w"
    "sv_connections (servers w2 s) = fst (map_erase k (sv_connections (servers w s)))"
    "el_pendingFunctors (loops w2 l) = el_pendingFunctors (loops w l) @ [F_connectDestroyed c]" "0 < el_wakeups (loops w2 l)"
    "\<forall>j. el_wakeupChannel (loops w2 j) = el_wakeupChannel (loops w j)"
    "\<forall>d. d \<noteq> el_wakeupChannel (loops w b) \<longrightarrow> chans w2 d = chans w d"
    "wakeup_wired l w \<longrightarrow> wakeup_wired l w2"
proof -
  let ?x = "forgotten s c k (woken b t w)"
  let ?w2 = "functors_done b (queueInLoop tid l (F_connectDestroyed c) ?x)"
  have "removeConnectionInLoop tid s c (woken b t w) = Inr (queueInLoop tid l (F_connectDestroyed c) ?x)"
    using assms(3-6) by (simp add: removeConnectionInLoop_once [where k = k] l(1))
  then have "server_pass E user fresh getNextLoop no_accept4 tid b (t, [(el_wakeupChannel (loops w b), POLLIN)]) w = Inr ?w2"
    unfolding wakeup_pass [OF assms(1)] p by (simp add: run_functor_def)
  moreover have "0 < el_wakeups (loops ?w2 l)"
    using l(2,3) foreign_queue_wakes [of tid l ?x] by simp
  ultimately show ?thesis
    using l(2) by (intro that [of ?w2]) (simp_all add: wakeup_wired_def)
qed

text \<open>Then the loop of the connection again: it takes the channel out of the poller.\<close>

lemma destroyed_pass:
  fixes w :: "('r, 'm) sworld_scheme"
  assumes env: "env_ok E" and "wakeup_wired l w" and p: "el_pendingFunctors (loops w l) = [F_connectDestroyed c]"
    and l: "l = co_loop (conns w c)" "isInLoopThread tid l w" and ch: "ch = co_channel (conns w c)" "ch \<noteq> el_wakeupChannel (loops w l)"
    and "co_state (conns w c) = kDisconnected" "isNoneEvent (chans w ch)" "\<not> ch_eventHandling (chans w ch)"
    and "ch_loop (chans w ch) = l" "ch_fd (chans w ch) = co_socket (conns w c)"
  obtains w3 where
    "server_pass E user fresh getNextLoop no_accept4 tid l (t, [(el_wakeupChannel (loops w l), POLLIN)]) w = Inr w3"
    "torn_down c w3" "conns w3 = conns w" "sys w3 = sys w" "servers w3 = servers w"
proof -
  let ?x = "woken l t w"
  obtain j where j: "connectDestroyed E tid c ?x = Inr (unregistered j ch ?x)"
    using connectDestroyed_closed [OF env, of ?x c tid] assms(4-) by auto
  let ?w3 = "functors_done l (unregistered j ch ?x)"
  have "server_pass E user fresh getNextLoop no_accept4 tid l (t, [(el_wakeupChannel (loops w l), POLLIN)]) w = Inr ?w3"
    unfolding wakeup_pass [OF assms(2)] p by (simp add: run_functor_def j)
  moreover have "torn_down c ?w3"
    using torn_down_unregistered [of ?x c l j] assms(6-) by (simp add: l(1))
  ultimately show ?thesis by (intro that [of ?w3]) simp_all
qed

section \<open>After the teardown\<close>

lemma torn_down_queue: "torn_down c w \<Longrightarrow> torn_down c (queueInLoop t l cb w)"
  for w :: "('r, 'm) sworld_scheme"
  by (auto simp: torn_down_def)

lemma destroy_socket_fields [simp]:
  "loops (destroy_socket fd w) = loops w" "chans (destroy_socket fd w) = chans w" "live (destroy_socket fd w) = live w"
  "sys (destroy_socket fd w) = sys w @ [Ev_close fd]"
  by (simp_all add: destroy_socket_def sockets_close_def)

text \<open>A connection that is closed a second time is not in the map any more.\<close>

lemma removeConnection_twice:
  assumes "map_ok m" and "sv_connections (servers w s) = fst (map_erase k m)" and "co_name (conns w c) = k"
    and "isInLoopThread tid (sv_loop (servers w s)) w"
  shows "removeConnection tid s c w = Inl Assertion_failed"
proof -
  have "snd (map_erase k (fst (map_erase k m))) = 0"
    using map_erase_count [OF map_erase_ok [OF assms(1)], of k k] map_erase_of [OF assms(1), of k] by (simp add: domIff)
  then show ?thesis
    using removeConnectionInLoop_once [OF assms(4,3)] assms(2,4) by (simp add: removeConnection_def runInLoop_def check_def)
qed

lemma second_close:
  assumes "env_ok E" and sv: "served E tid s c k w0" and "co_state (conns w c) = kDisconnecting"
    and "co_connectionCallback (conns w c) = co_connectionCallback (conns w0 c)" "co_closeCallback (conns w c) = co_closeCallback (conns w0 c)"
    and "co_name (conns w c) = co_name (conns w0 c)" and "isInLoopThread tid (co_loop (conns w c)) w"
    and "ch_loop (conn_chan c w) = co_loop (conns w c)" and "sv_loop (servers w s) = co_loop (conns w c)"
    and m: "sv_connections (servers w s) = fst (map_erase k (sv_connections (servers w0 s)))"
  shows "forceCloseInLoop E tid c w = Inl Assertion_failed"
proof -
  have cb: "co_closeCallback (conns w0 c) = Some s" "map_ok (sv_connections (servers w0 s))"
    using sv by (auto simp: served_def server_ok_entries server_ok_def)
  obtain i where i: "handleClose E tid c w = closeCallback E c (disconnected_by c i w)"
    using handleClose_default [OF assms(1), of tid w c] assms(3-8) sv by (auto simp: served_def may_close_def)
  have "removeConnection tid s c (disconnected_by c i w) = Inl Assertion_failed"
    by (rule removeConnection_twice [OF cb(2), where k = k]) (use assms(6,7,9) m servedD(5) [OF sv] in simp_all)
  then show ?thesis
    using i cb assms(3,5,7) sv
    by (simp add: forceCloseInLoop_def assertInLoopThread_def may_close_def closeCallback_def served_def)
qed

section \<open>Sample servers\<close>

text \<open>The served connection of \<open>Tcp_Server_Properties\<close>, established, in a loop whose wakeup channel is 0.\<close>

definition sample_established :: "nat sworld" where
  "sample_established = upd_chan 2 (ch_tie_to 1) (upd_chan 0 (setReadCallback (Cb_loop_handleRead 0)) sample_serving)"

lemma sample_established_fields:
  "co_state (conns sample_established 1) = kConnected" "co_loop (conns sample_established 1) = 0"
  "co_channel (conns sample_established 1) = 2" "co_socket (conns sample_established 1) = 6"
  "el_wakeupChannel (loops sample_established 0) = 0" "el_pendingFunctors (loops sample_established 0) = []"
  "isInLoopThread t 0 sample_established \<longleftrightarrow> t = 7"
  "ch_readCallback (chans sample_established 0) = Some (Cb_loop_handleRead 0)" "\<not> ch_tied (chans sample_established 0)"
  "ch_closeCallback (chans sample_established 2) = Some (Cb_conn_handleClose 1)"
  "ch_tie (chans sample_established 2) = Some 1" "live sample_established 1"
  by (simp_all add: sample_established_def sample_serving_def setState_def upd_server_def upd_conn_def new_connection_def
      setKeepAlive_def log_sys_def Let_def blank_sworld_def fresh_event_loop_def new_channel_def setReadCallback_def
      ch_tie_to_def upd_chan_def isInLoopThread_def)

lemma sample_established_loop: "sv_loop (servers sample_established 0) = 0"
  by (simp add: sample_established_def sample_serving_def new_connection_fields sample_server_def)

lemma sample_established_wired: "wired 1 sample_established" "wakeup_wired 0 sample_established"
  using sample_established_fields by (simp_all add: wired_def wakeup_wired_def)

lemma sample_established_inv: "conn_inv server_env 7 1 sample_established"
  using sample_serving_ok(3)
  by (auto simp: sample_established_def conn_inv_def conn_wf_def isInLoopThread_def setReadCallback_def ch_tie_to_def
      isWriting_def)

lemma sample_established_map: "conn_map 0 sample_established = [''echo-0.0.0.0:80#1'' \<mapsto> 1]"
  using sample_serving_ok(2) by (simp add: sample_established_def conn_map_def)

lemma sample_established_served: "served server_env 7 0 1 ''echo-0.0.0.0:80#1'' sample_established"
proof -
  have "server_ok 0 sample_established" using sample_serving_ok(1) by (simp add: sample_established_def server_ok_def)
  moreover have "co_connectionCallback (conns sample_established 1) = Some CB_defaultConnection"
    by (simp add: sample_established_def sample_serving_def new_connection_fields)
  ultimately show ?thesis
    using sample_established_inv sample_established_map sample_established_fields(1,2)
    by (simp add: served_def may_close_def)
qed

text \<open>The same server on a loop of its own, number 1, with thread 8 and the wakeup channel 9.\<close>

definition sample_two_loops :: "nat sworld" where
  "sample_two_loops = upd_server 0 (\<lambda>sv. sv\<lparr>sv_loop := 1\<rparr>)
     (upd_chan 9 (setReadCallback (Cb_loop_handleRead 1))
       (upd_loop 1 (\<lambda>_. (fresh_event_loop 8)\<lparr>el_wakeupChannel := 9\<rparr>) sample_established))"

lemma sample_two_loops_fields:
  "conns sample_two_loops = conns sample_established" "sys sample_two_loops = sys sample_established"
  "chans sample_two_loops 2 = chans sample_established 2" "sv_loop (servers sample_two_loops 0) = 1"
  "el_wakeupChannel (loops sample_two_loops 0) = 0" "el_wakeupChannel (loops sample_two_loops 1) = 9"
  "el_pendingFunctors (loops sample_two_loops 0) = []" "el_pendingFunctors (loops sample_two_loops 1) = []"
  "isInLoopThread t 0 sample_two_loops \<longleftrightarrow> t = 7" "isInLoopThread t 1 sample_two_loops \<longleftrightarrow> t = 8"
  using sample_established_fields
  by (simp_all add: sample_two_loops_def isInLoopThread_def fresh_event_loop_def)

lemma sample_two_loops_wired: "wired 1 sample_two_loops" "wakeup_wired 0 sample_two_loops" "wakeup_wired 1 sample_two_loops"
proof -
  have "\<not> ch_tied (chans sample_established 9)"
    by (simp add: sample_established_def sample_serving_def new_connection_def setKeepAlive_def Let_def blank_sworld_def
        new_channel_def ch_tie_to_def setReadCallback_def)
  then show "wired 1 sample_two_loops" "wakeup_wired 0 sample_two_loops" "wakeup_wired 1 sample_two_loops"
    using sample_established_fields
    by (simp_all add: wired_def wakeup_wired_def sample_two_loops_def setReadCallback_def)
qed

lemma sample_two_loops_served:
  "served server_env 7 0 1 ''echo-0.0.0.0:80#1'' sample_two_loops"
  "conn_map 0 sample_two_loops = [''echo-0.0.0.0:80#1'' \<mapsto> 1]"
proof -
  have "isInLoopThread 7 0 sample_two_loops" by (simp add: sample_two_loops_fields)
  then show "served server_env 7 0 1 ''echo-0.0.0.0:80#1'' sample_two_loops"
    "conn_map 0 sample_two_loops = [''echo-0.0.0.0:80#1'' \<mapsto> 1]"
    using sample_established_served sample_established_map sample_established_fields(2,3)
    by (auto simp: served_def sample_two_loops_def conn_inv_def conn_wf_def server_ok_def conn_map_def
        conn_name_def)
qed

end
