(* ===== verification/Server_Accept.thy ===== *)
theory Server_Accept
  imports Server_Teardown
begin

text \<open>
  The start of a connection that will live on a loop of the thread pool: the acceptor's channel is
  readable on the loop of the server, \<open>TcpServer::newConnection\<close> enters the connection into the map and
  hands it to its loop, and that loop establishes it. The state after these two passes is the one from
  which \<open>Server_Teardown\<close> takes the connection down.
\<close>

section \<open>connectEstablished\<close>

text \<open>What \<open>connectEstablished\<close> makes of a connection with the default connection callback.\<close>

definition established_by :: "nat \<Rightarrow> int \<Rightarrow> ('r, 'm) sworld_scheme \<Rightarrow> ('r, 'm) sworld_scheme" where
  "established_by c i w =
     log_sys (Ev_connection c True)
       (registered i (co_channel (conns w c))
         (upd_chan (co_channel (conns w c)) (set_reading \<circ> ch_tie_to c) (setState c kConnected w)))"

lemma established_by_fields [simp]:
  "conns (established_by c i w) = (conns w)(c := (conns w c)\<lparr>co_state := kConnected\<rparr>)"
  "sys (established_by c i w) = sys w @ [Ev_connection c True]"
  "live (established_by c i w) = live w" "servers (established_by c i w) = servers w"
  "isInLoopThread t j (established_by c i w) = isInLoopThread t j w"
  "chans (established_by c i w) = (chans w)(co_channel (conns w c) :=
     (set_reading (ch_tie_to c (conn_chan c w)))\<lparr>ch_addedToLoop := True, ch_index := i\<rparr>)"
  "el_pendingFunctors (loops (established_by c i w) j) = el_pendingFunctors (loops w j)"
  "el_wakeupChannel (loops (established_by c i w) j) = el_wakeupChannel (loops w j)"
  "el_channels (loops (established_by c i w) (ch_loop (conn_chan c w))) (ch_fd (conn_chan c w)) = Some (co_channel (conns w c))"
  by (simp_all add: established_by_def setState_def registered_def isInLoopThread_def ch_tie_to_def)

lemma connectEstablished_default:
  assumes env: "env_ok E" and th: "isInLoopThread tid (co_loop (conns w c)) w" "ch_loop (conn_chan c w) = co_loop (conns w c)"
    and "co_state (conns w c) = kConnecting" and "co_connectionCallback (conns w c) = Some CB_defaultConnection"
  shows "\<exists>i. connectEstablished E tid c w = Inr (established_by c i w)"
proof -
  let ?ch = "co_channel (conns w c)"
  let ?u = "upd_chan ?ch (set_reading \<circ> ch_tie_to c) (setState c kConnected w)"
  have u: "upd_chan ?ch set_reading (upd_chan ?ch (ch_tie_to c) (setState c kConnected w)) = ?u" by (simp add: upd_chan_def)
  obtain i where "enableReading (en_poller E) tid ?ch (upd_chan ?ch (ch_tie_to c) (setState c kConnected w)) =
      Inr (registered i ?ch ?u)"
    using ch_update_eq [OF env_okD(2) [OF env], of tid ?ch ?u] th u by (auto simp: enableReading_def ch_tie_to_def)
  then have "connectEstablished E tid c w = Inr (established_by c i w)"
    using th assms(4,5)
    by (simp add: connectEstablished_def assertInLoopThread_def connectionCallback_def connected_def
        defaultConnectionCallback_def established_by_def Let_def)
  then show ?thesis by blast
qed

lemma server_ok_cong:
  assumes "servers w' = servers w" and "\<And>d. co_name (conns w' d) = co_name (conns w d)"
    and "\<And>d. co_closeCallback (conns w' d) = co_closeCallback (conns w d)"
  shows "server_ok s w' = server_ok s w" "conn_map s w' = conn_map s w"
  by (simp_all add: server_ok_def conn_map_def assms)

section \<open>The two passes\<close>

text \<open>An acceptor of the server \<open>s\<close> that listens on the loop of the server.\<close>

definition accepting :: "nat \<Rightarrow> nat \<Rightarrow> ('r, 'm) sworld_scheme \<Rightarrow> bool" where
  "accepting a s w \<longleftrightarrow>
     ac_loop (acceptors w a) = sv_loop (servers w s) \<and> ac_newConnectionCallback (acceptors w a) = Some s \<and>
     ch_readCallback (chans w (ac_channel (acceptors w a))) = Some (Cb_acceptor_handleRead a) \<and>
     \<not> ch_tied (chans w (ac_channel (acceptors w a)))"

lemma accept_pass:
  fixes w :: "('r, 'm) sworld_scheme"
  assumes "server_ok s w" "sv_nextConnId (servers w s) < 2 ^ 31" "c \<notin> ran (conn_map s w)" "accepting a s w"
    and b: "sv_loop (servers w s) = b" "isInLoopThread tb b w" "el_pendingFunctors (loops w b) = []"
    and l: "getNextLoop s (sv_poolCalls (servers w s)) = l" "l \<noteq> b" "\<not> isInLoopThread tb l w"
    and acc: "os_accept (en_os E) (sys w) (ac_socket (acceptors w a)) = (fd, err, peer)" "0 \<le> fd"
    and fresh: "\<forall>v. fresh v = (c, ch)" and ach: "ach = ac_channel (acceptors w a)" "ch \<noteq> ach"
    and name: "name = conn_name (servers w s) (sv_nextConnId (servers w s))"
  obtains w1 where "server_pass E user fresh getNextLoop False tb b (t, [(ach, POLLIN)]) w = Inr w1"
    "server_ok s w1" "conn_map s w1 = (conn_map s w)(name \<mapsto> c)" "sv_loop (servers w1 s) = b"
    "co_state (conns w1 c) = kConnecting" "co_loop (conns w1 c) = l" "co_socket (conns w1 c) = fd" "co_channel (conns w1 c) = ch"
    "co_connectionCallback (conns w1 c) = Some (sv_connectionCallback (servers w s))" "live w1 c"
    "sys w1 = sys w @ [Ev_accept (ac_socket (acceptors w a)), Ev_setsockopt fd ''SO_KEEPALIVE'' True]"
    "\<forall>u j. isInLoopThread u j w1 = isInLoopThread u j w" "0 < el_wakeups (loops w1 l)"
    "el_pendingFunctors (loops w1 l) = el_pendingFunctors (loops w l) @ [F_connectEstablished c]"
    "el_pendingFunctors (loops w1 b) = []" "\<forall>j. el_wakeupChannel (loops w1 j) = el_wakeupChannel (loops w j)"
    "\<forall>d. d \<noteq> ch \<longrightarrow> ch_readCallback (chans w1 d) = ch_readCallback (chans w d) \<and> ch_tied (chans w1 d) = ch_tied (chans w d)"
    "ch_closeCallback (chans w1 ch) = Some (Cb_conn_handleClose c)"
    "\<forall>u. env_ok E \<longrightarrow> isInLoopThread u l w \<longrightarrow> conn_inv E u c w1"
proof -
  let ?u = "log_sys (Ev_accept (ac_socket (acceptors w a))) (handling ach True (polled b ach POLLIN t w))"
  have u: "isInLoopThread tb (sv_loop (servers ?u s)) ?u" "l = getNextLoop s (sv_poolCalls (servers ?u s))"
    "\<not> isInLoopThread tb l ?u" using b l by simp_all
  obtain v where v: "enrolled E tb c s l fd ?u v" "placed E c ch s l fd ?u v" "\<And>t k. isInLoopThread t k v = isInLoopThread t k ?u"
      "newConnection E getNextLoop tb c ch s fd peer ?u = runInLoop tb l (F_connectEstablished c) (connectEstablished E tb c) v"
    using newConnection_split [of tb ?u s l getNextLoop, OF u(1,2)] by blast
  let ?v = "queueInLoop tb l (F_connectEstablished c) v"
  have "run_channel_cb E user fresh getNextLoop False tb (Cb_acceptor_handleRead a) t
      (handling ach True (polled b ach POLLIN t w)) = Inr ?v"
    using acc fresh assms(4) b u(3) v(3,4)
    by (simp add: run_channel_cb_def acceptor_handleRead_def assertInLoopThread_def socket_accept_def accept_def accepting_def
        runInLoop_def)
  moreover have "ch_revents (chans ?v ach) = POLLIN" using v(2) ach(2) by (simp add: placed_def)
  moreover have "el_pendingFunctors (loops ?v b) = []" using v(2) b(3) l(2) by (simp add: placed_def)
  ultimately have pass: "server_pass E user fresh getNextLoop False tb b (t, [(ach, POLLIN)]) w =
      Inr (functors_done b (swept b ach ?v))"
    using readable_pass [of w ach "Cb_acceptor_handleRead a" E user fresh getNextLoop False tb t b ?v] assms(4) ach(1)
    by (simp add: accepting_def)
  let ?w1 = "functors_done b (swept b ach ?v)"
  have s1: "server_ok s ?u" "conn_map s ?u = conn_map s w" using assms(1) by (simp_all add: server_ok_def conn_map_def)
  note put = server_ok_put [OF s1(1) assms(3) [folded s1(2)] v(1), of ?w1]
  have m: "server_ok s ?w1" "conn_map s ?w1 = (conn_map s w)(name \<mapsto> c)" using put s1(2) by (simp_all add: name)
  have c: "co_state (conns ?w1 c) = kConnecting" "co_loop (conns ?w1 c) = l" "co_socket (conns ?w1 c) = fd"
      "sv_loop (servers ?w1 s) = b"
    using v(1) b(1) by (simp_all add: enrolled_def Let_def)
  have wk: "0 < el_wakeups (loops ?w1 l)"
    using foreign_queue_wakes [of tb l v] u(3) v(3) l(2) by simp
  have inv: "\<forall>x. env_ok E \<longrightarrow> isInLoopThread x l w \<longrightarrow> conn_inv E x c ?w1"
    using v(2) ach(2) by (auto simp: placed_def conn_inv_def conn_wf_def)
  show ?thesis
    by (rule that [OF pass m c(4,1-3) _ _ _ _ _ wk]) (use v(2,3) l(2) b(3) ach inv in \<open>simp_all add: placed_def\<close>)
qed

lemma establish_pass:
  fixes w :: "('r, 'm) sworld_scheme"
  assumes env: "env_ok E" and wd: "wakeup_wired l w" and p: "el_pendingFunctors (loops w l) = [F_connectEstablished c]"
    and inv: "conn_inv E tid c w" and l: "co_loop (conns w c) = l" and ch: "co_channel (conns w c) = ch" "ch \<noteq> el_wakeupChannel (loops w l)"
    and st: "co_state (conns w c) = kConnecting" "co_connectionCallback (conns w c) = Some CB_defaultConnection"
  obtains w2 where "server_pass E user fresh getNextLoop no_accept4 tid l (t, [(el_wakeupChannel (loops w l), POLLIN)]) w = Inr w2"
    "conns w2 = (conns w)(c := (conns w c)\<lparr>co_state := kConnected\<rparr>)" "sys w2 = sys w @ [Ev_connection c True]"
    "live w2 = live w" "servers w2 = servers w" "conn_inv E tid c w2" "isReading (chans w2 ch)"
    "ch_tie (chans w2 ch) = Some c" "ch_closeCallback (chans w2 ch) = ch_closeCallback (chans w ch)"
    "el_channels (loops w2 l) (co_socket (conns w c)) = Some ch" "\<forall>j. j \<noteq> l \<longrightarrow> el_pendingFunctors (loops w2 j) = el_pendingFunctors (loops w j)"
    "el_pendingFunctors (loops w2 l) = []" "\<forall>j. el_wakeupChannel (loops w2 j) = el_wakeupChannel (loops w j)"
    "\<forall>d. d \<noteq> ch \<longrightarrow> ch_readCallback (chans w2 d) = ch_readCallback (chans w d) \<and> ch_tied (chans w2 d) = ch_tied (chans w d)"
proof -
  let ?x = "woken l t w"
  note th = conn_invD(1-3) [OF inv, unfolded l ch(1)]
  obtain i where i: "connectEstablished E tid c ?x = Inr (established_by c i ?x)"
    using connectEstablished_default [OF env, of tid ?x c] th l ch st by auto
  let ?w2 = "functors_done l (established_by c i ?x)"
  have pass: "server_pass E user fresh getNextLoop no_accept4 tid l (t, [(el_wakeupChannel (loops w l), POLLIN)]) w = Inr ?w2"
    unfolding wakeup_pass [OF wd] p by (simp add: run_functor_def i)
  have wr: "isWriting ((set_reading (ch_tie_to c d))\<lparr>ch_addedToLoop := True, ch_index := i\<rparr>) = isWriting d" for d
    using isWriting_ops(3) [of "ch_tie_to c d"] by (simp add: isWriting_def) (simp add: ch_tie_to_def)
  have inv2: "conn_inv E tid c ?w2"
    using inv ch st by (auto simp: conn_inv_def conn_wf_def wr) (simp_all add: ch_tie_to_def)
  have e: "el_channels (loops ?w2 l) (co_socket (conns w c)) = Some ch"
    using established_by_fields(9) [of c i ?x] th ch by simp
  have r: "isReading (chans ?w2 ch)"
    using ch isReading_ops(1) [of "ch_tie_to c (chans w ch)"] by (simp add: isReading_def)
  show ?thesis
    by (rule that [OF pass _ _ _ _ inv2 r _ _ e]) (use ch in \<open>simp_all add: ch_tie_to_def set_reading_def\<close>)
qed

section \<open>A sample server\<close>

text \<open>Server 0 and its acceptor on loop 1 with thread 8, and loop 0 of the thread pool with thread 7; a client
  connects and gets the descriptor 6.\<close>

definition sample_listening :: "nat sworld" where
  "sample_listening = upd_server 0 (\<lambda>sv. sv\<lparr>sv_loop := 1\<rparr>) (upd_acceptor 0 (\<lambda>ac. ac\<lparr>ac_loop := 1\<rparr>)
     (upd_chan 3 (setReadCallback (Cb_acceptor_handleRead 0)) (upd_chan 0 (setReadCallback (Cb_loop_handleRead 0))
       (upd_loop 1 (\<lambda>_. (fresh_event_loop 8)\<lparr>el_wakeupChannel := 9\<rparr>) blank_sworld))))"

definition client_env :: "(nat, nat sworld) cenv" where
  "client_env = server_env\<lparr>en_os := sample_os\<lparr>os_accept := \<lambda>_ _. (6, EAGAIN, zero_addr)\<rparr>\<rparr>"

lemma client_env_ok: "env_ok client_env"
  using sample_os_ok by (simp add: client_env_def env_ok_def sample_poller_ok vector_ops_ok os_ok_def)

lemma sample_listening_fields:
  "sv_loop (servers sample_listening 0) = 1" "sv_nextConnId (servers sample_listening 0) = 1"
  "sv_connectionCallback (servers sample_listening 0) = CB_defaultConnection"
  "ac_channel (acceptors sample_listening 0) = 3" "ac_socket (acceptors sample_listening 0) = 5"
  "el_wakeupChannel (loops sample_listening 0) = 0" "el_wakeupChannel (loops sample_listening 1) = 9"
  "el_pendingFunctors (loops sample_listening j) = []"
  "isInLoopThread t 0 sample_listening \<longleftrightarrow> t = 7" "isInLoopThread t 1 sample_listening \<longleftrightarrow> t = 8"
  "accepting 0 0 sample_listening" "wakeup_wired 0 sample_listening"
  "conn_name (servers sample_listening 0) 1 = ''echo-0.0.0.0:80#1''"
  "server_ok 0 sample_listening" "conn_map 0 sample_listening = Map.empty"
  using sample_name
  by (simp_all add: sample_listening_def blank_sworld_def sample_server_def sample_acceptor_def fresh_event_loop_def
      isInLoopThread_def accepting_def wakeup_wired_def setReadCallback_def new_channel_def conn_name_def
      server_ok_def conn_map_def map_ok_def)

end
