(* ===== verification/Spec2Isabelle.thy ===== *)
theory Spec2Isabelle
  imports Epoll_Wait Memcached_Properties Reactor_Wakeup Timer_Threads Server_Accept
begin

text \<open>
  The programs of the repository, in annotated copies: the network library muduo (\<open>Channel\<close>, \<open>Poller\<close>,
  \<open>EventLoop\<close>, \<open>Timer\<close>, \<open>TimerQueue\<close>, \<open>SocketsOps\<close>, \<open>Socket\<close>, \<open>Buffer\<close>, \<open>TcpConnection\<close>, \<open>Acceptor\<close>,
  \<open>TcpServer\<close>), the event poll of the Linux kernel (\<open>eventpoll.c\<close>) and the threads of memcached
  (\<open>memcached.c\<close>), all under \<open>src/\<close>. The three do not call one another.

  In muduo a thread runs an \<open>EventLoop\<close>: \<open>poll\<close> returns channels with events, the channels call the
  handlers of their owners (the eventfd of the loop, the timer queue, the acceptor, the connections),
  and then the loop runs the functors that other threads, or the handlers themselves, have queued. A
  \<open>TcpServer\<close> owns an acceptor and a map of connections; each connection lives on one loop, and other
  threads reach it through the functor queue of that loop, apart from the member \<open>state_\<close>, which they read and write directly.

  \<^bold>\<open>How the code is modelled.\<close> A function of the source is a definition of the same name (with a prefix
  where the name is taken) that threads the state and returns \<open>fault + 'a\<close>: a failed \<open>assert\<close>, \<open>LOG_FATAL\<close>,
  \<open>abort\<close>, the use of a freed object, a null pointer or a lock taken twice is a value \<open>Inl\<close>. The state of muduo is one
  record that grows from theory to theory (\<open>world\<close>, \<open>tworld\<close>, \<open>cworld\<close>, \<open>sworld\<close>): the objects by address,
  the timer heap, the clock, and the log \<open>sys\<close> of the system calls and callbacks. The state of
  \<open>eventpoll.c\<close> is the record \<open>kernel\<close>, that of \<open>memcached.c\<close> the record \<open>mc\<close>. The calling thread is the
  argument \<open>tid\<close>. Code that is not in \<open>src/\<close> is an argument with a named contract: \<open>poller_ok\<close> (the concrete pollers),
  \<open>buffer_ok\<close> (the methods of \<open>Buffer\<close>), \<open>os_ok\<close> (the system calls), \<open>alloc_ok\<close> (\<open>new\<close>), \<open>lib_ok\<close>, \<open>ctl_lib_ok\<close> and
  \<open>tree_lib_ok\<close> (the kernel functions around \<open>eventpoll.c\<close>), \<open>cq_ok\<close> and \<open>drive_lib_ok\<close> (what memcached calls);
  each contract is shown to hold for a concrete instance.

  \<^bold>\<open>The theories.\<close>

  \<^item> \<open>Prelude\<close>: results and faults, \<open>std::set\<close> as an ordered list behind the locales \<open>ordered_set\<close> and
    \<open>two_indexes\<close>, reachability behind the locale \<open>inductive_invariant\<close>.
  \<^item> \<open>Reactor_Channel\<close>, \<open>Reactor_Loop\<close> (\<open>Channel\<close>, \<open>Poller\<close>, \<open>EventLoop\<close>): members, registration, dispatch,
    the functor queue, the loop, construction and destruction. \<open>handleEvent\<close> is the selection of
    callbacks by the returned events. The locale \<open>in_loop_op\<close> is the contract of an operation that
    \<open>runInLoop\<close> may defer; it is interpreted for each such operation in \<open>Tcp_Properties\<close>.
  \<^item> \<open>Reactor_Wakeup\<close>: the loop thread interleaved with callers of \<open>queueInLoop\<close> and \<open>quit\<close>, one access to
    shared memory per step. No wakeup and no \<open>quit\<close> is lost, functors run once and in order, one
    pass runs all that were queued; a functor queued on the loop's thread before \<open>loop()\<close> may wait.
  \<^item> \<open>Timer_Queue\<close>, \<open>Timer_Expiry\<close>, \<open>Timer_Properties\<close> (\<open>Timer\<close>, \<open>TimerId\<close>, \<open>TimerQueue\<close>, \<open>EventLoop::runAt\<close> and
    its kin): the two sets agree, no assertion fails and no freed timer is read whatever the
    callbacks add and cancel; what a round of \<open>handleRead\<close> does; arming; cancellation.
  \<^item> \<open>Timer_Threads\<close>: the timer queue used by several threads. The sets stay well formed in every reachable
    state; \<open>addTimer\<close> on another thread may read a timer that the loop has deleted.
  \<^item> \<open>Net_Sockets\<close>, \<open>Net_Buffer\<close> (\<open>Endian.h\<close>, \<open>SocketsOps\<close>, \<open>Socket\<close>, \<open>Buffer::readFd\<close>): byte order, printing and
    parsing of addresses, which errors of \<open>accept\<close> are fatal, what \<open>readFd\<close> appends.
  \<^item> \<open>Tcp_Connection\<close>, \<open>Tcp_Stream\<close>, \<open>Tcp_Lifecycle\<close>, \<open>Tcp_Properties\<close> (\<open>TcpConnection\<close>): the stream of accepted bytes, the
    write interest and the life cycle, with user callbacks that call back into the connection and calls of other
    threads in between.
  \<^item> \<open>Tcp_Server\<close>, \<open>Tcp_Server_Properties\<close> (\<open>Acceptor\<close>, \<open>TcpServer\<close>): \<open>newConnection\<close> and the removal of a connection refine
    the update of a finite map; the reserve descriptor of the acceptor.
  \<^item> \<open>Server_Loop\<close>: the functors, timers and channel callbacks of all these components put into the loop, and
    what one pass of it does. \<open>Server_Teardown\<close>: the end of a connection, on the loop of the server or on another
    loop. \<open>Server_Accept\<close>: its start on another loop. This theory has the properties of whole passes: messages sent
    from other threads reach the stream; a connection is accepted, established and taken down
    across one loop or two; what can go wrong when another thread acts on a state that the loop has changed meanwhile.
  \<^item> \<open>Epoll_Core\<close>, \<open>Epoll_Calls\<close> (\<open>eventpoll.c\<close>): the wake-up callback, the scan of the ready list with its
    overflow chain of pointers, creation, insertion, \<open>epoll_ctl\<close>, \<open>epoll_wait\<close>, with locks and reference counts. \<open>Epoll_Scan\<close>: the scan
    under wake-ups at every point where the lock is free. \<open>Epoll_Ctl\<close>: balance of locks and references. \<open>Epoll_Properties\<close>: the scan refines
    the transfer without interference, no ready item and no sleeping task is lost, level-triggered items
    are served in turn, insertion is all or nothing. \<open>Epoll_Wait\<close>: \<open>epoll_wait\<close> returns.
  \<^item> \<open>Memcached\<close>, \<open>Memcached_Properties\<close> (\<open>memcached.c\<close>): the start of the workers, the hand-over of connections
    through queue and pipe with threads that can be stopped between the two, the state machine and its
    bound per event.

  \<^bold>\<open>Bounds and fuel.\<close> \<open>EventLoop::loop\<close> takes the list of the results of \<open>poll\<close>; when it is used up, the loop
  is in \<open>poll\<close> (\<open>Blocked\<close>). \<open>reinject\<close> (the loop over the overflow chain), the loops of \<open>ep_poll\<close> and \<open>drive_machine\<close> take
  fuel, whose end is the fault \<open>Out_of_fuel\<close>. The theorems give a number from which on every fuel is enough: the length of the chain for a
  scan, the end of the wake-ups for \<open>epoll_wait\<close>, a rank of the states for \<open>drive_machine\<close>. Words have the width of the source where bits matter
  (event masks, addresses, byte order); lengths and counters are numbers, with the subtraction of \<open>size_t\<close> in \<open>sendInLoop\<close> written with its wrap-around.

  \<^bold>\<open>Interleaving.\<close> Threads are interleaved between accesses to shared state in \<open>Reactor_Wakeup\<close> and in memcached's
  hand-over (queue and pipe are accessed in separate steps), at every point where the spin lock is free in the scan of
  \<open>eventpoll.c\<close>, and between whole calls in \<open>Timer_Threads\<close>, with \<open>addTimer\<close> also cut before its return. The calls of \<open>TcpConnection\<close> that other
  threads may make (\<open>send\<close>, \<open>shutdown\<close>, \<open>forceClose\<close>) are single steps in the life cycle of a connection; cut between the test of \<open>state_\<close> and the rest (the definitions with the suffix
  \<open>_rest\<close>) they race with the loop, as the last two properties of this theory show. Passes of different loops are run
  one after the other, in the order in which one wakes the other through its functor queue.

  \<^bold>\<open>Not modelled.\<close> Log output, the SIGPIPE initialiser and \<open>Poller::newDefaultPoller\<close>, which have no effect on the modelled state;
  \<open>PollPoller\<close>, \<open>EPollPoller\<close>, \<open>InetAddress\<close>, \<open>EventLoopThreadPool\<close>, \<open>Timestamp\<close> and the class \<open>Buffer\<close>, which are not in the repository (arguments);
  busy polling and timer slack in \<open>ep_poll\<close>, which are outside the file; \<open>ep_remove\<close>, \<open>ep_modify\<close>, \<open>ep_find\<close> and the loop checks of
  \<open>epoll_ctl\<close>, which the file calls and does not contain (arguments); what the excerpt of memcached elides. The comments of the sources are
  not code. Reference counts of \<open>boost::shared_ptr\<close> are not
  counted: a connection is alive while the field \<open>live\<close> says so, the destructors are explicit calls, and a functor that holds a plain pointer checks \<open>live\<close> when it runs.
\<close>

section \<open>Properties that span components\<close>



text \<open>C14. The end of a connection. The peer of a served connection hangs up: one pass of the loop tells the
  user once, takes the connection out of the map of the server and its channel out of the poller, and
  fails no assertion; after it the destructor of the connection finds all its assertions true and
  closes the socket. (The connection lives on the loop of the server, the connection callback is the
  default one, and nothing else is pending.)\<close>

theorem peer_close_teardown:
  assumes "env_ok E" and "served E tid s c k w" and "wired c w"
    and "sv_loop (servers w s) = co_loop (conns w c)" and "el_pendingFunctors (loops w (co_loop (conns w c))) = []"
  defines "l \<equiv> co_loop (conns w c)" and "ch \<equiv> co_channel (conns w c)" and "fd \<equiv> co_socket (conns w c)"
  shows "\<exists>w1 w2. loop_body (run_channel_cb E user fresh getNextLoop no_accept4 tid) (run_functor E user tid l) l
      (t, [(ch, POLLHUP)]) w = Inr w1
    \<and> conn_map s w1 = (conn_map s w)(k := None) \<and> el_channels (loops w1 l) fd = None
    \<and> destroy_connection tid c w1 = Inr w2 \<and> sys w2 = sys w @ [Ev_connection c False, Ev_close fd]"
proof -
  obtain w1 where w1: "server_pass E user fresh getNextLoop no_accept4 tid l (t, [(ch, POLLHUP)]) w = Inr w1"
      "torn_down c w1" "conns w1 = (conns w)(c := (conns w c)\<lparr>co_state := kDisconnected\<rparr>)"
      "sys w1 = sys w @ [Ev_connection c False]"
      "sv_connections (servers w1 s) = fst (map_erase k (sv_connections (servers w s)))"
    by (rule local_teardown [OF assms(1-3) l_def [THEN meta_eq_to_obj_eq] assms(4) [folded l_def]
          ch_def [THEN meta_eq_to_obj_eq] assms(5) [folded l_def], of user fresh getNextLoop no_accept4 t])
  have "map_ok (sv_connections (servers w s))" using servedD(3) [OF assms(2)] by (simp add: server_ok_def)
  then have "conn_map s w1 = (conn_map s w)(k := None)" by (simp add: conn_map_def w1(5) map_erase_of)
  moreover have "el_channels (loops w1 l) fd = None" using w1(2,3) by (simp add: torn_down_def l_def fd_def)
  ultimately show ?thesis using w1 destroy_torn_down [OF w1(2), of tid] by (simp add: fd_def)
qed

theorem peer_close_teardown_witness:
  "\<exists>w1 w2. loop_body (run_channel_cb server_env (\<lambda>_. Inr) (\<lambda>_. (2, 3)) (\<lambda>_ _. 0) False 7)
        (run_functor server_env (\<lambda>_. Inr) 7 0) 0 (5, [(2, POLLHUP)]) sample_established = Inr w1
    \<and> conn_map 0 w1 = Map.empty \<and> destroy_connection 7 1 w1 = Inr w2
    \<and> sys w2 = sys sample_established @ [Ev_connection 1 False, Ev_close 6]"
  using peer_close_teardown [OF server_env_ok sample_established_served sample_established_wired(1),
      of "\<lambda>_. Inr" "\<lambda>_. (2, 3)" "\<lambda>_ _. 0" False 5]
    sample_established_fields sample_established_loop by (auto simp: sample_established_map)

text \<open>C17. The start of a connection across two loops. The server and its acceptor live on loop \<open>b\<close>, the thread pool
  gives the connection to loop \<open>l\<close>, with thread \<open>tid\<close>. A client connects: the pass of loop \<open>b\<close> in which the
  acceptor is readable enters the connection under a new name and wakes loop \<open>l\<close>; the next pass of loop \<open>l\<close>
  establishes it, with its channel registered for reading, and tells the user once. No assertion fails on either
  thread, and the connection is then \<open>served\<close> and \<open>wired\<close> as its teardown needs it.\<close>

theorem two_loop_accept:
  assumes "env_ok E" and "server_ok s w" and "sv_nextConnId (servers w s) < 2 ^ 31" and "c \<notin> ran (conn_map s w)"
    and "sv_connectionCallback (servers w s) = CB_defaultConnection" and "\<And>v. en_close E s c v = removeConnection tid s c v"
    and "accepting a s w" and "os_accept (en_os E) (sys w) (ac_socket (acceptors w a)) = (fd, err, peer)" and "0 \<le> fd"
    and "sv_loop (servers w s) = b" and "getNextLoop s (sv_poolCalls (servers w s)) = l" and "l \<noteq> b"
    and "isInLoopThread tb b w" and "isInLoopThread tid l w" and "\<not> isInLoopThread tb l w"
    and "\<And>v. fresh v = (c, ch)" and "ch \<noteq> ac_channel (acceptors w a)" and "ch \<noteq> el_wakeupChannel (loops w l)"
    and "wakeup_wired l w" and "el_pendingFunctors (loops w l) = []" and "el_pendingFunctors (loops w b) = []"
  defines "name \<equiv> conn_name (servers w s) (sv_nextConnId (servers w s))"
  shows "\<exists>w1 w2.
      loop_body (run_channel_cb E user fresh getNextLoop False tb) (run_functor E user tb b) b
        (t1, [(ac_channel (acceptors w a), POLLIN)]) w = Inr w1
    \<and> name \<notin> dom (conn_map s w) \<and> conn_map s w1 = (conn_map s w)(name \<mapsto> c) \<and> co_state (conns w1 c) = kConnecting
    \<and> 0 < el_wakeups (loops w1 l)
    \<and> loop_body (run_channel_cb E user fresh getNextLoop False tid) (run_functor E user tid l) l
        (t2, [(el_wakeupChannel (loops w1 l), POLLIN)]) w1 = Inr w2
    \<and> co_state (conns w2 c) = kConnected \<and> isReading (conn_chan c w2) \<and> el_channels (loops w2 l) fd = Some ch
    \<and> hist c (sys w2) = hist c (sys w) @ [True]
    \<and> served E tid s c name w2 \<and> wired c w2 \<and> wakeup_wired l w2
    \<and> el_pendingFunctors (loops w2 l) = [] \<and> el_pendingFunctors (loops w2 b) = []"
proof -
  obtain w1 where p1: "server_pass E user fresh getNextLoop False tb b (t1, [(ac_channel (acceptors w a), POLLIN)]) w = Inr w1"
    and w1: "server_ok s w1" "conn_map s w1 = (conn_map s w)(name \<mapsto> c)" "sv_loop (servers w1 s) = b"
      "co_state (conns w1 c) = kConnecting" "co_loop (conns w1 c) = l" "co_socket (conns w1 c) = fd" "co_channel (conns w1 c) = ch"
      "co_connectionCallback (conns w1 c) = Some (sv_connectionCallback (servers w s))" "live w1 c"
      "sys w1 = sys w @ [Ev_accept (ac_socket (acceptors w a)), Ev_setsockopt fd ''SO_KEEPALIVE'' True]"
      "\<forall>u j. isInLoopThread u j w1 = isInLoopThread u j w" "0 < el_wakeups (loops w1 l)"
      "el_pendingFunctors (loops w1 l) = el_pendingFunctors (loops w l) @ [F_connectEstablished c]"
      "el_pendingFunctors (loops w1 b) = []" "\<forall>j. el_wakeupChannel (loops w1 j) = el_wakeupChannel (loops w j)"
      "\<forall>d. d \<noteq> ch \<longrightarrow> ch_readCallback (chans w1 d) = ch_readCallback (chans w d) \<and> ch_tied (chans w1 d) = ch_tied (chans w d)"
      "ch_closeCallback (chans w1 ch) = Some (Cb_conn_handleClose c)"
      "\<forall>u. env_ok E \<longrightarrow> isInLoopThread u l w \<longrightarrow> conn_inv E u c w1"
    by (rule accept_pass [of s w c a b tb getNextLoop l E fd err peer fresh ch "ac_channel (acceptors w a)" name user t1])
      (use assms in simp_all)
  have wd: "wakeup_wired l w1" using assms(18,19) w1(15,16) by (simp add: wakeup_wired_def)
  obtain w2 where p2: "server_pass E user fresh getNextLoop False tid l (t2, [(el_wakeupChannel (loops w1 l), POLLIN)]) w1 = Inr w2"
    and w2: "conns w2 = (conns w1)(c := (conns w1 c)\<lparr>co_state := kConnected\<rparr>)" "sys w2 = sys w1 @ [Ev_connection c True]"
      "live w2 = live w1" "servers w2 = servers w1" "conn_inv E tid c w2" "isReading (chans w2 ch)"
      "ch_tie (chans w2 ch) = Some c" "ch_closeCallback (chans w2 ch) = ch_closeCallback (chans w1 ch)"
      "el_channels (loops w2 l) (co_socket (conns w1 c)) = Some ch"
      "\<forall>j. j \<noteq> l \<longrightarrow> el_pendingFunctors (loops w2 j) = el_pendingFunctors (loops w1 j)"
      "el_pendingFunctors (loops w2 l) = []" "\<forall>j. el_wakeupChannel (loops w2 j) = el_wakeupChannel (loops w1 j)"
      "\<forall>d. d \<noteq> ch \<longrightarrow> ch_readCallback (chans w2 d) = ch_readCallback (chans w1 d) \<and> ch_tied (chans w2 d) = ch_tied (chans w1 d)"
    by (rule establish_pass [of E l w1 c tid ch user fresh getNextLoop False t2])
      (use assms(1,5,14,18,20) wd w1 in simp_all)
  have "server_ok s w2" "conn_map s w2 = conn_map s w1"
    using server_ok_cong [OF w2(4), of s] w1(1) by (simp_all add: w2(1))
  then have "served E tid s c name w2" "wired c w2" "wakeup_wired l w2"
    using wd w1 w2 assms(5,6,18) by (simp_all add: served_def may_close_def wired_def wakeup_wired_def)
  moreover have "name \<notin> dom (conn_map s w)" using server_ok_fresh [OF assms(2,3)] by (simp add: name_def)
  ultimately show ?thesis
    by (intro exI [of _ w1] exI [of _ w2]) (use p1 p2 w1 w2 assms(12) in \<open>simp add: hist_def\<close>)
qed

theorem two_loop_accept_witness:
  "\<exists>w1 w2.
      loop_body (run_channel_cb client_env (\<lambda>_. Inr) (\<lambda>_. (1, 2)) (\<lambda>_ _. 0) False 8) (run_functor client_env (\<lambda>_. Inr) 8 1) 1
        (5, [(3, POLLIN)]) sample_listening = Inr w1
    \<and> conn_map 0 w1 = [''echo-0.0.0.0:80#1'' \<mapsto> 1]
    \<and> loop_body (run_channel_cb client_env (\<lambda>_. Inr) (\<lambda>_. (1, 2)) (\<lambda>_ _. 0) False 7) (run_functor client_env (\<lambda>_. Inr) 7 0) 0
        (6, [(el_wakeupChannel (loops w1 0), POLLIN)]) w1 = Inr w2
    \<and> co_state (conns w2 1) = kConnected \<and> el_channels (loops w2 0) 6 = Some 2"
  using two_loop_accept [OF client_env_ok, of 0 sample_listening 1 7 0 6 EAGAIN zero_addr 1 "\<lambda>_ _. 0" 0 8 "\<lambda>_. (1, 2)" 2
      "\<lambda>_. Inr" 5 6] sample_listening_fields
  by (auto simp: client_env_def)

text \<open>C16. The end of a connection across two loops. The server lives on loop \<open>b\<close> with thread \<open>tb\<close>, the connection
  on the loop \<open>l\<close> of the thread pool with thread \<open>tid\<close>. The hang-up of the peer takes three passes. The loop of the
  connection tells the user and wakes the loop of the server. That loop takes the connection
  out of the map and wakes the first loop again. The loop of the connection takes the channel out of
  the poller. No assertion fails on either thread, and after that the destructor, on any thread, finds
  all its assertions true and closes the socket.\<close>

theorem two_loop_teardown:
  assumes "env_ok E" and "served E tid s c k w" and "wired c w" and "sv_loop (servers w s) = b" and "b \<noteq> co_loop (conns w c)"
    and "isInLoopThread tb b w" and "\<not> isInLoopThread tid b w" and "\<not> isInLoopThread tb (co_loop (conns w c)) w"
    and "wakeup_wired b w" and "wakeup_wired (co_loop (conns w c)) w"
    and "el_wakeupChannel (loops w b) \<noteq> co_channel (conns w c)"
    and "el_wakeupChannel (loops w (co_loop (conns w c))) \<noteq> co_channel (conns w c)"
    and "el_pendingFunctors (loops w (co_loop (conns w c))) = []" and "el_pendingFunctors (loops w b) = []"
  defines "l \<equiv> co_loop (conns w c)" and "ch \<equiv> co_channel (conns w c)" and "fd \<equiv> co_socket (conns w c)"
  shows "\<exists>w1 w2 w3 w4.
      loop_body (run_channel_cb E user fresh getNextLoop no_accept4 tid) (run_functor E user tid l) l
        (t1, [(ch, POLLHUP)]) w = Inr w1
    \<and> sys w1 = sys w @ [Ev_connection c False] \<and> conn_map s w1 = conn_map s w \<and> 0 < el_wakeups (loops w1 b)
    \<and> loop_body (run_channel_cb Eb user fresh getNextLoop no_accept4 tb) (run_functor Eb user tb b) b
        (t2, [(el_wakeupChannel (loops w1 b), POLLIN)]) w1 = Inr w2
    \<and> conn_map s w2 = (conn_map s w)(k := None) \<and> 0 < el_wakeups (loops w2 l)
    \<and> loop_body (run_channel_cb E user fresh getNextLoop no_accept4 tid) (run_functor E user tid l) l
        (t3, [(el_wakeupChannel (loops w2 l), POLLIN)]) w2 = Inr w3
    \<and> el_channels (loops w3 l) fd = None
    \<and> destroy_connection tany c w3 = Inr w4 \<and> sys w4 = sys w @ [Ev_connection c False, Ev_close fd]"
proof -
  note th = conn_invD(1-3) [OF servedD(1) [OF assms(2)], folded l_def ch_def fd_def]
  have lc: "l = co_loop (conns w c)" "ch = co_channel (conns w c)" by (simp_all add: l_def ch_def)
  obtain w1 where p1: "server_pass E user fresh getNextLoop no_accept4 tid l (t1, [(ch, POLLHUP)]) w = Inr w1"
    and w1: "conns w1 = (conns w)(c := (conns w c)\<lparr>co_state := kDisconnected\<rparr>)" "sys w1 = sys w @ [Ev_connection c False]"
      "servers w1 = servers w" "\<forall>u j. isInLoopThread u j w1 = isInLoopThread u j w" "el_pendingFunctors (loops w1 l) = []"
      "0 < el_wakeups (loops w1 b)" "el_pendingFunctors (loops w1 b) = [F_removeConnectionInLoop s c]"
      "\<forall>j. el_wakeupChannel (loops w1 j) = el_wakeupChannel (loops w j)" "\<forall>d. d \<noteq> ch \<longrightarrow> chans w1 d = chans w d"
      "isNoneEvent (chans w1 ch)" "\<not> ch_eventHandling (chans w1 ch)" "ch_loop (chans w1 ch) = l" "ch_fd (chans w1 ch) = fd"
    using remote_close_pass [OF assms(1-3) lc(1) assms(4) assms(5,7) [folded l_def] lc(2) assms(13) [folded l_def]]
    unfolding th assms(14) append.simps by metis
  have wired1: "wakeup_wired b w1" "wakeup_wired l w1"
    using assms(9-12) w1(8,9) by (simp_all add: wakeup_wired_def l_def ch_def)
  obtain w2 where p2: "server_pass Eb user fresh getNextLoop no_accept4 tb b (t2, [(el_wakeupChannel (loops w1 b), POLLIN)]) w1 = Inr w2"
    and w2: "conns w2 = conns w1" "sys w2 = sys w1" "\<forall>u j. isInLoopThread u j w2 = isInLoopThread u j w1"
      "sv_connections (servers w2 s) = fst (map_erase k (sv_connections (servers w1 s)))"
      "el_pendingFunctors (loops w2 l) = el_pendingFunctors (loops w1 l) @ [F_connectDestroyed c]" "0 < el_wakeups (loops w2 l)"
      "\<forall>j. el_wakeupChannel (loops w2 j) = el_wakeupChannel (loops w1 j)"
      "\<forall>d. d \<noteq> el_wakeupChannel (loops w1 b) \<longrightarrow> chans w2 d = chans w1 d" "wakeup_wired l w1 \<longrightarrow> wakeup_wired l w2"
    by (rule remove_pass [OF wired1(1) w1(7), of tb k l Eb user fresh getNextLoop no_accept4 t2])
      (use servedD(5,6) [OF assms(2)] assms(4-6,8) w1(1,3,4) in \<open>simp_all add: l_def\<close>)
  obtain w3 where p3: "server_pass E user fresh getNextLoop no_accept4 tid l (t3, [(el_wakeupChannel (loops w2 l), POLLIN)]) w2 = Inr w3"
      and w3: "torn_down c w3" "conns w3 = conns w2" "sys w3 = sys w2" "servers w3 = servers w2"
    by (rule destroyed_pass [OF assms(1), of l w2 c tid ch user fresh getNextLoop no_accept4 t3])
      (use assms(11,12) wired1(2) th w1 w2 lc in \<open>simp_all add: fd_def\<close>)
  have "map_ok (sv_connections (servers w s))" using servedD(3) [OF assms(2)] by (simp add: server_ok_def)
  then have m: "conn_map s w1 = conn_map s w" "conn_map s w2 = (conn_map s w)(k := None)"
    using w1(3) w2(4) by (simp_all add: conn_map_def map_erase_of)
  have e: "el_channels (loops w3 l) fd = None" using w3(1,2) w2(1) w1(1) by (simp add: torn_down_def l_def fd_def)
  show ?thesis
    by (rule exI [of _ w1], rule exI [of _ w2], rule exI [of _ w3])
      (use p1 p2 p3 m e w1(1,2,6) w2(1,2,6) w3(2,3) destroy_torn_down [OF w3(1), of tany] in \<open>simp add: fd_def\<close>)
qed

theorem two_loop_teardown_witness:
  "\<exists>w1 w2 w3 w4.
      loop_body (run_channel_cb server_env (\<lambda>_. Inr) (\<lambda>_. (2, 3)) (\<lambda>_ _. 0) False 7) (run_functor server_env (\<lambda>_. Inr) 7 0) 0
        (5, [(2, POLLHUP)]) sample_two_loops = Inr w1
    \<and> loop_body (run_channel_cb server_env (\<lambda>_. Inr) (\<lambda>_. (2, 3)) (\<lambda>_ _. 0) False 8) (run_functor server_env (\<lambda>_. Inr) 8 1) 1
        (6, [(el_wakeupChannel (loops w1 1), POLLIN)]) w1 = Inr w2
    \<and> conn_map 0 w2 = Map.empty
    \<and> loop_body (run_channel_cb server_env (\<lambda>_. Inr) (\<lambda>_. (2, 3)) (\<lambda>_ _. 0) False 7) (run_functor server_env (\<lambda>_. Inr) 7 0) 0
        (7, [(el_wakeupChannel (loops w2 0), POLLIN)]) w2 = Inr w3
    \<and> destroy_connection 7 1 w3 = Inr w4 \<and> sys w4 = sys sample_two_loops @ [Ev_connection 1 False, Ev_close 6]"
proof -
  have f: "co_loop (conns sample_two_loops 1) = 0" "co_channel (conns sample_two_loops 1) = 2"
    "co_socket (conns sample_two_loops 1) = 6"
    unfolding sample_two_loops_fields(1) by (rule sample_established_fields)+
  show ?thesis
    using two_loop_teardown [OF server_env_ok sample_two_loops_served(1) sample_two_loops_wired(1), of 1 8
        "\<lambda>_. Inr" "\<lambda>_. (2, 3)" "\<lambda>_ _. 0" False 5 server_env 6 7 7] f sample_two_loops_fields(4-) sample_two_loops_wired(2,3)
    by (auto simp: sample_two_loops_served(2))
qed

section \<open>Races on the state of a connection\<close>

text \<open>\<open>send\<close>, \<open>shutdown\<close> and \<open>forceClose\<close> may be called on any thread, and test \<open>state_\<close> without a lock. In the two
  properties below another thread has found the connection up, and the loop then runs the pass in
  which the peer hangs up before that thread goes on.\<close>

text \<open>C18. \<open>send\<close> binds the plain pointer \<open>this\<close> (the source marks it with a FIXME). The thread that called \<open>send\<close> queues
  the functor after the pass and then drops its reference to the connection, which is the last one: the next pass runs
  \<open>sendInLoop\<close> on the destroyed connection. Had \<open>send\<close> tested the state after the pass, it would have done nothing; and
  when that thread keeps its reference, the next pass drops the message and does nothing else.\<close>

theorem send_race:
  assumes "env_ok E" and "served E tid s c k w" and "wired c w" and "co_state (conns w c) = kConnected"
    and "sv_loop (servers w s) = co_loop (conns w c)" and "el_pendingFunctors (loops w (co_loop (conns w c))) = []"
    and "wakeup_wired (co_loop (conns w c)) w" and "el_wakeupChannel (loops w (co_loop (conns w c))) \<noteq> co_channel (conns w c)"
    and "\<not> isInLoopThread tother (co_loop (conns w c)) w"
  defines "l \<equiv> co_loop (conns w c)" and "ch \<equiv> co_channel (conns w c)"
  shows "send E tother c message w = send_rest E tother c message w
    \<and> (\<exists>w1 w2 w3 w4. loop_body (run_channel_cb E user fresh getNextLoop no_accept4 tid) (run_functor E user tid l) l
        (t, [(ch, POLLHUP)]) w = Inr w1
      \<and> send E tother c message w1 = Inr w1
      \<and> send_rest E tother c message w1 = Inr w2 \<and> destroy_connection tother c w2 = Inr w3
      \<and> loop_body (run_channel_cb E user fresh getNextLoop no_accept4 tid) (run_functor E user tid l) l
          (t', [(el_wakeupChannel (loops w3 l), POLLIN)]) w3 = Inl Use_after_free
      \<and> loop_body (run_channel_cb E user fresh getNextLoop no_accept4 tid) (run_functor E user tid l) l
          (t', [(el_wakeupChannel (loops w2 l), POLLIN)]) w2 = Inr w4
      \<and> conns w4 = conns w1 \<and> sys w4 = sys w1 \<and> el_pendingFunctors (loops w4 l) = [])"
proof -
  obtain w1 where w1: "server_pass E user fresh getNextLoop no_accept4 tid l (t, [(ch, POLLHUP)]) w = Inr w1"
      "torn_down c w1" "conns w1 = (conns w)(c := (conns w c)\<lparr>co_state := kDisconnected\<rparr>)"
      "live w1 = live w" "\<forall>u j. isInLoopThread u j w1 = isInLoopThread u j w" "el_pendingFunctors (loops w1 l) = []"
      "el_wakeupChannel (loops w1 l) = el_wakeupChannel (loops w l)" "\<forall>d. d \<noteq> ch \<longrightarrow> chans w1 d = chans w d"
    by (rule local_teardown [OF assms(1-3) l_def [THEN meta_eq_to_obj_eq] assms(5) [folded l_def]
          ch_def [THEN meta_eq_to_obj_eq] assms(6) [folded l_def], of user fresh getNextLoop no_accept4 t]) blast
  let ?w2 = "queueInLoop tother l (F_sendInLoop c message) w1"
  have s: "send E tother c message w1 = Inr w1" "send_rest E tother c message w1 = Inr ?w2"
    using w1(3,5) assms(9) by (simp_all add: send_def send_rest_def runInLoop_def l_def)
  let ?w3 = "destroy_socket (co_socket (conns w c)) (?w2\<lparr>live := (live ?w2)(c := False)\<rparr>)"
  have d: "destroy_connection tother c ?w2 = Inr ?w3"
    using destroy_torn_down [OF torn_down_queue [OF w1(2)]] w1(3) by simp
  have wd: "wakeup_wired l ?w2" "wakeup_wired l ?w3"
    using assms(7,8) w1(7,8) by (simp_all add: wakeup_wired_def l_def ch_def)
  have q: "el_pendingFunctors (loops ?w2 l) = [F_sendInLoop c message]" "el_pendingFunctors (loops ?w3 l) = [F_sendInLoop c message]"
    using w1(6) by simp_all
  have "server_pass E user fresh getNextLoop no_accept4 tid l (t', [(el_wakeupChannel (loops ?w3 l), POLLIN)]) ?w3 =
      Inl Use_after_free"
    unfolding wakeup_pass [OF wd(2)] q by (simp add: run_functor_def check_def)
  moreover have "server_pass E user fresh getNextLoop no_accept4 tid l (t', [(el_wakeupChannel (loops ?w2 l), POLLIN)]) ?w2 =
      Inr (functors_done l (woken l t' ?w2))"
    unfolding wakeup_pass [OF wd(1)] q
    using assms(3) w1(3-5) conn_invD(1) [OF servedD(1) [OF assms(2)]]
    by (simp add: run_functor_def wired_def sendInLoop_def assertInLoopThread_def)
  ultimately show ?thesis
    using w1(1) s d assms(4)
    by (intro conjI exI [of _ w1] exI [of _ ?w2] exI [of _ ?w3] exI [of _ "functors_done l (woken l t' ?w2)"])
      (simp_all add: send_def)
qed

theorem send_race_witness:
  "\<exists>w1 w2 w3. loop_body (run_channel_cb server_env (\<lambda>_. Inr) (\<lambda>_. (2, 3)) (\<lambda>_ _. 0) False 7)
        (run_functor server_env (\<lambda>_. Inr) 7 0) 0 (5, [(2, POLLHUP)]) sample_established = Inr w1
    \<and> send_rest server_env 8 1 [1, 2] w1 = Inr w2 \<and> destroy_connection 8 1 w2 = Inr w3
    \<and> loop_body (run_channel_cb server_env (\<lambda>_. Inr) (\<lambda>_. (2, 3)) (\<lambda>_ _. 0) False 7)
        (run_functor server_env (\<lambda>_. Inr) 7 0) 0 (6, [(el_wakeupChannel (loops w3 0), POLLIN)]) w3 = Inl Use_after_free"
  using send_race [OF server_env_ok sample_established_served sample_established_wired(1), of 8 "[1, 2]"
      "\<lambda>_. Inr" "\<lambda>_. (2, 3)" "\<lambda>_ _. 0" False 5 6]
    sample_established_fields sample_established_loop sample_established_wired(2) by auto

text \<open>C19. \<open>shutdown\<close> and \<open>forceClose\<close> set the state after they tested it (the source asks for a compare-and-swap). Either
  one overwrites \<open>kDisconnected\<close> with \<open>kDisconnecting\<close> when it goes on after the pass. After \<open>shutdown\<close> the
  assertion of the destructor fails. After \<open>forceClose\<close> the next pass closes the connection a second time, and the assertion of
  \<open>removeConnectionInLoop\<close> that the connection was in the map fails.\<close>


theorem close_race:
  assumes "env_ok E" and "served E tid s c k w" and "wired c w" and "co_state (conns w c) = kConnected"
    and "sv_loop (servers w s) = co_loop (conns w c)" and "el_pendingFunctors (loops w (co_loop (conns w c))) = []"
    and "wakeup_wired (co_loop (conns w c)) w" and "el_wakeupChannel (loops w (co_loop (conns w c))) \<noteq> co_channel (conns w c)"
    and "\<not> isInLoopThread tother (co_loop (conns w c)) w"
  defines "l \<equiv> co_loop (conns w c)" and "ch \<equiv> co_channel (conns w c)"
  shows "shutdown tother c w = shutdown_rest tother c w \<and> forceClose tother c w = forceClose_rest tother c w
    \<and> (\<exists>w1 w2. loop_body (run_channel_cb E user fresh getNextLoop no_accept4 tid) (run_functor E user tid l) l
        (t, [(ch, POLLHUP)]) w = Inr w1
      \<and> shutdown_rest tother c w1 = Inr w2 \<and> destroy_connection tother c w2 = Inl Assertion_failed
      \<and> loop_body (run_channel_cb E user fresh getNextLoop no_accept4 tid) (run_functor E user tid l) l
          (t', [(el_wakeupChannel (loops (forceClose_rest tother c w1) l), POLLIN)]) (forceClose_rest tother c w1)
        = Inl Assertion_failed)"
proof -
  obtain w1 where w1: "server_pass E user fresh getNextLoop no_accept4 tid l (t, [(ch, POLLHUP)]) w = Inr w1"
      "torn_down c w1" "conns w1 = (conns w)(c := (conns w c)\<lparr>co_state := kDisconnected\<rparr>)"
      "sv_connections (servers w1 s) = fst (map_erase k (sv_connections (servers w s)))" "sv_loop (servers w1 s) = l"
      "\<forall>u j. isInLoopThread u j w1 = isInLoopThread u j w" "el_pendingFunctors (loops w1 l) = []"
      "el_wakeupChannel (loops w1 l) = el_wakeupChannel (loops w l)" "\<forall>d. d \<noteq> ch \<longrightarrow> chans w1 d = chans w d"
    by (rule local_teardown [OF assms(1-3) l_def [THEN meta_eq_to_obj_eq] assms(5) [folded l_def]
          ch_def [THEN meta_eq_to_obj_eq] assms(6) [folded l_def], of user fresh getNextLoop no_accept4 t]) blast
  let ?w2 = "queueInLoop tother l (F_shutdownInLoop c) (setState c kDisconnecting w1)"
  have s: "shutdown_rest tother c w1 = Inr ?w2" "destroy_connection tother c ?w2 = Inl Assertion_failed"
    using w1(3,6) assms(9) by (simp_all add: shutdown_rest_def runInLoop_def l_def destroy_connection_def check_def)
  let ?f = "forceClose_rest tother c w1"
  have f: "?f = queueInLoop tother l (F_forceCloseInLoop c) (setState c kDisconnecting w1)"
    using w1(3) by (simp add: forceClose_rest_def l_def)
  have wired: "wakeup_wired l ?f" using assms(7,8) w1(8,9) by (simp add: f wakeup_wired_def l_def ch_def)
  have q: "el_pendingFunctors (loops ?f l) = [F_forceCloseInLoop c]" using w1(7) by (simp add: f)
  have "server_pass E user fresh getNextLoop no_accept4 tid l (t', [(el_wakeupChannel (loops ?f l), POLLIN)]) ?f =
      Inl Assertion_failed"
    unfolding wakeup_pass [OF wired] q
    using second_close [OF assms(1,2), of "woken l t' ?f"] w1(2-6,8) assms(8) servedD(1) [OF assms(2)]
    by (simp add: run_functor_def f l_def ch_def torn_down_def conn_invD(1))
  then show ?thesis using w1(1) s assms(4) by (auto simp: shutdown_def forceClose_def may_close_def)
qed

theorem close_race_witness:
  "\<exists>w1 w2. loop_body (run_channel_cb server_env (\<lambda>_. Inr) (\<lambda>_. (2, 3)) (\<lambda>_ _. 0) False 7)
        (run_functor server_env (\<lambda>_. Inr) 7 0) 0 (5, [(2, POLLHUP)]) sample_established = Inr w1
    \<and> shutdown_rest 8 1 w1 = Inr w2 \<and> destroy_connection 8 1 w2 = Inl Assertion_failed
    \<and> loop_body (run_channel_cb server_env (\<lambda>_. Inr) (\<lambda>_. (2, 3)) (\<lambda>_ _. 0) False 7)
        (run_functor server_env (\<lambda>_. Inr) 7 0) 0
        (6, [(el_wakeupChannel (loops (forceClose_rest 8 1 w1) 0), POLLIN)]) (forceClose_rest 8 1 w1) = Inl Assertion_failed"
  using close_race [OF server_env_ok sample_established_served sample_established_wired(1), of 8
      "\<lambda>_. Inr" "\<lambda>_. (2, 3)" "\<lambda>_ _. 0" False 5 6]
    sample_established_fields sample_established_loop sample_established_wired(2) by auto

end
